(* ===== verification/Prelude.thy ===== *)
theory Prelude
  imports Complex_Main "HOL-Library.Word" "HOL-Library.Log_Nat"
begin

text \<open>
  Shared vocabulary of the development: the names of the machine types the
  C++ code uses, the bounds of \<open>std::int64_t\<close>, and the generic lemmas on
  powers of two, lists and words that several components need.

  A \<open>std::uint8_t\<close> / \<open>std::uint16_t\<close> / \<open>std::uint32_t\<close> / \<open>std::uint64_t\<close> is a
  word of that width (its \<open>+\<close> wraps, as the C++ unsigned types do).  A
  \<open>std::int16_t\<close> is a 16-bit word read with \<^const>\<open>sint\<close>.  A \<open>std::int64_t\<close> time
  stamp is an \<^typ>\<open>int\<close>: signed overflow is undefined behaviour in C++, so the
  model computes over the integers and the development proves, separately,
  that the results stay inside \<open>i64\<close>.
\<close>

unbundle bit_operations_syntax

type_synonym u8 = "8 word"
type_synonym u16 = "16 word"
type_synonym u32 = "32 word"
type_synonym u64 = "64 word"

definition int64_max :: int where
  "int64_max = 9223372036854775807"

definition int64_min :: int where
  "int64_min = - 9223372036854775808"

definition in_int64 :: "int \<Rightarrow> bool" where
  "in_int64 x \<longleftrightarrow> int64_min \<le> x \<and> x \<le> int64_max"

definition uint64_max :: u64 where
  "uint64_max = - 1"

lemma in_int64_diff:
  "\<lbrakk>0 \<le> a; 0 \<le> b; in_int64 a; in_int64 b\<rbrakk> \<Longrightarrow> in_int64 (a - b)"
  by (simp add: in_int64_def int64_min_def int64_max_def)

section \<open>Hint collections\<close>

named_theorems pow2_simps \<open>normal forms of integer powers of two\<close>

section \<open>Integer powers of two\<close>

abbreviation pow2 :: "int \<Rightarrow> real" where
  "pow2 e \<equiv> 2 powi e"

lemma pow2_pos [simp]: "0 < pow2 e"
  by simp

lemma pow2_nonneg [simp]: "0 \<le> pow2 e"
  by simp

lemma pow2_add [pow2_simps]: "pow2 (a + b) = pow2 a * pow2 b"
  by (simp add: power_int_add)

lemma pow2_diff [pow2_simps]: "pow2 (a - b) = pow2 a / pow2 b"
  by (simp add: power_int_diff)

lemma pow2_uminus: "pow2 (- a) = 1 / pow2 a"
  by (simp add: power_int_minus divide_simps)

lemma pow2_mono: "a \<le> b \<Longrightarrow> pow2 a \<le> pow2 b"
  by (simp add: power_int_increasing)

lemma pow2_strict_mono: "a < b \<Longrightarrow> pow2 a < pow2 b"
  by (simp add: power_int_strict_increasing)

lemma pow2_le_iff [simp]: "pow2 a \<le> pow2 b \<longleftrightarrow> a \<le> b"
  by (metis linorder_not_le pow2_mono pow2_strict_mono)

lemma pow2_less_iff [simp]: "pow2 a < pow2 b \<longleftrightarrow> a < b"
  by (meson linorder_not_le pow2_le_iff)

lemma pow2_nat: "0 \<le> e \<Longrightarrow> 2 ^ nat e = pow2 e"
  by (simp add: power_int_nonneg_exp)

lemma pow2_split: "pow2 e = 2 ^ nat e / 2 ^ nat (- e)"
  by (cases "0 \<le> e") (simp_all add: power_int_def divide_simps)

lemma pow2_divide_le: "x / pow2 e \<le> c \<longleftrightarrow> x \<le> c * pow2 e"
  by (rule pos_divide_le_eq) simp

lemma pow2_le_divide: "c \<le> x / pow2 e \<longleftrightarrow> c * pow2 e \<le> x"
  by (rule pos_le_divide_eq) simp

section \<open>Lists and words\<close>

lemma length_1_iff: "length xs = Suc 0 \<longleftrightarrow> (\<exists>x. xs = [x])"
  by (cases xs) auto

lemma foldl_xor_start: "foldl (\<lambda>v b. v XOR b) (a XOR c) xs = a XOR foldl (\<lambda>v b. v XOR b) c xs"
  for a :: "'a::len word"
  by (induction xs arbitrary: c) (simp_all add: xor.assoc)

lemma sint16_bounds: "- 32768 \<le> sint (w :: 16 word)" "sint (w :: 16 word) \<le> 32767"
  using sint_ge [of w] sint_lt [of w] by simp_all

end
