(* ===== verification/Float64.thy ===== *)
theory Float64
  imports Prelude
begin

text \<open>
  The C++ type \<open>double\<close>, as IEEE-754 binary64 with round-to-nearest, ties to
  even (the arithmetic of the build's target, SSE2 on Linux).  A double is a
  NaN, a signed infinity, or a sign, a mantissa and an exponent; the operations
  are executable on integers, and the lemmas relate them to the real numbers:
  a rounded result is the closest representable value (\<open>round_nearest\<close>).
  NaN payloads are not modelled: no operation of the program reads them.
\<close>

datatype f64 = F_NaN | F_Inf bool | F_Fin bool nat int

text \<open>
  The well-formed finite doubles: a zero has exponent \<open>0\<close> by convention, a
  normal number has a 53-bit mantissa, a subnormal one the least exponent.
\<close>

fun f64_wf :: "f64 \<Rightarrow> bool" where
  "f64_wf F_NaN = True"
| "f64_wf (F_Inf s) = True"
| "f64_wf (F_Fin s m e) =
     (if m = 0 then e = 0
      else - 1074 \<le> e \<and> e \<le> 971 \<and> m < 2 ^ 53 \<and> (2 ^ 52 \<le> m \<or> e = - 1074))"

fun f64_val :: "f64 \<Rightarrow> real" where
  "f64_val (F_Fin s m e) = (if s then - 1 else 1) * real m * pow2 e"
| "f64_val x = 0"

fun isfinite :: "f64 \<Rightarrow> bool" where
  "isfinite (F_Fin s m e) = True"
| "isfinite x = False"

section \<open>Rounding an exact quotient\<close>

text \<open>The integer closest to \<open>p / q\<close>, the even one of two equally close.\<close>

definition round_half_even :: "nat \<Rightarrow> nat \<Rightarrow> nat" where
  "round_half_even p q =
     (let d = p div q; r = p mod q
      in if 2 * r < q \<or> (2 * r = q \<and> even d) then d else d + 1)"

text \<open>The integer part of the binary logarithm of \<open>p / q\<close>.\<close>

definition ilog2_frac :: "nat \<Rightarrow> nat \<Rightarrow> int" where
  "ilog2_frac p q =
     (let k = int (floorlog 2 p) - int (floorlog 2 q)
      in if q * 2 ^ nat k \<le> p * 2 ^ nat (- k) then k else k - 1)"

text \<open>The exponent of the last mantissa bit of the double nearest to \<open>p / q\<close>.\<close>

definition f64_exponent :: "nat \<Rightarrow> nat \<Rightarrow> int" where
  "f64_exponent p q = max (- 1074) (ilog2_frac p q - 52)"

definition f64_pack :: "bool \<Rightarrow> nat \<Rightarrow> int \<Rightarrow> f64" where
  "f64_pack s m e =
     (if m = 0 then F_Fin s 0 0
      else if m = 2 ^ 53 then (if 971 < e + 1 then F_Inf s else F_Fin s (2 ^ 52) (e + 1))
      else if 971 < e then F_Inf s
      else F_Fin s m e)"

definition f64_round :: "bool \<Rightarrow> nat \<Rightarrow> nat \<Rightarrow> f64" where
  "f64_round s p q =
     (if p = 0 then F_Fin s 0 0
      else let e = f64_exponent p q
           in f64_pack s (round_half_even (p * 2 ^ nat (- e)) (q * 2 ^ nat e)) e)"

section \<open>The operations the program uses\<close>

definition f64_of_int :: "int \<Rightarrow> f64" where
  "f64_of_int i = f64_round (i < 0) (nat \<bar>i\<bar>) 1"

text \<open>A decimal literal \<open>d / 10 ^ k\<close> of the source.\<close>

definition f64_decimal :: "nat \<Rightarrow> nat \<Rightarrow> f64" where
  "f64_decimal d k = f64_round False d (10 ^ k)"

fun f64_sign :: "f64 \<Rightarrow> bool" where
  "f64_sign F_NaN = False"
| "f64_sign (F_Inf s) = s"
| "f64_sign (F_Fin s m e) = s"

fun f64_mul :: "f64 \<Rightarrow> f64 \<Rightarrow> f64" where
  "f64_mul (F_Fin s m e) (F_Fin s' m' e') =
     f64_round (s \<noteq> s') (m * m' * 2 ^ nat (e + e')) (2 ^ nat (- (e + e')))"
| "f64_mul (F_Inf s) (F_Inf s') = F_Inf (s \<noteq> s')"
| "f64_mul (F_Inf s) (F_Fin s' m e) = (if m = 0 then F_NaN else F_Inf (s \<noteq> s'))"
| "f64_mul (F_Fin s m e) (F_Inf s') = (if m = 0 then F_NaN else F_Inf (s \<noteq> s'))"
| "f64_mul F_NaN y = F_NaN"
| "f64_mul x F_NaN = F_NaN"

fun f64_div :: "f64 \<Rightarrow> f64 \<Rightarrow> f64" where
  "f64_div (F_Fin s m e) (F_Fin s' m' e') =
     (if m' = 0 then (if m = 0 then F_NaN else F_Inf (s \<noteq> s'))
      else f64_round (s \<noteq> s') (m * 2 ^ nat (e - e')) (m' * 2 ^ nat (e' - e)))"
| "f64_div (F_Inf s) (F_Inf s') = F_NaN"
| "f64_div (F_Inf s) (F_Fin s' m e) = F_Inf (s \<noteq> s')"
| "f64_div (F_Fin s m e) (F_Inf s') = F_Fin (s \<noteq> s') 0 0"
| "f64_div F_NaN y = F_NaN"
| "f64_div x F_NaN = F_NaN"

fun f64_abs :: "f64 \<Rightarrow> f64" where
  "f64_abs F_NaN = F_NaN"
| "f64_abs (F_Inf s) = F_Inf False"
| "f64_abs (F_Fin s m e) = F_Fin False m e"

text \<open>The integer part towards zero of a finite value (\<open>static_cast\<close> to an integer type).\<close>

fun f64_to_int :: "f64 \<Rightarrow> int" where
  "f64_to_int (F_Fin s m e) =
     (if s then - 1 else 1) * int (m * 2 ^ nat e div 2 ^ nat (- e))"
| "f64_to_int x = 0"

fun f64_trunc :: "f64 \<Rightarrow> f64" where
  "f64_trunc (F_Fin s m e) = (if 0 \<le> e then F_Fin s m e else f64_round s (m div 2 ^ nat (- e)) 1)"
| "f64_trunc x = x"

text \<open>The mantissa, with its sign, in units of \<open>2 ^ k\<close> for an exponent \<open>k \<le> e\<close>.\<close>

fun f64_units :: "int \<Rightarrow> f64 \<Rightarrow> int" where
  "f64_units k (F_Fin s m e) = (if s then - 1 else 1) * int (m * 2 ^ nat (e - k))"
| "f64_units k x = 0"

fun f64_less :: "f64 \<Rightarrow> f64 \<Rightarrow> bool" where
  "f64_less (F_Fin s m e) (F_Fin s' m' e') =
     (f64_units (min e e') (F_Fin s m e) < f64_units (min e e') (F_Fin s' m' e'))"
| "f64_less (F_Inf s) (F_Inf s') = (s \<and> \<not> s')"
| "f64_less (F_Inf s) (F_Fin s' m e) = s"
| "f64_less (F_Fin s m e) (F_Inf s') = (\<not> s')"
| "f64_less F_NaN y = False"
| "f64_less x F_NaN = False"

fun f64_eq :: "f64 \<Rightarrow> f64 \<Rightarrow> bool" where
  "f64_eq (F_Fin s m e) (F_Fin s' m' e') =
     (f64_units (min e e') (F_Fin s m e) = f64_units (min e e') (F_Fin s' m' e'))"
| "f64_eq (F_Inf s) (F_Inf s') = (s = s')"
| "f64_eq x y = False"

definition f64_le :: "f64 \<Rightarrow> f64 \<Rightarrow> bool" where
  "f64_le x y \<longleftrightarrow> f64_less x y \<or> f64_eq x y"

abbreviation f64_zero :: f64 where
  "f64_zero \<equiv> F_Fin False 0 0"

lemmas f64_eval =
  f64_decimal_def f64_of_int_def f64_round_def f64_exponent_def ilog2_frac_def
  compute_floorlog f64_pack_def round_half_even_def Let_def f64_le_def

section \<open>Rounding to the nearest integer\<close>

lemma round_half_even_error:
  assumes "0 < q"
  shows "\<bar>real (round_half_even p q) - real p / real q\<bar> \<le> 1 / 2"
proof -
  define d r where "d = p div q" and "r = p mod q"
  have p: "real p = real d * real q + real r"
    by (simp add: d_def r_def flip: of_nat_mult of_nat_add)
  then have quo: "real p / real q = real d + real r / real q"
    using assms by (simp add: field_simps)
  have r: "0 \<le> real r / real q" "real r / real q < 1"
    using assms by (simp_all add: r_def)
  show ?thesis
  proof (cases "2 * r < q \<or> (2 * r = q \<and> even d)")
    case True
    then have "real r / real q \<le> 1 / 2"
      using assms by (auto simp: field_simps simp flip: of_nat_mult of_nat_less_iff)
    with True r show ?thesis
      by (auto simp: round_half_even_def Let_def quo d_def r_def)
  next
    case False
    then have "real r / real q \<ge> 1 / 2"
      using assms by (simp add: field_simps flip: of_nat_mult of_nat_le_iff)
    with False r show ?thesis
      by (auto simp: round_half_even_def Let_def quo d_def r_def)
  qed
qed

text \<open>No integer is closer, since two distinct integers are at least one apart.\<close>

lemma half_error_nearest:
  fixes x :: real and n k :: int
  assumes "\<bar>of_int n - x\<bar> \<le> 1 / 2"
  shows "\<bar>of_int n - x\<bar> \<le> \<bar>of_int k - x\<bar>"
proof (cases "n = k")
  case False
  then have "1 \<le> \<bar>of_int n - (of_int k :: real)\<bar>"
    by linarith
  then show ?thesis using assms by linarith
qed simp

lemma round_half_even_nearest:
  "0 < q \<Longrightarrow> \<bar>real (round_half_even p q) - real p / real q\<bar> \<le> \<bar>of_int k - real p / real q\<bar>"
  using half_error_nearest [of "int (round_half_even p q)"] round_half_even_error by simp

text \<open>An integer bound on the quotient bounds the rounded value.\<close>

lemma round_half_even_ge:
  assumes "0 < q" "real k \<le> real p / real q"
  shows "k \<le> round_half_even p q"
  using round_half_even_error [OF assms(1), of p] assms(2) by linarith

lemma round_half_even_le:
  assumes "0 < q" "real p / real q \<le> real k"
  shows "round_half_even p q \<le> k"
  using round_half_even_error [OF assms(1), of p] assms(2) by linarith

section \<open>The exponent of a quotient\<close>

lemma floorlog2_bounds:
  assumes "0 < p"
  shows "pow2 (int (floorlog 2 p) - 1) \<le> real p" "real p < pow2 (int (floorlog 2 p))"
proof -
  have f: "0 < floorlog 2 p"
    using assms by (simp add: floorlog_def)
  have b: "2 ^ (floorlog 2 p - 1) \<le> p" "p < 2 ^ floorlog 2 p"
    using floorlog_bounds [of p 2] assms by simp_all
  have "real (2 ^ (floorlog 2 p - 1)) \<le> real p"
    using b(1) by (simp only: of_nat_le_iff)
  then show "pow2 (int (floorlog 2 p) - 1) \<le> real p"
    using f by (simp add: power_int_def nat_diff_distrib')
  have "real p < real (2 ^ floorlog 2 p)"
    using b(2) by (simp only: of_nat_less_iff)
  then show "real p < pow2 (int (floorlog 2 p))"
    by simp
qed

lemma frac_scale_le:
  assumes "0 < q"
  shows "q * 2 ^ nat k \<le> p * 2 ^ nat (- k) \<longleftrightarrow> pow2 k \<le> real p / real q"
proof -
  have "q * 2 ^ nat k \<le> p * 2 ^ nat (- k) \<longleftrightarrow>
      real (q * 2 ^ nat k) \<le> real (p * 2 ^ nat (- k))"
    by (simp only: of_nat_le_iff)
  then show ?thesis
    using assms by (simp add: pow2_split field_simps)
qed

lemma ilog2_frac_bounds:
  assumes "0 < p" "0 < q"
  shows "pow2 (ilog2_frac p q) \<le> real p / real q"
    and "real p / real q < pow2 (ilog2_frac p q + 1)"
proof -
  define a b where "a = int (floorlog 2 p)" and "b = int (floorlog 2 q)"
  note p = floorlog2_bounds [OF assms(1), folded a_def]
  note q = floorlog2_bounds [OF assms(2), folded b_def]
  have "real p / real q < pow2 a / pow2 (b - 1)"
    using p q assms by (intro frac_less) auto
  then have up: "real p / real q < pow2 (a - b + 1)"
    by (simp add: pow2_simps)
  have "pow2 (a - 1) / pow2 b \<le> real p / real q"
    using p q assms by (intro frac_le) auto
  then have lo: "pow2 (a - b - 1) \<le> real p / real q"
    by (simp add: pow2_simps)
  show "pow2 (ilog2_frac p q) \<le> real p / real q"
    using lo assms by (simp add: ilog2_frac_def Let_def frac_scale_le flip: a_def b_def)
  show "real p / real q < pow2 (ilog2_frac p q + 1)"
    using up assms by (simp add: ilog2_frac_def Let_def frac_scale_le flip: a_def b_def)
qed

section \<open>Rounding to binary64\<close>

abbreviation sgnf :: "bool \<Rightarrow> real" where
  "sgnf s \<equiv> (if s then - 1 else 1)"

definition f64_mantissa :: "nat \<Rightarrow> nat \<Rightarrow> nat" where
  "f64_mantissa p q =
     (let e = f64_exponent p q in round_half_even (p * 2 ^ nat (- e)) (q * 2 ^ nat e))"

lemma f64_round_mantissa:
  "0 < p \<Longrightarrow> f64_round s p q = f64_pack s (f64_mantissa p q) (f64_exponent p q)"
  by (simp add: f64_round_def f64_mantissa_def Let_def)

lemma scaled_quotient:
  "0 < q \<Longrightarrow> real (p * 2 ^ nat (- e)) / real (q * 2 ^ nat e) = real p / real q / pow2 e"
  by (simp add: pow2_split [of e] field_simps)

lemma f64_mantissa_error:
  assumes "0 < q"
  shows "\<bar>real (f64_mantissa p q) - real p / real q / pow2 (f64_exponent p q)\<bar> \<le> 1 / 2"
proof -
  define e where "e = f64_exponent p q"
  have "0 < q * 2 ^ nat e"
    using assms by simp
  from round_half_even_error [OF this, of "p * 2 ^ nat (- e)"]
  show ?thesis
    by (simp only: scaled_quotient [OF assms] f64_mantissa_def Let_def flip: e_def)
qed

lemma f64_mantissa_leI:
  assumes "0 < q" "real p / real q / pow2 (f64_exponent p q) \<le> real k"
  shows "f64_mantissa p q \<le> k"
  using f64_mantissa_error [OF assms(1), of p] assms(2) by linarith

lemma f64_mantissa_geI:
  assumes "0 < q" "real k \<le> real p / real q / pow2 (f64_exponent p q)"
  shows "k \<le> f64_mantissa p q"
  using f64_mantissa_error [OF assms(1), of p] assms(2) by linarith

lemma f64_exponent_ge: "- 1074 \<le> f64_exponent p q"
  by (simp add: f64_exponent_def)

lemma f64_mantissa_le:
  assumes "0 < p" "0 < q"
  shows "f64_mantissa p q \<le> 2 ^ 53"
proof -
  have "real p / real q < pow2 (ilog2_frac p q + 1)"
    by (rule ilog2_frac_bounds(2) [OF assms])
  also have "\<dots> \<le> pow2 (f64_exponent p q + 53)"
    by (simp add: f64_exponent_def)
  finally have "real p / real q / pow2 (f64_exponent p q) \<le> 2 ^ 53"
    unfolding pow2_divide_le by (simp add: pow2_simps mult.commute)
  then show ?thesis
    using assms(2) by (intro f64_mantissa_leI) simp_all
qed

lemma f64_mantissa_normal:
  assumes "0 < p" "0 < q" "- 1074 < f64_exponent p q"
  shows "2 ^ 52 \<le> f64_mantissa p q" "pow2 (f64_exponent p q + 52) \<le> real p / real q"
proof -
  have e: "ilog2_frac p q = f64_exponent p q + 52"
    using assms(3) by (simp add: f64_exponent_def max_def split: if_splits)
  show lo: "pow2 (f64_exponent p q + 52) \<le> real p / real q"
    using ilog2_frac_bounds(1) [OF assms(1,2)] by (simp add: e)
  then have "2 ^ 52 \<le> real p / real q / pow2 (f64_exponent p q)"
    unfolding pow2_le_divide by (simp add: pow2_simps mult.commute)
  then show "2 ^ 52 \<le> f64_mantissa p q"
    using assms(2) by (intro f64_mantissa_geI) simp_all
qed

lemma f64_pack_wf:
  assumes "m \<le> 2 ^ 53" "- 1074 \<le> e" "m = 0 \<or> 2 ^ 52 \<le> m \<or> e = - 1074"
  shows "f64_wf (f64_pack s m e)"
  using assms by (auto simp: f64_pack_def)

lemma f64_round_wf: "0 < q \<Longrightarrow> f64_wf (f64_round s p q)"
proof (cases "p = 0")
  case False
  assume "0 < q"
  with False show ?thesis
    using f64_mantissa_normal(1) [of p q] f64_exponent_ge [of p q]
    by (subst f64_round_mantissa) (auto intro!: f64_pack_wf f64_mantissa_le)
qed (simp add: f64_round_def)

lemma f64_pack_val:
  "isfinite (f64_pack s m e) \<Longrightarrow> f64_val (f64_pack s m e) = sgnf s * real m * pow2 e"
  by (auto simp: f64_pack_def pow2_simps split: if_splits)

lemma f64_round_val:
  assumes "0 < p" "isfinite (f64_round s p q)"
  shows "f64_val (f64_round s p q) = sgnf s * real (f64_mantissa p q) * pow2 (f64_exponent p q)"
  using assms by (simp add: f64_round_mantissa f64_pack_val)

lemma f64_round_zero [simp]: "f64_round s 0 q = F_Fin s 0 0"
  by (simp add: f64_round_def)

lemma isfinite_round_sign: "isfinite (f64_round s p q) = isfinite (f64_round False p q)"
  by (cases "p = 0") (simp_all add: f64_round_mantissa f64_pack_def)

lemma f64_round_magnitude:
  assumes "isfinite (f64_round s p q)"
  shows "f64_val (f64_round s p q) = sgnf s * f64_val (f64_round False p q)"
proof (cases "p = 0")
  case False
  with assms isfinite_round_sign [of s p q] show ?thesis
    by (simp add: f64_round_val)
qed simp

lemma f64_round_nonneg: "0 \<le> f64_val (f64_round False p q)"
  by (cases "p = 0") (auto simp: f64_round_mantissa f64_pack_def)

text \<open>The error is at most half a unit in the last place.\<close>

lemma f64_round_error:
  assumes "0 < q" "isfinite (f64_round False p q)"
  shows "\<bar>f64_val (f64_round False p q) - real p / real q\<bar> \<le> pow2 (f64_exponent p q) / 2"
proof (cases "p = 0")
  case False
  define e where "e = f64_exponent p q"
  have "\<bar>real (f64_mantissa p q) * pow2 e - real p / real q\<bar>
      = \<bar>real (f64_mantissa p q) - real p / real q / pow2 e\<bar> * pow2 e"
    by (simp add: abs_mult_pos' field_simps flip: abs_mult_pos)
  also have "\<dots> \<le> 1 / 2 * pow2 e"
    using f64_mantissa_error [OF assms(1), of p] by (intro mult_right_mono) (simp_all add: e_def)
  finally show ?thesis
    using False assms(2) by (simp add: f64_round_val e_def)
qed simp

text \<open>For a quotient in the normal range, the relative error is at most \<open>2 ^ -53\<close>.\<close>

lemma f64_round_relative:
  assumes "0 < q" "isfinite (f64_round False p q)" "pow2 (- 1022) \<le> real p / real q"
  shows "\<bar>f64_val (f64_round False p q) - real p / real q\<bar> \<le> pow2 (- 53) * (real p / real q)"
proof -
  have p: "0 < p"
    using assms(3) pow2_pos [of "- 1022"] by (cases "p = 0") (auto simp del: pow2_pos)
  have "pow2 (f64_exponent p q + 52) \<le> real p / real q"
  proof (cases "- 1074 < f64_exponent p q")
    case True
    with p assms show ?thesis by (rule_tac f64_mantissa_normal(2))
  next
    case False
    then have "f64_exponent p q = - 1074"
      using f64_exponent_ge [of p q] by linarith
    with assms(3) show ?thesis by simp
  qed
  then have "pow2 (- 53) * pow2 (f64_exponent p q + 52) \<le> pow2 (- 53) * (real p / real q)"
    by (intro mult_left_mono) auto
  moreover have "pow2 (- 53) * pow2 (f64_exponent p q + 52) = pow2 (f64_exponent p q) / 2"
    by (simp add: pow2_simps power_int_minus divide_simps)
  ultimately show ?thesis
    using f64_round_error [OF assms(1,2)] by linarith
qed

text \<open>No well-formed finite double is closer to the exact quotient.\<close>

lemma f64_multiple_nearest:
  fixes k :: int
  assumes "0 < p" "0 < q" "isfinite (f64_round False p q)"
  shows "\<bar>f64_val (f64_round False p q) - real p / real q\<bar>
       \<le> \<bar>of_int k * pow2 (f64_exponent p q) - real p / real q\<bar>"
proof -
  define e x where "e = f64_exponent p q" and "x = real p / real q"
  have scale: "\<bar>a * pow2 e - x\<bar> = \<bar>a - x / pow2 e\<bar> * pow2 e" for a
    by (simp add: field_simps flip: abs_mult_pos)
  have "\<bar>of_int (int (f64_mantissa p q)) - x / pow2 e\<bar> \<le> \<bar>of_int k - x / pow2 e\<bar>"
    using f64_mantissa_error [OF assms(2), of p] by (intro half_error_nearest) (simp add: e_def x_def)
  then have "\<bar>real (f64_mantissa p q) * pow2 e - x\<bar> \<le> \<bar>of_int k * pow2 e - x\<bar>"
    by (simp add: scale mult_right_mono)
  then show ?thesis
    using assms by (simp add: f64_round_val e_def x_def)
qed

lemma f64_wf_val_less: "f64_wf (F_Fin s m e) \<Longrightarrow> \<bar>f64_val (F_Fin s m e)\<bar> < pow2 (e + 53)"
proof -
  assume "f64_wf (F_Fin s m e)"
  then have "real m < 2 ^ 53"
    by (cases "m = 0") simp_all
  then have "real m * pow2 e < 2 ^ 53 * pow2 e"
    by (rule mult_strict_right_mono) simp
  then show ?thesis
    by (simp add: abs_mult pow2_simps mult.commute)
qed

lemma f64_round_nearest_pos:
  assumes "0 < q" "isfinite (f64_round False p q)" "f64_wf y" "isfinite y"
  shows "\<bar>f64_val (f64_round False p q) - real p / real q\<bar> \<le> \<bar>f64_val y - real p / real q\<bar>"
proof (cases "p = 0")
  case False
  then have p: "0 < p" by simp
  define e where "e = f64_exponent p q"
  obtain s m f where y: "y = F_Fin s m f"
    using assms(4) by (cases y) auto
  note mult = f64_multiple_nearest [OF p assms(1,2), folded e_def]
  show ?thesis
  proof (cases "e \<le> f \<or> m = 0")
    case True
    then have "f64_val y = of_int ((if s then - 1 else 1) * int m * 2 ^ nat (f - e)) * pow2 e"
      by (auto simp: y pow2_nat pow2_simps)
    then show ?thesis using mult by metis
  next
    case False
    then have "- 1074 < e" and ef: "f + 53 \<le> e + 52"
      using assms(3) by (auto simp: y)
    then have x: "pow2 (e + 52) \<le> real p / real q"
      using p assms(1) f64_mantissa_normal(2) by (simp add: e_def)
    have "\<bar>f64_val y\<bar> < pow2 (e + 52)"
      using f64_wf_val_less [of s m f] assms(3) ef
      by (auto simp: y simp del: f64_wf.simps f64_val.simps intro: less_le_trans)
    with x have "\<bar>of_int (2 ^ 52) * pow2 e - real p / real q\<bar> \<le> \<bar>f64_val y - real p / real q\<bar>"
      by (simp add: pow2_simps)
    with mult [of "2 ^ 52"] show ?thesis by linarith
  qed
qed simp

fun f64_neg :: "f64 \<Rightarrow> f64" where
  "f64_neg F_NaN = F_NaN"
| "f64_neg (F_Inf s) = F_Inf (\<not> s)"
| "f64_neg (F_Fin s m e) = F_Fin (\<not> s) m e"

lemma f64_neg_simps [simp]:
  "f64_wf (f64_neg y) = f64_wf y" "isfinite (f64_neg y) = isfinite y"
  "f64_val (f64_neg y) = - f64_val y"
  by (cases y; simp)+

theorem f64_round_nearest:
  assumes "0 < q" "isfinite (f64_round s p q)" "f64_wf y" "isfinite y"
  shows "\<bar>f64_val (f64_round s p q) - sgnf s * (real p / real q)\<bar>
       \<le> \<bar>f64_val y - sgnf s * (real p / real q)\<bar>"
proof -
  have fin: "isfinite (f64_round False p q)"
    using assms(2) isfinite_round_sign by blast
  show ?thesis
    using f64_round_nearest_pos [OF assms(1) fin, of y] f64_round_nearest_pos [OF assms(1) fin, of "f64_neg y"]
      assms f64_round_magnitude [OF assms(2)]
    by (cases s) (simp_all add: abs_minus_commute)
qed

text \<open>Consequences: rounding respects every representable bound, and is exact where it can be.\<close>

lemma f64_round_finite:
  assumes "0 < q" "f64_wf y" "isfinite y" "real p / real q \<le> \<bar>f64_val y\<bar>"
  shows "isfinite (f64_round s p q)"
proof (rule ccontr)
  assume inf: "\<not> isfinite (f64_round s p q)"
  then have p: "0 < p" by (cases "p = 0") auto
  define e where "e = f64_exponent p q"
  have e: "971 < e \<or> (e = 971 \<and> f64_mantissa p q = 2 ^ 53)"
    using inf p f64_mantissa_le [OF p assms(1)]
    by (auto simp: f64_round_mantissa f64_pack_def e_def split: if_splits)
  obtain t m f where y: "y = F_Fin t m f"
    using assms(3) by (cases y) auto
  have m: "real m \<le> 2 ^ 53 - 1" and f: "f \<le> 971"
    using assms(2) by (auto simp: y split: if_splits)
  have "\<bar>f64_val y\<bar> \<le> (2 ^ 53 - 1) * pow2 971"
    using mult_mono [OF m pow2_mono [OF f]] by (simp only: y f64_val.simps abs_mult) simp
  with assms(4) have x: "real p / real q \<le> (2 ^ 53 - 1) * pow2 971" by linarith
  from e show False
  proof
    assume big: "971 < e"
    then have "pow2 (e + 52) \<le> real p / real q"
      using f64_mantissa_normal(2) [OF p assms(1)] by (simp add: e_def)
    moreover have "pow2 (972 + 52) \<le> pow2 (e + 52)"
      using big by (intro pow2_mono) simp
    ultimately show False using x by (simp add: pow2_simps)
  next
    assume "e = 971 \<and> f64_mantissa p q = 2 ^ 53"
    then have "\<bar>2 ^ 53 - real p / real q / pow2 971\<bar> \<le> 1 / 2"
      using f64_mantissa_error [OF assms(1), of p] by (simp add: e_def)
    moreover have "real p / real q / pow2 971 \<le> 2 ^ 53 - 1"
      unfolding pow2_divide_le by (rule x)
    ultimately show False by linarith
  qed
qed

lemma f64_round_le_repr:
  assumes "0 < q" "f64_wf y" "isfinite y" "real p / real q \<le> f64_val y"
  shows "f64_val (f64_round False p q) \<le> f64_val y"
proof -
  have fin: "isfinite (f64_round False p q)"
    using assms by (intro f64_round_finite [of q y]) auto
  show ?thesis
    using f64_round_nearest_pos [OF assms(1) fin assms(2,3)] assms(4) by linarith
qed

lemma f64_round_ge_repr:
  assumes "0 < q" "isfinite (f64_round False p q)" "f64_wf y" "isfinite y" "f64_val y \<le> real p / real q"
  shows "f64_val y \<le> f64_val (f64_round False p q)"
  using f64_round_nearest_pos [OF assms(1-4)] assms(5) by linarith

lemma f64_round_exact:
  assumes "0 < q" "f64_wf y" "isfinite y" "real p / real q = f64_val y"
  shows "isfinite (f64_round s p q)" "f64_val (f64_round s p q) = sgnf s * (real p / real q)"
proof -
  show fin: "isfinite (f64_round s p q)"
    using assms by (intro f64_round_finite [of q y]) auto
  then have fin': "isfinite (f64_round False p q)"
    using isfinite_round_sign by blast
  have "f64_val (f64_round False p q) = real p / real q"
    using f64_round_nearest_pos [OF assms(1) fin' assms(2,3)] assms(4) by simp
  then show "f64_val (f64_round s p q) = sgnf s * (real p / real q)"
    using f64_round_magnitude [OF fin] by simp
qed

section \<open>The operations on finite values\<close>

lemma f64_units_val:
  assumes "k \<le> e"
  shows "f64_val (F_Fin s m e) = of_int (f64_units k (F_Fin s m e)) * pow2 k"
  using assms by (simp add: pow2_nat pow2_simps)

lemma f64_less_iff:
  assumes "isfinite x" "isfinite y"
  shows "f64_less x y \<longleftrightarrow> f64_val x < f64_val y"
proof -
  obtain s m e s' m' e' where xy: "x = F_Fin s m e" "y = F_Fin s' m' e'"
    using assms by (cases x; cases y) auto
  show ?thesis
    unfolding xy f64_less.simps f64_units_val [of "min e e'" e, OF min.cobounded1]
      f64_units_val [of "min e e'" e', OF min.cobounded2]
    by (simp del: f64_units.simps)
qed

lemma f64_eq_iff:
  assumes "isfinite x" "isfinite y"
  shows "f64_eq x y \<longleftrightarrow> f64_val x = f64_val y"
proof -
  obtain s m e s' m' e' where xy: "x = F_Fin s m e" "y = F_Fin s' m' e'"
    using assms by (cases x; cases y) auto
  show ?thesis
    unfolding xy f64_eq.simps f64_units_val [of "min e e'" e, OF min.cobounded1]
      f64_units_val [of "min e e'" e', OF min.cobounded2]
    by (simp del: f64_units.simps)
qed

lemma f64_le_iff:
  "\<lbrakk>isfinite x; isfinite y\<rbrakk> \<Longrightarrow> f64_le x y \<longleftrightarrow> f64_val x \<le> f64_val y"
  by (auto simp: f64_le_def f64_less_iff f64_eq_iff)

lemma f64_zero_simps [simp]: "isfinite f64_zero" "f64_wf f64_zero" "f64_val f64_zero = 0"
  by simp_all

lemma f64_abs_simps [simp]:
  "f64_wf (f64_abs x) = f64_wf x" "isfinite (f64_abs x) = isfinite x"
  "f64_val (f64_abs x) = \<bar>f64_val x\<bar>"
  by (cases x; simp add: abs_mult)+

lemma isfinite_E:
  assumes "isfinite x"
  obtains s m e where "x = F_Fin s m e"
  using assms by (cases x) auto

text \<open>A quotient that is an integer multiple of the last place is not changed by rounding.\<close>

lemma f64_round_nat:
  assumes "n < 2 ^ 53"
  shows "isfinite (f64_round s n 1)" "f64_val (f64_round s n 1) = sgnf s * real n"
proof -
  have "isfinite (f64_round s n 1) \<and> f64_val (f64_round s n 1) = sgnf s * real n"
  proof (cases "n = 0")
    case False
    then have n: "0 < n" by simp
    define e where "e = f64_exponent n 1"
    have "pow2 (ilog2_frac n 1) \<le> real n"
      using ilog2_frac_bounds(1) [of n 1] n by simp
    also have "\<dots> < pow2 53"
      using assms by (simp flip: of_nat_less_iff)
    finally have "ilog2_frac n 1 < 53" by (simp only: pow2_less_iff)
    then have e: "e \<le> 0" by (simp add: e_def f64_exponent_def)
    then have "real n / pow2 e = real (n * 2 ^ nat (- e))"
      by (simp add: pow2_nat pow2_uminus)
    then have "f64_mantissa n 1 = n * 2 ^ nat (- e)"
      by (intro antisym f64_mantissa_leI f64_mantissa_geI)
        (simp_all flip: e_def del: One_nat_def)
    moreover have fin: "isfinite (f64_round s n 1)"
      using n e by (simp add: f64_round_mantissa f64_pack_def flip: e_def del: One_nat_def)
    ultimately show ?thesis
      using f64_round_val [OF n fin] e by (simp add: pow2_nat pow2_uminus e_def)
  qed simp
  then show "isfinite (f64_round s n 1)" "f64_val (f64_round s n 1) = sgnf s * real n"
    by blast+
qed

lemma f64_of_int_exact:
  assumes "\<bar>i\<bar> < 2 ^ 53"
  shows "isfinite (f64_of_int i)" "f64_val (f64_of_int i) = of_int i" "f64_wf (f64_of_int i)"
proof -
  have n: "nat \<bar>i\<bar> < 2 ^ 53"
    using assms by (simp add: nat_less_iff)
  show "isfinite (f64_of_int i)" "f64_val (f64_of_int i) = of_int i"
    using f64_round_nat [OF n, of "i < 0"] by (simp_all add: f64_of_int_def)
  show "f64_wf (f64_of_int i)"
    by (simp add: f64_of_int_def f64_round_wf)
qed

lemma f64_mul_rounds:
  assumes "isfinite x" "isfinite y"
  obtains s p q where "f64_mul x y = f64_round s p q" "0 < q"
    "sgnf s * (real p / real q) = f64_val x * f64_val y"
    "real p / real q = \<bar>f64_val x * f64_val y\<bar>"
proof -
  obtain s m e where x: "x = F_Fin s m e" using assms(1) by (rule isfinite_E)
  obtain s' m' e' where y: "y = F_Fin s' m' e'" using assms(2) by (rule isfinite_E)
  have "real (m * m' * 2 ^ nat (e + e')) / real (2 ^ nat (- (e + e'))) = real m * real m' * pow2 (e + e')"
    by (simp only: pow2_split [of "e + e'"]) simp
  then have "real (m * m' * 2 ^ nat (e + e')) / real (2 ^ nat (- (e + e'))) = real m * real m' * pow2 e * pow2 e'"
    by (simp add: pow2_simps)
  then show ?thesis
    by (intro that [of "s \<noteq> s'" "m * m' * 2 ^ nat (e + e')" "2 ^ nat (- (e + e'))"])
      (simp_all add: x y abs_mult)
qed

lemma f64_div_rounds:
  assumes "isfinite x" "isfinite y" "f64_val y \<noteq> 0"
  obtains s p q where "f64_div x y = f64_round s p q" "0 < q"
    "sgnf s * (real p / real q) = f64_val x / f64_val y"
    "real p / real q = \<bar>f64_val x / f64_val y\<bar>"
proof -
  obtain s m e where x: "x = F_Fin s m e" using assms(1) by (rule isfinite_E)
  obtain s' m' e' where y: "y = F_Fin s' m' e'" using assms(2) by (rule isfinite_E)
  have m': "0 < m'" using assms(3) by (simp add: y)
  have "real (m * 2 ^ nat (e - e')) / real (m' * 2 ^ nat (e' - e)) = real m / real m' * pow2 (e - e')"
    by (simp only: pow2_split [of "e - e'"]) simp
  then have "real (m * 2 ^ nat (e - e')) / real (m' * 2 ^ nat (e' - e)) = (real m * pow2 e) / (real m' * pow2 e')"
    by (simp add: pow2_simps)
  then show ?thesis using m'
    by (intro that [of "s \<noteq> s'" "m * 2 ^ nat (e - e')" "m' * 2 ^ nat (e' - e)"])
      (simp_all add: x y abs_mult)
qed

section \<open>Truncation towards zero\<close>

definition trunc_real :: "real \<Rightarrow> int" where
  "trunc_real x = (if 0 \<le> x then \<lfloor>x\<rfloor> else \<lceil>x\<rceil>)"

lemma trunc_real_of_int [simp]: "trunc_real (of_int k) = k"
  by (simp add: trunc_real_def)

lemma trunc_real_sgnf: "0 \<le> x \<Longrightarrow> trunc_real (sgnf s * x) = (if s then - 1 else 1) * \<lfloor>x\<rfloor>"
  by (simp add: trunc_real_def ceiling_minus)

lemma trunc_real_mono: "x \<le> y \<Longrightarrow> trunc_real x \<le> trunc_real y"
proof (cases "x < 0 \<and> 0 \<le> y")
  case True
  then have "\<lceil>x\<rceil> \<le> 0" "0 \<le> \<lfloor>y\<rfloor>"
    by (simp_all add: ceiling_le_iff)
  then have "\<lceil>x\<rceil> \<le> \<lfloor>y\<rfloor>" by (rule order_trans)
  with True show ?thesis by (simp add: trunc_real_def)
qed (auto simp: trunc_real_def floor_mono ceiling_mono)

lemma trunc_real_abs_le: "\<bar>of_int (trunc_real x)\<bar> \<le> \<bar>x\<bar>"
  by (auto simp: trunc_real_def)

lemma trunc_real_error: "\<bar>of_int (trunc_real x) - x\<bar> < 1"
  unfolding trunc_real_def by (simp split: if_split) linarith

lemma f64_to_int_trunc:
  assumes "isfinite x"
  shows "f64_to_int x = trunc_real (f64_val x)"
proof -
  obtain s m e where x: "x = F_Fin s m e" using assms by (rule isfinite_E)
  have "real m * pow2 e = real (m * 2 ^ nat e) / real (2 ^ nat (- e))"
    by (simp only: pow2_split [of e]) simp
  then have "\<lfloor>real m * pow2 e\<rfloor> = int (m * 2 ^ nat e div 2 ^ nat (- e))"
    by (simp only: floor_divide_of_nat_eq)
  then show ?thesis
    using trunc_real_sgnf [of "real m * pow2 e" s] by (simp add: x mult.assoc)
qed

lemma f64_trunc_simps:
  assumes "isfinite x" "f64_wf x"
  shows "isfinite (f64_trunc x)" "f64_val (f64_trunc x) = of_int (trunc_real (f64_val x))"
proof -
  obtain s m e where x: "x = F_Fin s m e" using assms(1) by (rule isfinite_E)
  have t: "trunc_real (f64_val x) = (if s then - 1 else 1) * int (m * 2 ^ nat e div 2 ^ nat (- e))"
    using f64_to_int_trunc [OF assms(1)] by (simp add: x)
  have "isfinite (f64_trunc x) \<and> f64_val (f64_trunc x) = of_int (trunc_real (f64_val x))"
  proof (cases "0 \<le> e")
    case True
    then show ?thesis unfolding t by (simp add: x pow2_nat)
  next
    case False
    have "m < 2 ^ 53" using assms(2) by (auto simp: x split: if_splits)
    then have "m div 2 ^ nat (- e) < 2 ^ 53"
      using div_le_dividend le_less_trans by blast
    then show ?thesis
      using f64_round_nat [of "m div 2 ^ nat (- e)" s] False unfolding t by (simp add: x)
  qed
  then show "isfinite (f64_trunc x)" "f64_val (f64_trunc x) = of_int (trunc_real (f64_val x))"
    by blast+
qed

end
