(* ===== verification/Protocol.thy ===== *)
theory Protocol
  imports Float64
begin

text \<open>
  The wire protocol: \<open>src/protocol.cpp\<close> and \<open>protocol.hpp\<close>.  A command frame
  is a list of 11 bytes, a feedback frame a list of 24 bytes.  A pointer
  argument that may be null is an \<open>option\<close>; \<open>std::int16_t\<close> wire values are
  16-bit words read with \<^const>\<open>sint\<close>.
\<close>

section \<open>Frames, commands and results\<close>

definition kFrameHeader :: u8 where "kFrameHeader = 0x7B"
definition kFrameTail :: u8 where "kFrameTail = 0x7D"
definition kCommandFrameSize :: nat where "kCommandFrameSize = 11"
definition kFeedbackFrameSize :: nat where "kFeedbackFrameSize = 24"

record motion_command =
  linear_speed_mps :: f64
  lateral_speed_mps :: f64
  yaw_rate_radps :: f64

definition zeroMotionCommand :: motion_command where
  "zeroMotionCommand =
     \<lparr>linear_speed_mps = f64_zero, lateral_speed_mps = f64_zero, yaw_rate_radps = f64_zero\<rparr>"

datatype encode_error =
    Enc_kNone
  | Enc_kInvalidMaxLinearSpeed
  | Enc_kNonFiniteLinearSpeed
  | Enc_kNonFiniteLateralSpeed
  | Enc_kNonFiniteYawRate
  | Enc_kLinearWireRange
  | Enc_kLateralWireRange
  | Enc_kYawRateWireRange
  | Enc_kLinearSpeedLimitExceeded

record encode_result =
  enc_frame :: "u8 list"
  enc_error :: encode_error

definition enc_ok :: "encode_result \<Rightarrow> bool" where
  "enc_ok r \<longleftrightarrow> enc_error r = Enc_kNone"

record feedback_data =
  composite_stop_flag_raw :: u8
  control_allowed :: bool
  control_inhibited :: bool
  fb_linear_speed_mps :: f64
  fb_lateral_speed_mps :: f64
  fb_yaw_rate_radps :: f64
  linear_acceleration_mps2 :: "f64 list"
  angular_velocity_radps :: "f64 list"
  supply_voltage_v :: f64
  vcu_ack_available :: bool
  source_time_available :: bool

text \<open>A default-constructed record is inhibited.\<close>

definition defaultFeedbackData :: feedback_data where
  "defaultFeedbackData =
     \<lparr>composite_stop_flag_raw = 1, control_allowed = False, control_inhibited = True,
      fb_linear_speed_mps = f64_zero, fb_lateral_speed_mps = f64_zero,
      fb_yaw_rate_radps = f64_zero,
      linear_acceleration_mps2 = replicate 3 f64_zero,
      angular_velocity_radps = replicate 3 f64_zero,
      supply_voltage_v = f64_zero, vcu_ack_available = False,
      source_time_available = False\<rparr>"

datatype feedback_decode_error =
    Dec_kNone
  | Dec_kInvalidFrameSize
  | Dec_kInvalidHeader
  | Dec_kInvalidTail
  | Dec_kChecksumMismatch
  | Dec_kInvalidCompositeStopFlag

record feedback_decode_result =
  dec_feedback :: feedback_data
  dec_error :: feedback_decode_error

definition dec_ok :: "feedback_decode_result \<Rightarrow> bool" where
  "dec_ok r \<longleftrightarrow> dec_error r = Dec_kNone"

section \<open>Helpers\<close>

definition kMotionUnitsPerWireUnit :: f64 where
  "kMotionUnitsPerWireUnit = f64_decimal 1000 0"

definition kAccelerometerDivisor :: f64 where
  "kAccelerometerDivisor = f64_decimal 167184 2"

definition kGyroscopeMultiplier :: f64 where
  "kGyroscopeMultiplier = f64_decimal 26644 8"

definition xorRange :: "u8 list \<Rightarrow> nat \<Rightarrow> u8" where
  "xorRange data n = foldl (\<lambda>v b. v XOR b) 0 (take n data)"

definition quantizeWireValue :: "f64 \<Rightarrow> u16 option" where
  "quantizeWireValue value =
     (let scaled = f64_trunc (f64_mul value kMotionUnitsPerWireUnit)
      in if \<not> isfinite scaled \<or> f64_less scaled (f64_of_int (- 32768))
            \<or> f64_less (f64_of_int 32767) scaled
         then None
         else Some (word_of_int (f64_to_int scaled)))"

definition storeSignedBigEndian :: "u16 \<Rightarrow> u8 list \<Rightarrow> nat \<Rightarrow> u8 list" where
  "storeSignedBigEndian value frame offset =
     frame[offset := ucast (drop_bit 8 value), offset + 1 := ucast (value AND 0xFF)]"

definition loadSignedBigEndian :: "u8 list \<Rightarrow> nat \<Rightarrow> u16" where
  "loadSignedBigEndian source offset =
     (let bits = push_bit 8 (ucast (source ! offset)) OR ucast (source ! (offset + 1)) :: u16;
          widened = uint bits
      in word_of_int (if bits AND 0x8000 \<noteq> 0 then widened - 0x10000 else widened))"

definition loadUnsignedBigEndian :: "u8 list \<Rightarrow> nat \<Rightarrow> u16" where
  "loadUnsignedBigEndian source offset =
     push_bit 8 (ucast (source ! offset)) OR ucast (source ! (offset + 1))"

definition encodeFailure :: "encode_error \<Rightarrow> encode_result" where
  "encodeFailure e = \<lparr>enc_frame = replicate kCommandFrameSize 0, enc_error = e\<rparr>"

section \<open>Encoding\<close>

definition isValidMaxLinearSpeed :: "f64 \<Rightarrow> bool" where
  "isValidMaxLinearSpeed value \<longleftrightarrow>
     isfinite value \<and> f64_less f64_zero value \<and> f64_less value (f64_of_int 6)"

definition buildCommandFrame :: "u16 \<Rightarrow> u16 \<Rightarrow> u16 \<Rightarrow> u8 list" where
  "buildCommandFrame linear_wire lateral_wire yaw_wire =
     (let frame = replicate kCommandFrameSize 0;
          frame = frame[0 := kFrameHeader];
          frame = frame[1 := 0];
          frame = frame[2 := 0];
          frame = storeSignedBigEndian linear_wire frame 3;
          frame = storeSignedBigEndian lateral_wire frame 5;
          frame = storeSignedBigEndian yaw_wire frame 7;
          frame = frame[9 := xorRange frame 9]
      in frame[10 := kFrameTail])"

definition encodeCommand :: "motion_command \<Rightarrow> f64 \<Rightarrow> encode_result" where
  "encodeCommand command explicit_max_linear_speed_mps =
     (if \<not> isValidMaxLinearSpeed explicit_max_linear_speed_mps
      then encodeFailure Enc_kInvalidMaxLinearSpeed
      else if \<not> isfinite (linear_speed_mps command)
      then encodeFailure Enc_kNonFiniteLinearSpeed
      else if \<not> isfinite (lateral_speed_mps command)
      then encodeFailure Enc_kNonFiniteLateralSpeed
      else if \<not> isfinite (yaw_rate_radps command)
      then encodeFailure Enc_kNonFiniteYawRate
      else case quantizeWireValue (linear_speed_mps command) of
        None \<Rightarrow> encodeFailure Enc_kLinearWireRange
      | Some linear_wire \<Rightarrow>
       (case quantizeWireValue (lateral_speed_mps command) of
          None \<Rightarrow> encodeFailure Enc_kLateralWireRange
        | Some lateral_wire \<Rightarrow>
         (case quantizeWireValue (yaw_rate_radps command) of
            None \<Rightarrow> encodeFailure Enc_kYawRateWireRange
          | Some yaw_wire \<Rightarrow>
              if f64_less explicit_max_linear_speed_mps (f64_abs (linear_speed_mps command))
              then encodeFailure Enc_kLinearSpeedLimitExceeded
              else \<lparr>enc_frame = buildCommandFrame linear_wire lateral_wire yaw_wire,
                    enc_error = Enc_kNone\<rparr>)))"

definition makeZeroCommandFrame :: "u8 list" where
  "makeZeroCommandFrame =
     (replicate kCommandFrameSize 0)[0 := kFrameHeader, 9 := kFrameHeader, 10 := kFrameTail]"

section \<open>Decoding\<close>

definition decodeFailure :: "feedback_decode_error \<Rightarrow> feedback_decode_result" where
  "decodeFailure e = \<lparr>dec_feedback = defaultFeedbackData, dec_error = e\<rparr>"

definition motionField :: "u8 list \<Rightarrow> nat \<Rightarrow> f64" where
  "motionField data offset =
     f64_div (f64_of_int (sint (loadSignedBigEndian data offset))) kMotionUnitsPerWireUnit"

definition decodeFields :: "u8 list \<Rightarrow> feedback_data" where
  "decodeFields data =
     \<lparr>composite_stop_flag_raw = data ! 1,
      control_allowed = (data ! 1 = 0),
      control_inhibited = (data ! 1 = 1),
      fb_linear_speed_mps = motionField data 2,
      fb_lateral_speed_mps = motionField data 4,
      fb_yaw_rate_radps = motionField data 6,
      linear_acceleration_mps2 =
        map (\<lambda>axis. f64_div (f64_of_int (sint (loadSignedBigEndian data (8 + axis * 2))))
                            kAccelerometerDivisor) [0..<3],
      angular_velocity_radps =
        map (\<lambda>axis. f64_mul (f64_of_int (sint (loadSignedBigEndian data (14 + axis * 2))))
                            kGyroscopeMultiplier) [0..<3],
      supply_voltage_v =
        f64_div (f64_of_int (uint (loadUnsignedBigEndian data 20))) kMotionUnitsPerWireUnit,
      vcu_ack_available = False,
      source_time_available = False\<rparr>"

definition decodeFeedbackFrame :: "u8 list option \<Rightarrow> feedback_decode_result" where
  "decodeFeedbackFrame pointer =
     (case pointer of
        None \<Rightarrow> decodeFailure Dec_kInvalidFrameSize
      | Some data \<Rightarrow>
          if length data \<noteq> kFeedbackFrameSize then decodeFailure Dec_kInvalidFrameSize
          else if data ! 0 \<noteq> kFrameHeader then decodeFailure Dec_kInvalidHeader
          else if data ! 23 \<noteq> kFrameTail then decodeFailure Dec_kInvalidTail
          else if xorRange data 22 \<noteq> data ! 22 then decodeFailure Dec_kChecksumMismatch
          else if 1 < data ! 1 then decodeFailure Dec_kInvalidCompositeStopFlag
          else \<lparr>dec_feedback = decodeFields data, dec_error = Dec_kNone\<rparr>)"

section \<open>Bytes\<close>

lemmas frame_consts = kFrameHeader_def kFrameTail_def kCommandFrameSize_def kFeedbackFrameSize_def

lemma and_255: "(v :: u16) AND 255 = take_bit 8 v"
proof -
  have "(255 :: u16) = mask 8"
    by (simp add: mask_eq_exp_minus_1)
  then show ?thesis by (simp only: take_bit_eq_mask)
qed

lemma join_split_bytes:
  "push_bit 8 (ucast (ucast (drop_bit 8 v) :: u8)) OR ucast (ucast (v AND 0xFF) :: u8) = (v :: u16)"
  unfolding and_255 by (rule bit_word_eqI) (auto simp: bit_simps)

lemma loadSigned_bits:
  "loadSignedBigEndian source offset = loadUnsignedBigEndian source offset"
proof -
  have "word_of_int (uint b - 0x10000) = b" for b :: u16
    by (simp add: word_of_int_uint)
  then show ?thesis
    by (simp add: loadSignedBigEndian_def loadUnsignedBigEndian_def Let_def)
qed

lemma length_store [simp]: "length (storeSignedBigEndian v frame n) = length frame"
  by (simp add: storeSignedBigEndian_def)

text \<open>Storing a wire value and loading it back is the identity, whatever the frame.\<close>

lemma load_store:
  "n + 1 < length frame \<Longrightarrow> loadSignedBigEndian (storeSignedBigEndian v frame n) n = v"
  by (simp add: loadSigned_bits loadUnsignedBigEndian_def storeSignedBigEndian_def join_split_bytes)

lemma buildCommandFrame_eq:
  "buildCommandFrame l t y =
     (let body = [kFrameHeader, 0, 0, ucast (drop_bit 8 l), ucast (l AND 0xFF),
                  ucast (drop_bit 8 t), ucast (t AND 0xFF),
                  ucast (drop_bit 8 y), ucast (y AND 0xFF)]
      in body @ [foldl (\<lambda>v b. v XOR b) 0 body, kFrameTail])"
  by (simp add: buildCommandFrame_def storeSignedBigEndian_def xorRange_def
      kCommandFrameSize_def numeral_eq_Suc Let_def)

lemma length_buildCommandFrame [simp]: "length (buildCommandFrame l t y) = kCommandFrameSize"
  by (simp add: buildCommandFrame_eq kCommandFrameSize_def)

lemma load_buildCommandFrame:
  "loadSignedBigEndian (buildCommandFrame l t y) 3 = l"
  "loadSignedBigEndian (buildCommandFrame l t y) 5 = t"
  "loadSignedBigEndian (buildCommandFrame l t y) 7 = y"
proof -
  have "loadUnsignedBigEndian (buildCommandFrame l t y) 3 =
      push_bit 8 (ucast (ucast (drop_bit 8 l) :: u8)) OR ucast (ucast (l AND 0xFF) :: u8)"
    "loadUnsignedBigEndian (buildCommandFrame l t y) 5 =
      push_bit 8 (ucast (ucast (drop_bit 8 t) :: u8)) OR ucast (ucast (t AND 0xFF) :: u8)"
    "loadUnsignedBigEndian (buildCommandFrame l t y) 7 =
      push_bit 8 (ucast (ucast (drop_bit 8 y) :: u8)) OR ucast (ucast (y AND 0xFF) :: u8)"
    by (simp_all add: buildCommandFrame_eq loadUnsignedBigEndian_def Let_def)
  then show "loadSignedBigEndian (buildCommandFrame l t y) 3 = l"
    "loadSignedBigEndian (buildCommandFrame l t y) 5 = t"
    "loadSignedBigEndian (buildCommandFrame l t y) 7 = y"
    by (simp_all only: loadSigned_bits join_split_bytes)
qed

section \<open>The XOR checksum\<close>

lemma foldl_xor_acc: "foldl (\<lambda>v b. v XOR b) a xs = a XOR foldl (\<lambda>v b. v XOR b) 0 xs"
  for a :: "'a::len word"
  using foldl_xor_start [of a 0 xs] by simp

lemma xor_foldl_update:
  "i < length xs \<Longrightarrow>
   foldl (\<lambda>v b. v XOR b) 0 (xs[i := b]) = foldl (\<lambda>v b. v XOR b) 0 xs XOR (xs ! i) XOR b"
  for b :: "'a::len word"
proof (induction xs arbitrary: i)
  case (Cons x xs)
  show ?case
  proof (cases i)
    case 0
    then show ?thesis
      by (simp add: foldl_xor_acc [of x] foldl_xor_acc [of b] ac_simps)
  next
    case (Suc j)
    with Cons show ?thesis
      by (simp add: foldl_xor_acc [of x] ac_simps)
  qed
qed simp

lemma xorRange_update:
  "\<lbrakk>i < n; n \<le> length data\<rbrakk> \<Longrightarrow> xorRange (data[i := b]) n = xorRange data n XOR (data ! i) XOR b"
  by (simp add: xorRange_def take_update_swap xor_foldl_update)

lemma xorRange_update_beyond: "n \<le> i \<Longrightarrow> xorRange (data[i := b]) n = xorRange data n"
  by (simp add: xorRange_def)

lemma xor_cancel_iff: "a XOR b = a \<longleftrightarrow> b = 0" for a b :: "'a::len word"
  by (metis xor.comm_neutral xor.left_neutral xor.assoc xor_self_eq)

text \<open>Over a whole command frame without its tail the XOR is zero.\<close>

lemma buildCommandFrame_checksum: "xorRange (buildCommandFrame l t y) 10 = 0"
proof -
  define body where "body = [kFrameHeader, 0, 0, ucast (drop_bit 8 l), ucast (l AND 0xFF) :: u8,
      ucast (drop_bit 8 t), ucast (t AND 0xFF), ucast (drop_bit 8 y), ucast (y AND 0xFF)]"
  have frame: "buildCommandFrame l t y = body @ [foldl (\<lambda>v b. v XOR b) 0 body, kFrameTail]"
    by (simp add: buildCommandFrame_eq body_def Let_def)
  have "length body = 9"
    by (simp add: body_def)
  then show ?thesis
    by (simp add: frame xorRange_def)
qed

section \<open>Decoding\<close>

lemma dec_ok_decodeFailure [simp]: "dec_ok (decodeFailure e) \<longleftrightarrow> e = Dec_kNone"
  by (simp add: dec_ok_def decodeFailure_def)

lemma decode_ok_iff:
  "dec_ok (decodeFeedbackFrame pointer) \<longleftrightarrow>
     (\<exists>data. pointer = Some data \<and> length data = kFeedbackFrameSize \<and> data ! 0 = kFrameHeader
        \<and> data ! 23 = kFrameTail \<and> xorRange data 22 = data ! 22 \<and> data ! 1 \<le> 1)"
  by (auto simp: decodeFeedbackFrame_def dec_ok_def decodeFailure_def not_less split: option.splits)

lemma decode_ok_fields:
  "dec_ok (decodeFeedbackFrame (Some data)) \<Longrightarrow>
     dec_feedback (decodeFeedbackFrame (Some data)) = decodeFields data"
  by (auto simp: decodeFeedbackFrame_def dec_ok_def decodeFailure_def split: if_splits)

lemma decode_failed_inhibited:
  "\<not> dec_ok (decodeFeedbackFrame pointer) \<Longrightarrow>
     dec_feedback (decodeFeedbackFrame pointer) = defaultFeedbackData"
  by (auto simp: decodeFeedbackFrame_def dec_ok_def decodeFailure_def split: option.splits)

lemma word_le_1_cases: "(w :: u8) \<le> 1 \<longleftrightarrow> w = 0 \<or> w = 1"
  by (metis le_less less_one word_gt_0 word_le_nat_alt word_less_nat_alt unat_1 unat_0 unat_eq_zero)

text \<open>An XOR checksum with the checked header and tail detects every corrupted byte.\<close>

lemma decode_ok_corrupted:
  assumes "dec_ok (decodeFeedbackFrame (Some frame))" "i < 24" "b \<noteq> frame ! i"
  shows "\<not> dec_ok (decodeFeedbackFrame (Some (frame[i := b])))"
proof
  assume bad: "dec_ok (decodeFeedbackFrame (Some (frame[i := b])))"
  have len: "length frame = 24"
    using assms(1) by (auto simp: decode_ok_iff kFeedbackFrameSize_def)
  have i: "i \<noteq> 0" "i \<noteq> 23"
    using assms bad by (auto simp: decode_ok_iff kFeedbackFrameSize_def nth_list_update
        split: if_splits)
  have x: "xorRange frame 22 = frame ! 22" "xorRange (frame[i := b]) 22 = frame[i := b] ! 22"
    using assms(1) bad by (auto simp: decode_ok_iff)
  show False
  proof (cases "i = 22")
    case True
    with x len assms(3) show False
      by (simp add: xorRange_update_beyond)
  next
    case False
    with i assms(2) have "i < 22" by linarith
    with x len have "xorRange frame 22 XOR (frame ! i) XOR b = xorRange frame 22"
      by (simp add: xorRange_update)
    then have "(frame ! i) XOR b = 0"
      by (simp add: xor.assoc xor_cancel_iff)
    then show False
      using assms(3) by (metis xor.assoc xor.comm_neutral xor_self_eq)
  qed
qed

section \<open>Quantisation\<close>

lemma kMotionUnits_simps:
  "isfinite kMotionUnitsPerWireUnit" "f64_val kMotionUnitsPerWireUnit = 1000"
  by (simp_all add: kMotionUnitsPerWireUnit_def f64_eval power_int_minus)

lemma int16_literals:
  "isfinite (f64_of_int (- 32768))" "f64_val (f64_of_int (- 32768)) = - 32768"
  "isfinite (f64_of_int 32767)" "f64_val (f64_of_int 32767) = 32767"
  using f64_of_int_exact [of "- 32768"] f64_of_int_exact [of 32767] by simp_all

text \<open>The exact product and what rounding makes of it.\<close>

lemma scaled_wf: "isfinite v \<Longrightarrow> f64_wf (f64_mul v kMotionUnitsPerWireUnit)"
  using f64_mul_rounds [OF _ kMotionUnits_simps(1), of v] f64_round_wf by metis

lemma sint_word_of_int16:
  "\<lbrakk>- 32768 \<le> i; i \<le> 32767\<rbrakk> \<Longrightarrow> sint (word_of_int i :: u16) = i"
  by (simp add: sint_sbintrunc' signed_take_bit_int_eq_self)

lemma f64_trunc_not_finite: "\<not> isfinite x \<Longrightarrow> \<not> isfinite (f64_trunc x)"
  by (cases x) simp_all

lemma f64_to_int_trunc_val:
  assumes "isfinite x" "f64_wf x"
  shows "f64_to_int (f64_trunc x) = trunc_real (f64_val x)"
  using f64_to_int_trunc [OF f64_trunc_simps(1) [OF assms]] f64_trunc_simps(2) [OF assms] by simp

text \<open>What \<open>quantizeWireValue\<close> computes: the rounded product, truncated, if it fits.\<close>

lemma quantize_iff:
  fixes v :: f64
  defines "scaled \<equiv> f64_mul v kMotionUnitsPerWireUnit"
  assumes "isfinite v"
  shows "quantizeWireValue v = Some w \<longleftrightarrow>
     isfinite scaled \<and> - 32768 \<le> trunc_real (f64_val scaled) \<and> trunc_real (f64_val scaled) \<le> 32767
     \<and> w = word_of_int (trunc_real (f64_val scaled))"
proof (cases "isfinite scaled")
  case True
  have wf: "f64_wf scaled"
    using scaled_wf [OF assms(2)] by (simp add: scaled_def)
  note t = f64_trunc_simps [OF True wf]
  show ?thesis
    using True by (auto simp: quantizeWireValue_def Let_def f64_less_iff t int16_literals
        f64_to_int_trunc_val [OF True wf] simp flip: scaled_def)
next
  case False
  then show ?thesis
    by (simp add: quantizeWireValue_def Let_def f64_trunc_not_finite flip: scaled_def)
qed

lemma quantize_Some:
  assumes "isfinite v" "quantizeWireValue v = Some w"
  shows "isfinite (f64_mul v kMotionUnitsPerWireUnit)"
    and "sint w = trunc_real (f64_val (f64_mul v kMotionUnitsPerWireUnit))"
  using assms by (simp_all add: quantize_iff sint_word_of_int16)

section \<open>The encoder\<close>

lemma isValidMax_iff:
  "isValidMaxLinearSpeed v \<longleftrightarrow> isfinite v \<and> 0 < f64_val v \<and> f64_val v < 6"
  using f64_of_int_exact [of 6]
  by (auto simp: isValidMaxLinearSpeed_def f64_less_iff)

lemma enc_ok_encodeFailure [simp]: "enc_ok (encodeFailure e) \<longleftrightarrow> e = Enc_kNone"
  by (simp add: enc_ok_def encodeFailure_def)

lemma encode_ok_E:
  assumes "enc_ok (encodeCommand c limit)"
  obtains l t y where
    "isValidMaxLinearSpeed limit"
    "isfinite (linear_speed_mps c)" "isfinite (lateral_speed_mps c)" "isfinite (yaw_rate_radps c)"
    "quantizeWireValue (linear_speed_mps c) = Some l"
    "quantizeWireValue (lateral_speed_mps c) = Some t"
    "quantizeWireValue (yaw_rate_radps c) = Some y"
    "\<bar>f64_val (linear_speed_mps c)\<bar> \<le> f64_val limit"
    "enc_frame (encodeCommand c limit) = buildCommandFrame l t y"
proof -
  have "isfinite limit"
    using assms by (auto simp: encodeCommand_def isValidMax_iff split: if_splits)
  with assms that show thesis
    by (auto simp: encodeCommand_def f64_less_iff not_less split: if_splits option.splits)
qed

lemma encode_ok_iff:
  "enc_ok (encodeCommand c limit) \<longleftrightarrow>
     isValidMaxLinearSpeed limit
     \<and> isfinite (linear_speed_mps c) \<and> isfinite (lateral_speed_mps c) \<and> isfinite (yaw_rate_radps c)
     \<and> quantizeWireValue (linear_speed_mps c) \<noteq> None
     \<and> quantizeWireValue (lateral_speed_mps c) \<noteq> None
     \<and> quantizeWireValue (yaw_rate_radps c) \<noteq> None
     \<and> \<bar>f64_val (linear_speed_mps c)\<bar> \<le> f64_val limit"
proof
  assume "enc_ok (encodeCommand c limit)"
  then show "isValidMaxLinearSpeed limit
     \<and> isfinite (linear_speed_mps c) \<and> isfinite (lateral_speed_mps c) \<and> isfinite (yaw_rate_radps c)
     \<and> quantizeWireValue (linear_speed_mps c) \<noteq> None
     \<and> quantizeWireValue (lateral_speed_mps c) \<noteq> None
     \<and> quantizeWireValue (yaw_rate_radps c) \<noteq> None
     \<and> \<bar>f64_val (linear_speed_mps c)\<bar> \<le> f64_val limit"
    by (rule encode_ok_E) simp
qed (auto simp: encodeCommand_def f64_less_iff isValidMax_iff enc_ok_def)

lemma encode_frame_length: "length (enc_frame (encodeCommand c limit)) = kCommandFrameSize"
  by (simp add: encodeCommand_def encodeFailure_def split: option.split)

text \<open>The rounded product of a bounded speed by 1000 stays within a representable bound.\<close>

lemma product_bounded:
  assumes fin: "isfinite v" "isfinite (f64_mul v kMotionUnitsPerWireUnit)"
    and bound: "\<bar>f64_val v\<bar> * 1000 \<le> of_int n" "\<bar>n\<bar> < 2 ^ 53"
  shows "\<bar>f64_val (f64_mul v kMotionUnitsPerWireUnit)\<bar> \<le> of_int n"
proof -
  obtain s p q where r: "f64_mul v kMotionUnitsPerWireUnit = f64_round s p q" "0 < q"
    "real p / real q = \<bar>f64_val v * f64_val kMotionUnitsPerWireUnit\<bar>"
    using f64_mul_rounds [OF fin(1) kMotionUnits_simps(1)] by metis
  note n = f64_of_int_exact [OF bound(2)]
  have "real p / real q \<le> f64_val (f64_of_int n)"
    using bound(1) by (simp add: r(3) n abs_mult kMotionUnits_simps)
  from f64_round_le_repr [OF r(2) n(3,1) this]
  have "f64_val (f64_round False p q) \<le> of_int n"
    by (simp add: n)
  then show ?thesis
    using f64_round_magnitude [of s p q] f64_round_nonneg [of p q] fin(2)
    by (simp add: r(1) abs_mult)
qed

lemma product_finite:
  assumes "isfinite v" "\<bar>f64_val v\<bar> * 1000 \<le> of_int n" "\<bar>n\<bar> < 2 ^ 53"
  shows "isfinite (f64_mul v kMotionUnitsPerWireUnit)"
proof -
  obtain s p q where r: "f64_mul v kMotionUnitsPerWireUnit = f64_round s p q" "0 < q"
    "real p / real q = \<bar>f64_val v * f64_val kMotionUnitsPerWireUnit\<bar>"
    using f64_mul_rounds [OF assms(1) kMotionUnits_simps(1)] by metis
  note n = f64_of_int_exact [OF assms(3)]
  have "real p / real q \<le> \<bar>f64_val (f64_of_int n)\<bar>"
    using assms(2) by (simp add: r(3) n abs_mult kMotionUnits_simps)
  then show ?thesis
    unfolding r(1) by (intro f64_round_finite [OF r(2) n(3,1)])
qed

lemma wire_bounded:
  assumes "isfinite v" "quantizeWireValue v = Some w" "\<bar>f64_val v\<bar> * 1000 \<le> of_int n" "\<bar>n\<bar> < 2 ^ 53"
  shows "\<bar>sint w\<bar> \<le> n"
proof -
  note q = quantize_Some [OF assms(1,2)]
  have "\<bar>f64_val (f64_mul v kMotionUnitsPerWireUnit)\<bar> \<le> of_int n"
    by (rule product_bounded [OF assms(1) q(1) assms(3,4)])
  with trunc_real_abs_le have "\<bar>of_int (sint w)\<bar> \<le> (of_int n :: real)"
    unfolding q(2) by (rule order_trans)
  then show ?thesis by linarith
qed

text \<open>Relative to the exact product the wire value gains at most one part in \<open>2 ^ 53\<close>.\<close>

lemma product_relative:
  assumes fin: "isfinite v" "isfinite (f64_mul v kMotionUnitsPerWireUnit)"
    and normal: "pow2 (- 1022) \<le> \<bar>f64_val v * 1000\<bar>"
  shows "\<bar>f64_val (f64_mul v kMotionUnitsPerWireUnit) - f64_val v * 1000\<bar>
       \<le> pow2 (- 53) * \<bar>f64_val v * 1000\<bar>"
proof -
  obtain s p q where r: "f64_mul v kMotionUnitsPerWireUnit = f64_round s p q" "0 < q"
    "sgnf s * (real p / real q) = f64_val v * f64_val kMotionUnitsPerWireUnit"
    "real p / real q = \<bar>f64_val v * f64_val kMotionUnitsPerWireUnit\<bar>"
    using f64_mul_rounds [OF fin(1) kMotionUnits_simps(1)] by metis
  have f: "isfinite (f64_round False p q)"
    using fin(2) isfinite_round_sign r(1) by metis
  have "\<bar>f64_val (f64_round False p q) - real p / real q\<bar> \<le> pow2 (- 53) * (real p / real q)"
    using normal by (intro f64_round_relative r(2) f) (simp add: r(4) kMotionUnits_simps)
  moreover have "f64_val (f64_round s p q) = sgnf s * f64_val (f64_round False p q)"
    using fin(2) r(1) by (intro f64_round_magnitude) simp
  moreover have "f64_val v * 1000 = sgnf s * (real p / real q)"
    using r(3) by (simp add: kMotionUnits_simps)
  moreover have "\<bar>f64_val v * 1000\<bar> = real p / real q"
    using r(4) by (simp add: kMotionUnits_simps)
  ultimately show ?thesis
    by (cases s) (simp_all add: r(1) abs_minus_commute)
qed

lemma motion_constants_F:
  "kMotionUnitsPerWireUnit = F_Fin False 8796093022208000 (- 43)"
  by (simp add: kMotionUnitsPerWireUnit_def f64_eval)

lemma quantize_zero: "quantizeWireValue f64_zero = Some 0"
  by (simp add: quantizeWireValue_def motion_constants_F f64_eval)

section \<open>Properties of the encoder\<close>

lemma encodeCommand_wire_limit:
  assumes "enc_ok (encodeCommand c limit)"
  shows "\<bar>sint (loadSignedBigEndian (enc_frame (encodeCommand c limit)) 3)\<bar> \<le> 6000"
proof -
  obtain l t y where ok: "isValidMaxLinearSpeed limit" "isfinite (linear_speed_mps c)"
    "quantizeWireValue (linear_speed_mps c) = Some l"
    "\<bar>f64_val (linear_speed_mps c)\<bar> \<le> f64_val limit"
    "enc_frame (encodeCommand c limit) = buildCommandFrame l t y"
    using assms by (rule encode_ok_E)
  have "\<bar>f64_val (linear_speed_mps c)\<bar> * 1000 \<le> of_int 6000"
    using ok(1,4) by (simp add: isValidMax_iff)
  then show ?thesis
    using wire_bounded [OF ok(2,3)] by (simp add: ok(5) load_buildCommandFrame)
qed

text \<open>
  A wire value that is decoded and quantised again loses at most one unit, and
  never gains: the two roundings move the product by less than one half.
\<close>

lemma decoded_motion_error:
  fixes k :: int
  assumes k: "- 32768 \<le> k" "k \<le> 32767" "k \<noteq> 0"
  defines "x \<equiv> f64_div (f64_of_int k) kMotionUnitsPerWireUnit"
  shows "isfinite x" "\<bar>f64_val x * 1000 - of_int k\<bar> \<le> pow2 (- 53) * \<bar>of_int k\<bar>"
proof -
  have i: "isfinite (f64_of_int k)" "f64_val (f64_of_int k) = of_int k"
    using k by (auto intro: f64_of_int_exact)
  obtain s p q where r: "x = f64_round s p q" "0 < q" "sgnf s * (real p / real q) = of_int k / 1000"
    "real p / real q = \<bar>of_int k / 1000\<bar>"
    unfolding x_def
    by (rule f64_div_rounds [of "f64_of_int k" kMotionUnitsPerWireUnit])
      (simp_all add: i kMotionUnits_simps)
  have big: "1 / 1000 \<le> real p / real q" "real p / real q \<le> 33"
    using k unfolding r(4) by auto
  have "isfinite (f64_round False p q)"
    using big f64_of_int_exact [of 33] r(2) by (intro f64_round_finite [of q "f64_of_int 33"]) simp_all
  note f = this isfinite_round_sign [of s p q, THEN iffD2, OF this]
  show "isfinite x" by (simp add: r(1) f)
  have "pow2 (- 1022) \<le> pow2 (- 10)" by (rule pow2_mono) simp
  also have "\<dots> \<le> real p / real q" using big(1) by (simp add: power_int_minus)
  finally have e: "\<bar>f64_val (f64_round False p q) - real p / real q\<bar> \<le> pow2 (- 53) * (real p / real q)"
    by (intro f64_round_relative r(2) f)
  have "f64_val x - of_int k / 1000 = sgnf s * (f64_val (f64_round False p q) - real p / real q)"
    unfolding r(1) f64_round_magnitude [OF f(2)] r(3) [symmetric] by (simp add: algebra_simps)
  then have "\<bar>f64_val x - of_int k / 1000\<bar> = \<bar>f64_val (f64_round False p q) - real p / real q\<bar>"
    by (simp add: abs_mult)
  then have "\<bar>f64_val x - of_int k / 1000\<bar> \<le> pow2 (- 53) * \<bar>of_int k / 1000\<bar>"
    using e unfolding r(4) by linarith
  moreover have "\<bar>f64_val x * 1000 - of_int k\<bar> = 1000 * \<bar>f64_val x - of_int k / 1000\<bar>"
    by (simp add: abs_if)
  ultimately show "\<bar>f64_val x * 1000 - of_int k\<bar> \<le> pow2 (- 53) * \<bar>of_int k\<bar>"
    by simp
qed

lemma requantised_error:
  fixes k :: int
  assumes k: "- 32768 \<le> k" "k \<le> 32767" "k \<noteq> 0"
  defines "x \<equiv> f64_div (f64_of_int k) kMotionUnitsPerWireUnit"
  shows "isfinite (f64_mul x kMotionUnitsPerWireUnit)"
    "\<bar>f64_val (f64_mul x kMotionUnitsPerWireUnit) - of_int k\<bar> < 1 / 2"
proof -
  have k': "\<bar>of_int k\<bar> \<le> (32768 :: real)" "1 \<le> \<bar>of_int k :: real\<bar>"
    using k by linarith+
  note x = decoded_motion_error [OF k, folded x_def]
  have small: "pow2 (- 53) * c \<le> 1 / 4" if "c \<le> 32769" for c :: real
    using that by (simp add: power_int_minus)
  have near: "\<bar>f64_val x * 1000 - of_int k\<bar> \<le> 1 / 4"
    using x(2) small [of "\<bar>of_int k\<bar>"] k'(1) by linarith
  then have X: "\<bar>f64_val x * 1000\<bar> \<le> 32769" "1 / 2 \<le> \<bar>f64_val x * 1000\<bar>"
    using k' by linarith+
  have "\<bar>f64_val x\<bar> * 1000 \<le> of_int 32769"
    using X(1) by (simp add: abs_mult)
  then show fin: "isfinite (f64_mul x kMotionUnitsPerWireUnit)"
    by (rule product_finite [OF x(1)]) simp
  have "pow2 (- 1022) \<le> pow2 (- 1)" by (rule pow2_mono) simp
  also have "\<dots> \<le> \<bar>f64_val x * 1000\<bar>" using X(2) by (simp add: power_int_minus)
  finally have "\<bar>f64_val (f64_mul x kMotionUnitsPerWireUnit) - f64_val x * 1000\<bar>
      \<le> pow2 (- 53) * \<bar>f64_val x * 1000\<bar>"
    by (rule product_relative [OF x(1) fin])
  also have "\<dots> \<le> 1 / 4"
    using X(1) by (rule small)
  finally have "\<bar>f64_val (f64_mul x kMotionUnitsPerWireUnit) - of_int k\<bar> \<le> 1 / 4 + pow2 (- 53) * \<bar>of_int k\<bar>"
    using x(2) by linarith
  moreover have "pow2 (- 53) * \<bar>of_int k\<bar> < 1 / 4"
    using k'(1) by (simp add: power_int_minus)
  ultimately show "\<bar>f64_val (f64_mul x kMotionUnitsPerWireUnit) - of_int k\<bar> < 1 / 2"
    by linarith
qed

lemma f64_decoded_zero: "f64_div (f64_of_int 0) kMotionUnitsPerWireUnit = f64_zero"
  by (simp add: motion_constants_F f64_eval)

lemma quantize_decoded:
  fixes k :: int
  assumes "- 32768 \<le> k" "k \<le> 32767"
  obtains w' where "quantizeWireValue (f64_div (f64_of_int k) kMotionUnitsPerWireUnit) = Some w'"
    "\<bar>sint w' - k\<bar> \<le> 1" "\<bar>sint w'\<bar> \<le> \<bar>k\<bar>"
proof (cases "k = 0")
  case True
  then show thesis
    by (intro that [of 0]) (simp_all add: f64_decoded_zero quantize_zero)
next
  case False
  define x where "x = f64_div (f64_of_int k) kMotionUnitsPerWireUnit"
  define P where "P = f64_val (f64_mul x kMotionUnitsPerWireUnit)"
  note P = requantised_error [OF assms False, folded x_def, folded P_def]
  have "\<bar>of_int (trunc_real P) - of_int k\<bar> < (3 / 2 :: real)"
    using trunc_real_error [of P] P(2) by linarith
  then have d: "\<bar>trunc_real P - k\<bar> \<le> 1" by linarith
  have "\<bar>of_int (trunc_real P)\<bar> < \<bar>of_int k\<bar> + (1 / 2 :: real)"
    using trunc_real_abs_le [of P] P(2) by linarith
  then have m: "\<bar>trunc_real P\<bar> \<le> \<bar>k\<bar>" by linarith
  with assms d have t: "- 32768 \<le> trunc_real P" "trunc_real P \<le> 32767" by linarith+
  have "quantizeWireValue x = Some (word_of_int (trunc_real P))"
    using t P(1) decoded_motion_error(1) [OF assms False]
    by (simp add: quantize_iff x_def P_def)
  then show thesis
    using t d m by (intro that [of "word_of_int (trunc_real P)"])
      (simp_all add: sint_word_of_int16 flip: x_def)
qed

lemma wire_relative:
  assumes "isfinite v" "quantizeWireValue v = Some w"
  shows "\<bar>of_int (sint w)\<bar> \<le> \<bar>f64_val v * 1000\<bar> + pow2 (- 53) * \<bar>f64_val v * 1000\<bar>"
proof -
  define P where "P = f64_val (f64_mul v kMotionUnitsPerWireUnit)"
  have fin: "isfinite (f64_mul v kMotionUnitsPerWireUnit)" and w: "sint w = trunc_real P"
    using quantize_Some [OF assms] by (simp_all add: P_def)
  show ?thesis
  proof (cases "pow2 (- 1022) \<le> \<bar>f64_val v * 1000\<bar>")
    case True
    have "\<bar>P - f64_val v * 1000\<bar> \<le> pow2 (- 53) * \<bar>f64_val v * 1000\<bar>"
      unfolding P_def by (rule product_relative [OF assms(1) fin True])
    then have "\<bar>P\<bar> \<le> \<bar>f64_val v * 1000\<bar> + pow2 (- 53) * \<bar>f64_val v * 1000\<bar>"
        by linarith
    then show ?thesis
      using trunc_real_abs_le [of P] unfolding w by linarith
  next
    case False
    obtain s p q where r: "f64_mul v kMotionUnitsPerWireUnit = f64_round s p q" "0 < q"
      "real p / real q = \<bar>f64_val v * f64_val kMotionUnitsPerWireUnit\<bar>"
      using f64_mul_rounds [OF assms(1) kMotionUnits_simps(1)] by metis
    have "real p / real q \<le> pow2 (- 1022)"
      using False by (simp add: r(3) kMotionUnits_simps)
    then have "f64_val (f64_round False p q) \<le> f64_val (F_Fin False (2 ^ 52) (- 1074))"
      by (intro f64_round_le_repr [OF r(2)]) (simp_all add: power_int_minus)
    also have "\<dots> < 1"
      by (simp add: power_int_minus)
    finally have "\<bar>P\<bar> < 1"
      using f64_round_magnitude [of s p q] f64_round_nonneg [of p q] fin r(1)
      by (simp add: P_def abs_mult)
    then have "sint w = 0"
      unfolding w trunc_real_def by (simp add: floor_eq_iff ceiling_eq_iff abs_less_iff)
    then show ?thesis by simp
  qed
qed

lemma encode_zero_frame: "buildCommandFrame 0 0 0 = makeZeroCommandFrame"
  by (simp add: buildCommandFrame_eq makeZeroCommandFrame_def frame_consts numeral_eq_Suc Let_def)

lemma f64_div_nearest:
  assumes "isfinite x" "isfinite y" "f64_val y \<noteq> 0" "isfinite (f64_div x y)" "f64_wf z" "isfinite z"
  shows "\<bar>f64_val (f64_div x y) - f64_val x / f64_val y\<bar> \<le> \<bar>f64_val z - f64_val x / f64_val y\<bar>"
proof -
  obtain s p q where r: "f64_div x y = f64_round s p q" "0 < q"
    "sgnf s * (real p / real q) = f64_val x / f64_val y"
    using f64_div_rounds [OF assms(1-3)] by metis
  show ?thesis
    using f64_round_nearest [OF r(2) _ assms(5,6), of s p] assms(4) by (simp only: r(1) r(3))
qed

text \<open>A decoded motion field is the double closest to the wire value over 1000.\<close>

lemma motion_value_finite:
  "\<lbrakk>- 32768 \<le> k; k \<le> 32767\<rbrakk> \<Longrightarrow> isfinite (f64_div (f64_of_int k) kMotionUnitsPerWireUnit)"
  using decoded_motion_error(1) [of k] by (cases "k = 0") (simp_all add: f64_decoded_zero)

lemma motion_value_nearest:
  assumes "- 32768 \<le> k" "k \<le> 32767" "f64_wf y" "isfinite y"
  shows "\<bar>f64_val (f64_div (f64_of_int k) kMotionUnitsPerWireUnit) - of_int k / 1000\<bar>
    \<le> \<bar>f64_val y - of_int k / 1000\<bar>"
proof -
  have i: "isfinite (f64_of_int k)" "f64_val (f64_of_int k) = of_int k"
    using assms(1,2) by (auto intro: f64_of_int_exact)
  have "f64_val kMotionUnitsPerWireUnit \<noteq> 0"
    by (simp add: kMotionUnits_simps)
  from f64_div_nearest [OF i(1) kMotionUnits_simps(1) this motion_value_finite [OF assms(1,2)] assms(3,4)]
  show ?thesis
    by (simp only: i(2) kMotionUnits_simps(2))
qed

lemma motionField_nearest:
  "\<lbrakk>f64_wf y; isfinite y\<rbrakk> \<Longrightarrow>
   \<bar>f64_val (motionField data n) - of_int (sint (loadSignedBigEndian data n)) / 1000\<bar>
   \<le> \<bar>f64_val y - of_int (sint (loadSignedBigEndian data n)) / 1000\<bar>"
  unfolding motionField_def by (rule motion_value_nearest [OF sint16_bounds])

section \<open>Properties\<close>

text \<open>
  C21: An accepted command is laid out as the protocol says: eleven bytes, header and tail
  markers, two zero bytes, the three truncated and scaled quantities as big-endian signed
  16-bit fields at offsets 3, 5 and 7, and a checksum that makes the XOR of the first ten
  bytes vanish.
\<close>

theorem encodeCommand_layout:
  assumes "enc_ok (encodeCommand c limit)"
  defines "frame \<equiv> enc_frame (encodeCommand c limit)"
  shows "length frame = kCommandFrameSize
    \<and> frame ! 0 = kFrameHeader \<and> frame ! 1 = 0 \<and> frame ! 2 = 0 \<and> frame ! 10 = kFrameTail
    \<and> xorRange frame 10 = 0
    \<and> sint (loadSignedBigEndian frame 3)
        = trunc_real (f64_val (f64_mul (linear_speed_mps c) kMotionUnitsPerWireUnit))
    \<and> sint (loadSignedBigEndian frame 5)
        = trunc_real (f64_val (f64_mul (lateral_speed_mps c) kMotionUnitsPerWireUnit))
    \<and> sint (loadSignedBigEndian frame 7)
        = trunc_real (f64_val (f64_mul (yaw_rate_radps c) kMotionUnitsPerWireUnit))"
proof -
  obtain l t y where ok:
    "isfinite (linear_speed_mps c)" "isfinite (lateral_speed_mps c)" "isfinite (yaw_rate_radps c)"
    "quantizeWireValue (linear_speed_mps c) = Some l"
    "quantizeWireValue (lateral_speed_mps c) = Some t"
    "quantizeWireValue (yaw_rate_radps c) = Some y"
    "frame = buildCommandFrame l t y"
    using assms(1) unfolding frame_def by (rule encode_ok_E)
  have "frame ! 0 = kFrameHeader \<and> frame ! 1 = 0 \<and> frame ! 2 = 0 \<and> frame ! 10 = kFrameTail"
    by (simp add: ok(7) buildCommandFrame_eq Let_def)
  then show ?thesis
    using quantize_Some(2) [OF ok(1,4)] quantize_Some(2) [OF ok(2,5)] quantize_Some(2) [OF ok(3,6)]
    by (simp add: ok(7) load_buildCommandFrame buildCommandFrame_checksum)
qed

definition sample_command :: motion_command where
  "sample_command =
     \<lparr>linear_speed_mps = f64_decimal 12349 4, lateral_speed_mps = f64_neg (f64_decimal 4569 4),
      yaw_rate_radps = f64_decimal 789 4\<rparr>"

lemma sample_command_encodes:
  "encodeCommand sample_command (f64_of_int 2) =
     \<lparr>enc_frame = [0x7B, 0, 0, 0x04, 0xD2, 0xFE, 0x38, 0x00, 0x4E, 0x25, 0x7D],
      enc_error = Enc_kNone\<rparr>"
  by (simp add: encodeCommand_def sample_command_def isValidMaxLinearSpeed_def quantizeWireValue_def
      motion_constants_F f64_eval buildCommandFrame_eq frame_consts)

lemma sample_command_ok: "enc_ok (encodeCommand sample_command (f64_of_int 2))"
  by (simp add: sample_command_encodes enc_ok_def)

theorem encodeCommand_layout_witness:
  "sint (loadSignedBigEndian (enc_frame (encodeCommand sample_command (f64_of_int 2))) 5)
     = trunc_real (f64_val (f64_mul (lateral_speed_mps sample_command) kMotionUnitsPerWireUnit))"
  using encodeCommand_layout [OF sample_command_ok] by blast

text \<open>
  C22: The encoder never authorises more speed than it was given: an accepted frame's linear
  field is at most the limit (in thousandths, up to the one rounding of the scaling), and at
  most 6000 whatever the limit.
\<close>

theorem encodeCommand_speed_limit:
  assumes "enc_ok (encodeCommand c limit)"
  defines "wire \<equiv> sint (loadSignedBigEndian (enc_frame (encodeCommand c limit)) 3)"
  shows "\<bar>wire\<bar> \<le> 6000
    \<and> of_int \<bar>wire\<bar> \<le> f64_val limit * 1000 + pow2 (- 53) * (f64_val limit * 1000)"
proof -
  obtain l t y where ok: "isfinite (linear_speed_mps c)"
    "quantizeWireValue (linear_speed_mps c) = Some l"
    "\<bar>f64_val (linear_speed_mps c)\<bar> \<le> f64_val limit"
    "enc_frame (encodeCommand c limit) = buildCommandFrame l t y"
    using assms(1) by (rule encode_ok_E)
  have wire: "wire = sint l"
    by (simp add: wire_def ok(4) load_buildCommandFrame)
  have "\<bar>f64_val (linear_speed_mps c) * 1000\<bar> \<le> f64_val limit * 1000"
    using ok(3) by (simp add: abs_mult)
  moreover from this have "pow2 (- 53) * \<bar>f64_val (linear_speed_mps c) * 1000\<bar>
      \<le> pow2 (- 53) * (f64_val limit * 1000)"
    by (intro mult_left_mono) simp_all
  moreover have "of_int \<bar>sint l\<bar> = \<bar>of_int (sint l) :: real\<bar>"
    by simp
  ultimately have "of_int \<bar>sint l\<bar> \<le> f64_val limit * 1000 + pow2 (- 53) * (f64_val limit * 1000)"
    using wire_relative [OF ok(1,2)] by linarith
  then show ?thesis
    using encodeCommand_wire_limit [OF assms(1)] by (simp only: wire wire_def [symmetric])
qed

theorem encodeCommand_speed_limit_witness:
  "\<bar>sint (loadSignedBigEndian (enc_frame (encodeCommand sample_command (f64_of_int 2))) 3)\<bar> \<le> 6000"
  using encodeCommand_speed_limit [OF sample_command_ok] by blast


text \<open>
  C24: The zero frame of the shutdown paths, built without any motion configuration, is the frame
  the encoder produces for the zero command under every valid limit.
\<close>

theorem zero_frame_encodes_zero:
  assumes "isValidMaxLinearSpeed limit"
  shows "encodeCommand zeroMotionCommand limit
    = \<lparr>enc_frame = makeZeroCommandFrame, enc_error = Enc_kNone\<rparr>"
proof -
  have "\<not> f64_less limit f64_zero"
    using assms by (simp add: isValidMax_iff f64_less_iff)
  then show ?thesis
    using assms by (simp add: encodeCommand_def zeroMotionCommand_def quantize_zero encode_zero_frame)
qed

theorem zero_frame_encodes_zero_witness:
  "enc_frame (encodeCommand zeroMotionCommand (f64_of_int 2)) = makeZeroCommandFrame"
proof -
  have "isValidMaxLinearSpeed (f64_of_int 2)"
    by (simp add: isValidMaxLinearSpeed_def f64_eval)
  from zero_frame_encodes_zero [OF this] show ?thesis by simp
qed

text \<open>
  C25: A feedback frame corrupted in any one byte, the checksum and the markers included, is
  rejected, and a rejected frame yields only the inhibited default data.
\<close>

theorem single_byte_corruption_rejected:
  assumes "dec_ok (decodeFeedbackFrame (Some frame))" "i < kFeedbackFrameSize" "b \<noteq> frame ! i"
  shows "\<not> dec_ok (decodeFeedbackFrame (Some (frame[i := b])))
    \<and> dec_feedback (decodeFeedbackFrame (Some (frame[i := b]))) = defaultFeedbackData"
  using decode_ok_corrupted [OF assms(1) _ assms(3)] assms(2) decode_failed_inhibited
  by (simp add: kFeedbackFrameSize_def)

definition sample_feedback :: "u8 list" where
  "sample_feedback =
     [0x7B, 0, 0x04, 0xD2, 0xFE, 0xBF, 0x00, 0x2A, 0x08, 0x00, 0xFC, 0x00,
      0x00, 0x11, 0xFD, 0x12, 0x01, 0x4D, 0xFF, 0xFF, 0x62, 0x23, 0xC1, 0x7D]"

lemma sample_feedback_ok: "dec_ok (decodeFeedbackFrame (Some sample_feedback))"
  by (simp add: decode_ok_iff sample_feedback_def frame_consts xorRange_def)

theorem single_byte_corruption_rejected_witness:
  "\<not> dec_ok (decodeFeedbackFrame (Some (sample_feedback[1 := 1])))"
  using single_byte_corruption_rejected [OF sample_feedback_ok, of 1 1]
  by (simp add: kFeedbackFrameSize_def sample_feedback_def)




end
