(* ===== verification/Streams.thy ===== *)
theory Streams
  imports Prelude
begin

text \<open>
  Machines that read a stream one item at a time and emit outputs, and the
  contract that makes such a machine correct: every step agrees with a search
  over the whole stream, and the search resumes from its undecided suffix.  The
  contract is the locale \<open>stream_machine\<close>; what follows from it is proved here
  once, for every machine that meets it.
\<close>

fun run_steps :: "('s \<Rightarrow> 'b \<Rightarrow> 's \<times> 'o list) \<Rightarrow> 's \<Rightarrow> 'b list \<Rightarrow> 's \<times> 'o list" where
  "run_steps step s [] = (s, [])"
| "run_steps step s (b # bs) =
     (let (s, out) = step s b; (s, more) = run_steps step s bs in (s, out @ more))"

lemma run_steps_append:
  "run_steps step s (xs @ ys) =
     (let (s, out) = run_steps step s xs; (s, more) = run_steps step s ys in (s, out @ more))"
  by (induction xs arbitrary: s) (auto simp: Let_def split: prod.splits)

locale stream_machine =
  fixes step :: "'s \<Rightarrow> 'b \<Rightarrow> 's \<times> 'o list"
    and inv :: "'s \<Rightarrow> bool"
    and pending :: "'s \<Rightarrow> 'b list"
    and outputs :: "'b list \<Rightarrow> 'o list"
    and rest :: "'b list \<Rightarrow> 'b list"
  assumes step_inv: "\<lbrakk>inv s; step s b = (s', out)\<rbrakk> \<Longrightarrow> inv s'"
    and step_out: "\<lbrakk>inv s; step s b = (s', out)\<rbrakk> \<Longrightarrow> out = outputs (pending s @ [b])"
    and step_pending: "\<lbrakk>inv s; step s b = (s', out)\<rbrakk> \<Longrightarrow> pending s' = rest (pending s @ [b])"
    and pending_undecided: "inv s \<Longrightarrow> outputs (pending s) = []"
    and pending_rest: "inv s \<Longrightarrow> rest (pending s) = pending s"
    and outputs_append: "outputs (xs @ ys) = outputs xs @ outputs (rest xs @ ys)"
    and rest_append: "rest (xs @ ys) = rest (rest xs @ ys)"
begin

lemma run_refines:
  "\<lbrakk>inv s; run_steps step s bs = (s', out)\<rbrakk> \<Longrightarrow>
     inv s' \<and> out = outputs (pending s @ bs) \<and> pending s' = rest (pending s @ bs)"
proof (induction bs arbitrary: s s' out)
  case Nil
  then show ?case by (simp add: pending_undecided pending_rest)
next
  case (Cons b bs)
  obtain t o1 where st: "step s b = (t, o1)" by fastforce
  obtain o2 where run: "run_steps step t bs = (s', o2)" and out: "out = o1 @ o2"
    using Cons.prems(2) st by (auto simp: Let_def split: prod.splits)
  note IH = Cons.IH [OF step_inv [OF Cons.prems(1) st] run]
  have "outputs (pending s @ b # bs) = outputs (pending s @ [b]) @ outputs (rest (pending s @ [b]) @ bs)"
    using outputs_append [of "pending s @ [b]" bs] by simp
  moreover have "rest (pending s @ b # bs) = rest (rest (pending s @ [b]) @ bs)"
    using rest_append [of "pending s @ [b]" bs] by simp
  ultimately show ?case
    using IH out step_out [OF Cons.prems(1) st] step_pending [OF Cons.prems(1) st] by simp
qed

text \<open>However the input is cut into chunks, the outputs are the same.\<close>

lemma run_chunks:
  assumes "inv s" "run_steps step s (concat chunks) = (s', out)"
  shows "out = outputs (pending s @ concat chunks)"
  using run_refines [OF assms] by blast

end

end
