(* ===== verification/Feedback_Parser.thy ===== *)
theory Feedback_Parser
  imports Protocol Streams
begin

text \<open>
  The bounded rolling parser of \<open>src/feedback_parser.cpp\<close>: a fixed buffer of
  one frame, of which a prefix of at most 23 bytes is kept between calls.  The
  model keeps the buffer as the code does, stale bytes included; the lemmas
  show that it refines \<open>frames_of\<close>, the search that tries every position of
  the whole byte stream in turn.
\<close>

section \<open>State\<close>

record parsed_feedback_frame =
  pf_frame :: "u8 list"
  pf_feedback :: feedback_data

record feedback_parser_statistics =
  valid_frames :: u64
  checksum_failures :: u64
  framing_failures :: u64
  discarded_bytes :: u64

definition zeroStatistics :: feedback_parser_statistics where
  "zeroStatistics =
     \<lparr>valid_frames = 0, checksum_failures = 0, framing_failures = 0, discarded_bytes = 0\<rparr>"

record feedback_parser =
  retained :: "u8 list"
  retained_size :: nat
  statistics :: feedback_parser_statistics

text \<open>A newly constructed parser, and \<open>reset\<close>, which gives the same state.\<close>

definition newFeedbackParser :: feedback_parser where
  "newFeedbackParser =
     \<lparr>retained = replicate kFeedbackFrameSize 0, retained_size = 0, statistics = zeroStatistics\<rparr>"

definition parser_reset :: "feedback_parser \<Rightarrow> feedback_parser" where
  "parser_reset p =
     p\<lparr>retained := replicate kFeedbackFrameSize 0, retained_size := 0,
       statistics := zeroStatistics\<rparr>"

definition retainedByteCount :: "feedback_parser \<Rightarrow> nat" where
  "retainedByteCount p = retained_size p"

section \<open>Operations\<close>

text \<open>\<open>std::find\<close> from an index to the end: the index of the first match, or the end.\<close>

definition std_find :: "u8 list \<Rightarrow> nat \<Rightarrow> u8 \<Rightarrow> nat" where
  "std_find xs start v = start + length (takeWhile (\<lambda>b. b \<noteq> v) (drop start xs))"

text \<open>\<open>std::move\<close> of the elements from an index on to the front of the same array.\<close>

definition move_to_front :: "u8 list \<Rightarrow> nat \<Rightarrow> u8 list" where
  "move_to_front xs n = drop n xs @ drop (length xs - n) xs"

definition add_discarded :: "u64 \<Rightarrow> feedback_parser_statistics \<Rightarrow> feedback_parser_statistics" where
  "add_discarded n st = st\<lparr>discarded_bytes := discarded_bytes st + n\<rparr>"

definition resynchronizeAfterInvalidCandidate :: "feedback_parser \<Rightarrow> feedback_parser" where
  "resynchronizeAfterInvalidCandidate p =
     (let discard_count = std_find (retained p) 1 kFrameHeader;
          p = p\<lparr>statistics := add_discarded (of_nat discard_count) (statistics p)\<rparr>
      in if discard_count = length (retained p) then p\<lparr>retained_size := 0\<rparr>
         else p\<lparr>retained := move_to_front (retained p) discard_count,
                retained_size := kFeedbackFrameSize - discard_count\<rparr>)"

text \<open>One iteration of the loop of \<open>consume\<close>: the state and the frames it appends.\<close>

definition consume_byte :: "feedback_parser \<Rightarrow> u8 \<Rightarrow> feedback_parser \<times> parsed_feedback_frame list" where
  "consume_byte p byte =
     (if retained_size p = 0 \<and> byte \<noteq> kFrameHeader
      then (p\<lparr>statistics := add_discarded 1 (statistics p)\<rparr>, [])
      else
       (let p = p\<lparr>retained := (retained p)[retained_size p := byte],
                  retained_size := retained_size p + 1\<rparr>
        in if retained_size p < kFeedbackFrameSize then (p, [])
           else
            (let decoded = decodeFeedbackFrame (Some (retained p))
             in if dec_ok decoded
                then (p\<lparr>retained_size := 0,
                        statistics := (statistics p)\<lparr>valid_frames := valid_frames (statistics p) + 1\<rparr>\<rparr>,
                      [\<lparr>pf_frame = retained p, pf_feedback = dec_feedback decoded\<rparr>])
                else
                 (let st = (if dec_error decoded = Dec_kChecksumMismatch
                            then (statistics p)\<lparr>checksum_failures := checksum_failures (statistics p) + 1\<rparr>
                            else (statistics p)\<lparr>framing_failures := framing_failures (statistics p) + 1\<rparr>)
                  in (resynchronizeAfterInvalidCandidate (p\<lparr>statistics := st\<rparr>), [])))))"

fun consume_bytes :: "feedback_parser \<Rightarrow> u8 list \<Rightarrow> feedback_parser \<times> parsed_feedback_frame list" where
  "consume_bytes p [] = (p, [])"
| "consume_bytes p (byte # bytes) =
     (let (p, frames) = consume_byte p byte; (p, more) = consume_bytes p bytes
      in (p, frames @ more))"

text \<open>
  \<open>consume(data, size)\<close>: \<open>None\<close> is a null pointer; the caller's contract makes
  \<open>size\<close> bytes readable behind any other pointer.
\<close>

definition consume :: "feedback_parser \<Rightarrow> u8 list option \<Rightarrow> nat \<Rightarrow>
    feedback_parser \<times> parsed_feedback_frame list" where
  "consume p data n =
     (if n = 0 then (p, [])
      else case data of
        None \<Rightarrow>
          (p\<lparr>statistics := add_discarded (of_nat n)
              ((statistics p)\<lparr>framing_failures := framing_failures (statistics p) + 1\<rparr>)\<rparr>, [])
      | Some bytes \<Rightarrow> consume_bytes p (take n bytes))"

section \<open>The reference: every position of the stream in turn\<close>

definition valid_at_front :: "u8 list \<Rightarrow> bool" where
  "valid_at_front xs \<longleftrightarrow> dec_ok (decodeFeedbackFrame (Some (take kFeedbackFrameSize xs)))"

definition parsed_of :: "u8 list \<Rightarrow> parsed_feedback_frame" where
  "parsed_of frame =
     \<lparr>pf_frame = frame, pf_feedback = dec_feedback (decodeFeedbackFrame (Some frame))\<rparr>"

function frames_of :: "u8 list \<Rightarrow> parsed_feedback_frame list" where
  "frames_of xs =
     (if length xs < 24 then []
      else if valid_at_front xs then parsed_of (take 24 xs) # frames_of (drop 24 xs)
      else frames_of (tl xs))"
  by pat_completeness auto
termination
  by (relation "measure length") auto

text \<open>What is left to decide: the suffix from the first undecided header on.\<close>

function pending_of :: "u8 list \<Rightarrow> u8 list" where
  "pending_of xs =
     (if length xs < 24 then dropWhile (\<lambda>b. b \<noteq> kFrameHeader) xs
      else if valid_at_front xs then pending_of (drop 24 xs)
      else pending_of (tl xs))"
  by pat_completeness auto
termination
  by (relation "measure length") auto

declare frames_of.simps [simp del] pending_of.simps [simp del]

section \<open>Invariant and abstraction\<close>

definition parser_inv :: "feedback_parser \<Rightarrow> bool" where
  "parser_inv p \<longleftrightarrow>
     length (retained p) = kFeedbackFrameSize \<and> retained_size p < kFeedbackFrameSize
     \<and> (0 < retained_size p \<longrightarrow> retained p ! 0 = kFrameHeader)"

definition pending :: "feedback_parser \<Rightarrow> u8 list" where
  "pending p = take (retained_size p) (retained p)"

section \<open>Laws of the reference search\<close>

lemma valid_at_front_header: "valid_at_front xs \<Longrightarrow> 24 \<le> length xs \<and> xs ! 0 = kFrameHeader"
  by (auto simp: valid_at_front_def decode_ok_iff kFeedbackFrameSize_def)

lemma valid_at_front_append: "24 \<le> length xs \<Longrightarrow> valid_at_front (xs @ ys) = valid_at_front xs"
  by (simp add: valid_at_front_def kFeedbackFrameSize_def)

lemma frames_of_short: "length xs < 24 \<Longrightarrow> frames_of xs = []"
  by (simp add: frames_of.simps)

lemma frames_of_skip:
  "b \<noteq> kFrameHeader \<Longrightarrow> frames_of (b # xs) = frames_of xs"
  using valid_at_front_header [of "b # xs"]
  by (auto simp: frames_of.simps [of "b # xs"] frames_of_short)

lemma pending_of_skip:
  "b \<noteq> kFrameHeader \<Longrightarrow> pending_of (b # xs) = pending_of xs"
  using valid_at_front_header [of "b # xs"]
  by (auto simp: pending_of.simps [of "b # xs"] pending_of.simps [of xs])

lemma skip_noise:
  assumes "kFrameHeader \<notin> set noise"
  shows "frames_of (noise @ xs) = frames_of xs" "pending_of (noise @ xs) = pending_of xs"
  using assms by (induction noise) (auto simp: frames_of_skip pending_of_skip)

lemma skip_to_header:
  "frames_of (dropWhile (\<lambda>b. b \<noteq> kFrameHeader) xs @ ys) = frames_of (xs @ ys)"
  "pending_of (dropWhile (\<lambda>b. b \<noteq> kFrameHeader) xs @ ys) = pending_of (xs @ ys)"
  by (induction xs) (auto simp: frames_of_skip pending_of_skip)

text \<open>The search over a longer stream resumes from what the shorter one left undecided.\<close>

lemma frames_of_append: "frames_of (xs @ ys) = frames_of xs @ frames_of (pending_of xs @ ys)"
proof (induction xs rule: frames_of.induct)
  case (1 xs)
  show ?case
  proof (cases "length xs < 24")
    case True
    then show ?thesis
      by (simp add: frames_of_short pending_of.simps [of xs] skip_to_header)
  next
    case False
    then have "xs \<noteq> []" by auto
    with False 1 show ?thesis
      by (simp add: frames_of.simps [of xs] frames_of.simps [of "xs @ ys"] pending_of.simps [of xs]
          valid_at_front_append)
  qed
qed

lemma pending_of_append: "pending_of (xs @ ys) = pending_of (pending_of xs @ ys)"
proof (induction xs rule: frames_of.induct)
  case (1 xs)
  show ?case
  proof (cases "length xs < 24")
    case True
    then show ?thesis
      by (simp add: pending_of.simps [of xs] skip_to_header)
  next
    case False
    then have "xs \<noteq> []" by auto
    with False 1 show ?thesis
      by (simp add: pending_of.simps [of xs] pending_of.simps [of "xs @ ys"] valid_at_front_append)
  qed
qed

lemma pending_of_header_short:
  "\<lbrakk>length xs < 24; xs \<noteq> [] \<Longrightarrow> hd xs = kFrameHeader\<rbrakk> \<Longrightarrow> pending_of xs = xs"
  by (cases xs) (simp_all add: pending_of.simps)

section \<open>The parser refines the search\<close>

lemma std_find_drop:
  "drop (std_find xs start v) xs = dropWhile (\<lambda>b. b \<noteq> v) (drop start xs)"
  by (simp add: std_find_def dropWhile_eq_drop add.commute)

lemma std_find_le: "start \<le> length xs \<Longrightarrow> std_find xs start v \<le> length xs"
  using length_takeWhile_le [of "\<lambda>b. b \<noteq> v" "drop start xs"]
  by (simp add: std_find_def)

lemma resynchronize_refines:
  assumes "length (retained p) = 24"
  defines "p' \<equiv> resynchronizeAfterInvalidCandidate p"
  shows "parser_inv p'" "pending p' = dropWhile (\<lambda>b. b \<noteq> kFrameHeader) (tl (retained p))"
proof -
  define n where "n = std_find (retained p) 1 kFrameHeader"
  have n: "n \<le> 24" "1 \<le> n"
    using assms(1) std_find_le [of 1 "retained p" kFrameHeader] by (simp_all add: n_def std_find_def)
  have drop: "drop n (retained p) = dropWhile (\<lambda>b. b \<noteq> kFrameHeader) (tl (retained p))"
    unfolding n_def std_find_drop by (simp add: drop_Suc)
  have "n < 24 \<Longrightarrow> hd (drop n (retained p)) = kFrameHeader"
    unfolding drop using hd_dropWhile [of "\<lambda>b. b \<noteq> kFrameHeader" "tl (retained p)"] assms(1)
    by (metis drop drop_eq_Nil2 not_le)
  then have head: "n < 24 \<Longrightarrow> retained p ! n = kFrameHeader"
    using assms(1) by (simp add: hd_drop_conv_nth)
  show "parser_inv p'"
    using n head assms(1) unfolding n_def
    by (auto simp: p'_def parser_inv_def resynchronizeAfterInvalidCandidate_def Let_def
        kFeedbackFrameSize_def move_to_front_def nth_append)
  show "pending p' = dropWhile (\<lambda>b. b \<noteq> kFrameHeader) (tl (retained p))"
    using n assms(1) unfolding drop [symmetric] n_def
    by (auto simp: p'_def pending_def resynchronizeAfterInvalidCandidate_def Let_def
        kFeedbackFrameSize_def move_to_front_def)
qed

lemma pending_length: "parser_inv p \<Longrightarrow> length (pending p) = retained_size p"
  by (simp add: pending_def parser_inv_def)

lemma pending_snoc:
  "parser_inv p \<Longrightarrow> take (retained_size p + 1) ((retained p)[retained_size p := b]) = pending p @ [b]"
  by (simp add: pending_def parser_inv_def take_Suc_conv_app_nth)

lemma pending_header: "\<lbrakk>parser_inv p; pending p \<noteq> []\<rbrakk> \<Longrightarrow> hd (pending p) = kFrameHeader"
  by (auto simp: parser_inv_def pending_def hd_conv_nth kFeedbackFrameSize_def)

lemma consume_byte_refines:
  assumes inv: "parser_inv p" and step: "consume_byte p b = (p', fs)"
  shows "parser_inv p' \<and> fs = frames_of (pending p @ [b]) \<and> pending p' = pending_of (pending p @ [b])"
proof (cases "retained_size p = 0 \<and> b \<noteq> kFrameHeader")
  case True
  then show ?thesis
    using inv step
    by (auto simp: consume_byte_def parser_inv_def pending_def frames_of_skip pending_of_skip
        frames_of.simps [of "[]"] pending_of.simps [of "[]"])
next
  case False
  define r where "r = (retained p)[retained_size p := b]"
  have r: "take (retained_size p + 1) r = pending p @ [b]" "length r = 24"
    using inv pending_snoc [OF inv] by (simp_all add: r_def parser_inv_def kFeedbackFrameSize_def)
  have hd: "hd (pending p @ [b]) = kFrameHeader"
    using False pending_header [OF inv] pending_length [OF inv] by (cases "pending p") auto
  have head: "r ! 0 = kFrameHeader"
    using hd r by (metis append_is_Nil_conv hd_conv_nth hd_take less_numeral_extra(1) list.distinct(1)
        list.size(3) add_gr_0 zero_neq_numeral)
  show ?thesis
  proof (cases "retained_size p + 1 < 24")
    case True
    then have "pending_of (pending p @ [b]) = pending p @ [b]" "frames_of (pending p @ [b]) = []"
      using hd pending_length [OF inv] by (simp_all add: pending_of_header_short frames_of_short)
    moreover have "p' = p\<lparr>retained := r, retained_size := retained_size p + 1\<rparr>" "fs = []"
      using False True step by (auto simp: consume_byte_def Let_def r_def kFeedbackFrameSize_def)
    ultimately show ?thesis
      using True r head by (simp add: parser_inv_def pending_def kFeedbackFrameSize_def)
  next
    case full: False
    then have "retained_size p = 23"
      using inv by (simp add: parser_inv_def kFeedbackFrameSize_def)
    then have whole: "pending p @ [b] = r" and n: "retained_size p + 1 = 24"
      using r by simp_all
    note step' = step [unfolded consume_byte_def, folded r_def] False n r
    show ?thesis
    proof (cases "valid_at_front r")
      case True
      then have "frames_of r = [parsed_of r]" "pending_of r = []"
        using r by (simp_all add: frames_of.simps [of r] frames_of_short pending_of.simps [of r]
            pending_of.simps [of "[]"])
      then show ?thesis
        using step' True head unfolding whole
        by (auto simp: Let_def kFeedbackFrameSize_def valid_at_front_def parsed_of_def parser_inv_def
            pending_def)
    next
      case False
      then have "frames_of r = []" "pending_of r = dropWhile (\<lambda>b. b \<noteq> kFrameHeader) (tl r)"
        using r by (simp_all add: frames_of.simps [of r] frames_of_short pending_of.simps [of r]
            pending_of.simps [of "tl r"])
      then show ?thesis
        using step' False unfolding whole
        by (auto simp: Let_def kFeedbackFrameSize_def valid_at_front_def resynchronize_refines)
    qed
  qed
qed

lemma consume_bytes_run: "consume_bytes p bs = run_steps consume_byte p bs"
  by (induction bs arbitrary: p) (simp_all add: Let_def)

lemma parser_inv_undecided:
  assumes "parser_inv p"
  shows "frames_of (pending p) = []" "pending_of (pending p) = pending p"
  using assms pending_length [OF assms] pending_header [OF assms]
  by (auto simp: parser_inv_def kFeedbackFrameSize_def intro!: frames_of_short pending_of_header_short)

interpretation parser: stream_machine consume_byte parser_inv pending frames_of pending_of
proof (unfold_locales, goal_cases)
  case 1
  then show ?case using consume_byte_refines by blast
next
  case 2
  then show ?case using consume_byte_refines by blast
next
  case 3
  then show ?case using consume_byte_refines by blast
qed (rule parser_inv_undecided frames_of_append pending_of_append | assumption)+

lemma newFeedbackParser_inv: "parser_inv newFeedbackParser" "pending newFeedbackParser = []"
  by (simp_all add: newFeedbackParser_def parser_inv_def pending_def kFeedbackFrameSize_def)

lemma consume_refines:
  assumes "parser_inv p" "consume p (Some data) n = (p', fs)"
  shows "parser_inv p' \<and> fs = frames_of (pending p @ take n data)
    \<and> pending p' = pending_of (pending p @ take n data)"
  using parser.run_refines [OF assms(1), of "take n data"] assms
  by (auto simp: consume_def consume_bytes_run parser_inv_undecided split: if_splits)

section \<open>Statistics account for every byte\<close>

definition accounted_bytes :: "feedback_parser \<Rightarrow> u64" where
  "accounted_bytes p =
     discarded_bytes (statistics p) + 24 * valid_frames (statistics p) + of_nat (retained_size p)"

lemma resynchronize_accounts:
  assumes "length (retained p) = 24" "retained_size p = 24"
  shows "accounted_bytes (resynchronizeAfterInvalidCandidate p) = accounted_bytes p"
proof -
  have "std_find (retained p) 1 kFrameHeader \<le> 24"
    using assms(1) std_find_le [of 1 "retained p"] by simp
  then have "of_nat (std_find (retained p) 1 kFrameHeader)
      + of_nat (24 - std_find (retained p) 1 kFrameHeader) = (24 :: u64)"
    by (simp flip: of_nat_add)
  then show ?thesis
    using assms by (auto simp: accounted_bytes_def resynchronizeAfterInvalidCandidate_def Let_def
        add_discarded_def kFeedbackFrameSize_def ac_simps)
qed

lemma resynchronize_valid_frames:
  "valid_frames (statistics (resynchronizeAfterInvalidCandidate p)) = valid_frames (statistics p)"
  by (simp add: resynchronizeAfterInvalidCandidate_def Let_def add_discarded_def)

lemma consume_byte_accounts:
  assumes inv: "parser_inv p" and step: "consume_byte p b = (p', fs)"
  shows "accounted_bytes p' = accounted_bytes p + 1
    \<and> valid_frames (statistics p') = valid_frames (statistics p) + of_nat (length fs)"
proof (cases "retained_size p = 0 \<and> b \<noteq> kFrameHeader")
  case True
  with step show ?thesis
    by (auto simp: consume_byte_def accounted_bytes_def add_discarded_def)
next
  case False
  define q where "q = p\<lparr>retained := (retained p)[retained_size p := b], retained_size := retained_size p + 1\<rparr>"
  have q: "accounted_bytes q = accounted_bytes p + 1" "length (retained q) = 24" "statistics q = statistics p"
    using inv by (simp_all add: q_def accounted_bytes_def parser_inv_def kFeedbackFrameSize_def)
  note step' = step [unfolded consume_byte_def Let_def, folded q_def] False
  show ?thesis
  proof (cases "retained_size q < 24")
    case True
    with step' q show ?thesis by (auto simp: kFeedbackFrameSize_def)
  next
    case full: False
    then have n: "retained_size q = 24"
      using inv by (simp add: q_def parser_inv_def kFeedbackFrameSize_def)
    show ?thesis
    proof (cases "dec_ok (decodeFeedbackFrame (Some (retained q)))")
      case True
      with step' full q n show ?thesis
        by (auto simp: kFeedbackFrameSize_def accounted_bytes_def)
    next
      case bad: False
      define st where "st = (if dec_error (decodeFeedbackFrame (Some (retained q))) = Dec_kChecksumMismatch
        then (statistics q)\<lparr>checksum_failures := checksum_failures (statistics q) + 1\<rparr>
        else (statistics q)\<lparr>framing_failures := framing_failures (statistics q) + 1\<rparr>)"
      have "p' = resynchronizeAfterInvalidCandidate (q\<lparr>statistics := st\<rparr>)" "fs = []"
        using step' full bad by (auto simp: kFeedbackFrameSize_def st_def)
      moreover have "accounted_bytes (q\<lparr>statistics := st\<rparr>) = accounted_bytes q"
        "valid_frames st = valid_frames (statistics p)"
        using q(3) by (simp_all add: st_def accounted_bytes_def)
      ultimately show ?thesis
        using resynchronize_accounts [of "q\<lparr>statistics := st\<rparr>"] q n
        by (simp add: resynchronize_valid_frames)
    qed
  qed
qed

lemma consume_bytes_accounts:
  "\<lbrakk>parser_inv p; consume_bytes p bs = (p', fs)\<rbrakk> \<Longrightarrow>
     accounted_bytes p' = accounted_bytes p + of_nat (length bs)
     \<and> valid_frames (statistics p') = valid_frames (statistics p) + of_nat (length fs)"
proof (induction bs arbitrary: p p' fs)
  case (Cons b bs)
  obtain q f1 where st: "consume_byte p b = (q, f1)" by fastforce
  obtain f2 where run: "consume_bytes q bs = (p', f2)" and fs: "fs = f1 @ f2"
    using Cons.prems(2) st by (auto simp: Let_def split: prod.splits)
  have "parser_inv q"
    using consume_byte_refines [OF Cons.prems(1) st] by blast
  from Cons.IH [OF this run] consume_byte_accounts [OF Cons.prems(1) st] show ?case
    by (simp add: fs)
qed simp

section \<open>Resynchronisation\<close>

lemma pending_of_noise: "kFrameHeader \<notin> set noise \<Longrightarrow> pending_of noise = []"
  using skip_noise(2) [of noise "[]"] by (simp add: pending_of.simps [of "[]"])

lemma header_free_drop: "v \<notin> set xs \<Longrightarrow> v \<notin> set (drop n xs)"
  by (meson in_set_dropD)

text \<open>Twenty-three bytes without a header complete every candidate that was open before them.\<close>

lemma pending_of_quiet:
  assumes quiet: "kFrameHeader \<notin> set quiet" "23 \<le> length quiet"
  shows "pending_of (xs @ quiet) = []"
proof (induction xs rule: length_induct)
  case (1 xs)
  show ?case
  proof (cases xs)
    case Nil
    then show ?thesis using quiet by (simp add: pending_of_noise)
  next
    case (Cons x xs')
    then have long: "\<not> length (xs @ quiet) < 24"
      using quiet(2) by simp
    have "pending_of (drop 24 (xs @ quiet)) = []"
    proof (cases "24 \<le> length xs")
      case True
      with 1 [rule_format, of "drop 24 xs"] Cons show ?thesis by simp
    next
      case False
      then show ?thesis
        using quiet by (simp add: pending_of_noise header_free_drop)
    qed
    moreover have "pending_of (xs' @ quiet) = []"
      using 1 [rule_format, of xs'] Cons by simp
    ultimately show ?thesis
      using long Cons by (subst pending_of.simps) simp
  qed
qed

lemma frames_of_valid:
  assumes "dec_ok (decodeFeedbackFrame (Some frame))"
  shows "frames_of (frame @ xs) = parsed_of frame # frames_of xs"
proof -
  have "length frame = 24"
    using assms by (simp add: decode_ok_iff kFeedbackFrameSize_def)
  with assms show ?thesis
    by (simp add: frames_of.simps [of "frame @ xs"] valid_at_front_def kFeedbackFrameSize_def)
qed

section \<open>Properties\<close>

text \<open>A sequence of calls of \<open>consume\<close>, as the applications make them, one per read.\<close>

fun consume_chunks :: "feedback_parser \<Rightarrow> u8 list list \<Rightarrow> feedback_parser \<times> parsed_feedback_frame list" where
  "consume_chunks p [] = (p, [])"
| "consume_chunks p (c # cs) =
     (let (p, frames) = consume p (Some c) (length c); (p, more) = consume_chunks p cs
      in (p, frames @ more))"

lemma consume_chunks_run:
  "consume_chunks p cs = run_steps consume_byte p (concat cs)"
  by (induction cs arbitrary: p)
    (simp_all add: consume_def consume_bytes_run run_steps_append Let_def split: prod.splits)

text \<open>
  C18: However the serial stream is cut into reads, the parser delivers exactly the frames that a
  search trying every position of the whole stream finds, and keeps at most 23 bytes, which are
  the undecided end of the stream.
\<close>

theorem consume_chunks_refine:
  "snd (consume_chunks newFeedbackParser chunks) = frames_of (concat chunks)
   \<and> pending (fst (consume_chunks newFeedbackParser chunks)) = pending_of (concat chunks)
   \<and> retainedByteCount (fst (consume_chunks newFeedbackParser chunks)) \<le> 23"
proof -
  obtain p fs where run: "run_steps consume_byte newFeedbackParser (concat chunks) = (p, fs)"
    by fastforce
  from parser.run_refines [OF newFeedbackParser_inv(1) run] show ?thesis
    by (simp add: consume_chunks_run run newFeedbackParser_inv(2) retainedByteCount_def
        parser_inv_def kFeedbackFrameSize_def)
qed

text \<open>
  C19: The parser recovers from any garbage: once 23 bytes without a header byte have passed,
  whatever came before them, the valid frame that follows is delivered.
\<close>

theorem frame_after_quiet_delivered:
  assumes "kFrameHeader \<notin> set quiet" "23 \<le> length quiet"
    and "dec_ok (decodeFeedbackFrame (Some frame))"
    and "concat chunks = garbage @ quiet @ frame"
  shows "snd (consume_chunks newFeedbackParser chunks)
    = frames_of (garbage @ quiet) @ [parsed_of frame]"
proof -
  obtain p fs where run: "run_steps consume_byte newFeedbackParser (concat chunks) = (p, fs)"
    by fastforce
  have "fs = frames_of ((garbage @ quiet) @ frame)"
    using parser.run_refines [OF newFeedbackParser_inv(1) run] assms(4)
    by (simp add: newFeedbackParser_inv(2))
  also have "\<dots> = frames_of (garbage @ quiet) @ frames_of (frame @ [])"
    by (simp only: frames_of_append [of "garbage @ quiet"] pending_of_quiet [OF assms(1,2)]) simp
  finally show ?thesis
    by (simp add: consume_chunks_run run frames_of_valid [OF assms(3)] frames_of_short
        del: append_Nil2)
qed

theorem frame_after_quiet_delivered_witness:
  "snd (consume_chunks newFeedbackParser [[kFrameHeader, 7], replicate 23 0 @ take 5 sample_feedback,
      drop 5 sample_feedback])
    = frames_of ([kFrameHeader, 7] @ replicate 23 0) @ [parsed_of sample_feedback]"
  by (rule frame_after_quiet_delivered [OF _ _ sample_feedback_ok])
    (simp_all add: kFrameHeader_def)

text \<open>
  C20: The counters account for every byte: after any call, the bytes discarded, 24 for each
  valid frame, and the bytes retained have grown by exactly the bytes of the call (modulo
  \<open>2 ^ 64\<close>, the width of the counters), and the valid-frame counter by the frames returned.
\<close>

theorem consume_accounts_for_bytes:
  assumes "parser_inv p" "case data of None \<Rightarrow> True | Some bytes \<Rightarrow> n \<le> length bytes"
  shows "accounted_bytes (fst (consume p data n)) = accounted_bytes p + of_nat n
    \<and> valid_frames (statistics (fst (consume p data n)))
        = valid_frames (statistics p) + of_nat (length (snd (consume p data n)))"
proof (cases data)
  case None
  then show ?thesis
    by (simp add: consume_def accounted_bytes_def add_discarded_def)
next
  case (Some bytes)
  obtain p' fs where "consume_bytes p (take n bytes) = (p', fs)" by fastforce
  with consume_bytes_accounts [OF assms(1) this] Some assms(2) show ?thesis
    by (auto simp: consume_def)
qed

theorem consume_accounts_for_bytes_witness:
  "accounted_bytes (fst (consume newFeedbackParser (Some [1, 2, 0x7B]) 3))
     = accounted_bytes newFeedbackParser + of_nat 3"
  using consume_accounts_for_bytes [OF newFeedbackParser_inv(1), where data = "Some [1, 2, 0x7B]" and n = 3]
  by simp

end
