(* ===== verification/Transport_Interface.thy ===== *)
theory Transport_Interface
  imports Prelude
begin

text \<open>
  The abstract transport of \<open>transport.hpp\<close>: \<open>TransportStatus\<close>, \<open>IoResult\<close> and
  the virtual interface \<open>ITransport\<close>, as a record of operations over a
  transport state \<open>'t\<close>.  A write may return a result or throw; \<open>None\<close> is a call
  that never returns.  The locale \<open>transport_contract\<close> states what the callers
  of the interface rely on; the POSIX transport interprets it.
\<close>

datatype transport_status =
    T_kOk
  | T_kDeadlineExceeded
  | T_kDisconnected
  | T_kWriteDisabled
  | T_kInvalidArgument
  | T_kConfigurationError
  | T_kIoError

record io_result =
  io_status :: transport_status
  bytes_transferred :: nat
  os_error :: int
  host_write_complete :: bool
  outcome_uncertain :: bool
  completion_monotonic_ns :: int

definition defaultIoResult :: io_result where
  "defaultIoResult =
     \<lparr>io_status = T_kIoError, bytes_transferred = 0, os_error = 0, host_write_complete = False,
      outcome_uncertain = False, completion_monotonic_ns = 0\<rparr>"

definition EIO :: int where "EIO = 5"

datatype 'r call_outcome = Returned 'r | Threw

record 't transport_ops =
  tr_connected :: "'t \<Rightarrow> bool"
  tr_generation :: "'t \<Rightarrow> u64"
  tr_writeAll :: "'t \<Rightarrow> u8 list \<Rightarrow> int \<Rightarrow> (io_result call_outcome \<times> 't) option"

text \<open>
  What a caller of \<open>writeAll\<close> may assume: the call keeps the connection
  generation and cannot reconnect; a reported disconnect has closed the
  transport; a success transferred every byte, completed the host write, was
  not uncertain, and finished by its deadline.
\<close>

locale transport_contract =
  fixes ops :: "'t transport_ops" and good :: "'t \<Rightarrow> bool"
  assumes write_good:
      "\<lbrakk>good t; tr_writeAll ops t data deadline = Some (out, t')\<rbrakk> \<Longrightarrow> good t'"
    and write_generation:
      "\<lbrakk>good t; tr_writeAll ops t data deadline = Some (out, t')\<rbrakk> \<Longrightarrow>
         tr_generation ops t' = tr_generation ops t"
    and write_no_reconnect:
      "\<lbrakk>good t; tr_writeAll ops t data deadline = Some (out, t'); tr_connected ops t'\<rbrakk> \<Longrightarrow>
         tr_connected ops t"
    and write_disconnected:
      "\<lbrakk>good t; tr_writeAll ops t data deadline = Some (Returned r, t');
        io_status r = T_kDisconnected\<rbrakk> \<Longrightarrow> \<not> tr_connected ops t'"
    and write_success:
      "\<lbrakk>good t; tr_writeAll ops t data deadline = Some (Returned r, t'); io_status r = T_kOk\<rbrakk> \<Longrightarrow>
         bytes_transferred r = length data \<and> host_write_complete r \<and> \<not> outcome_uncertain r
         \<and> completion_monotonic_ns r \<le> deadline"

end
