(* ===== verification/Safety_Session.thy ===== *)
theory Safety_Session
  imports Protocol Transport_Interface
begin

text \<open>
  The safety state machine: \<open>src/safety_session.cpp\<close> and \<open>safety_session.hpp\<close>.
  The private members are the fields of \<open>safety_session\<close> (without the trailing
  underscore); \<open>transport_present\<close> is \<open>transport_ != nullptr\<close>.  A method takes the
  transport's operations \<open>ops\<close>, the transport's state \<open>t\<close> and the session, and
  returns its result with the new session; the two that write return the new
  transport state as well, and \<open>None\<close> when a write never returns.
\<close>

section \<open>Configuration, commands and results\<close>

record safety_config =
  max_linear_speed_mps :: f64
  max_abs_yaw_rate_radps :: f64
  max_command_age_ns :: int
  feedback_timeout_ns :: int
  transmit_period_ns :: int
  write_timeout_ns :: int
  zero_retry_interval_ns :: int
  maximum_zero_attempts :: u32
  fresh_commands_required :: u32

record timed_motion_command =
  sequence_id :: u64
  created_monotonic_ns :: int
  deadline_monotonic_ns :: int
  motion :: motion_command

definition emptyTimedMotionCommand :: timed_motion_command where
  "emptyTimedMotionCommand =
     \<lparr>sequence_id = 0, created_monotonic_ns = 0, deadline_monotonic_ns = 0,
      motion = zeroMotionCommand\<rparr>"

datatype session_state =
    S_kConfigurationInvalid
  | S_kDisconnected
  | S_kConnectedInhibited
  | S_kRecovering
  | S_kActive
  | S_kStopPending
  | S_kEmergencyStopLatched
  | S_kFaulted

datatype authorization_status =
    Auth_kAuthorized
  | Auth_kConfigurationInvalid
  | Auth_kDisconnected
  | Auth_kInitialZeroPending
  | Auth_kFeedbackUnavailable
  | Auth_kEmergencyStopLatched
  | Auth_kFaulted
  | Auth_kTokenInvalid
  | Auth_kTimestampInvalid

datatype submission_status =
    Sub_kAccepted
  | Sub_kRecoveryPending
  | Sub_kStopAccepted
  | Sub_kConfigurationInvalid
  | Sub_kDisconnected
  | Sub_kNotAuthorized
  | Sub_kSequenceInvalid
  | Sub_kTimestampInvalid
  | Sub_kStale
  | Sub_kPredatesAuthorization
  | Sub_kFeedbackUnavailable
  | Sub_kEncodingRejected
  | Sub_kEmergencyStopLatched
  | Sub_kFaulted

datatype feedback_observation_status =
    Obs_kAcceptedControlAllowed
  | Obs_kAcceptedControlInhibited
  | Obs_kFrameInvalid
  | Obs_kTimestampInvalid
  | Obs_kDisconnected
  | Obs_kConfigurationInvalid

record feedback_observation_result =
  obs_status :: feedback_observation_status
  obs_valid_frame :: bool
  obs_control_allowed :: bool

datatype cycle_action =
    Cyc_kNoAction
  | Cyc_kTransmitRateLimited
  | Cyc_kMotionHostWriteComplete
  | Cyc_kZeroHostWriteComplete
  | Cyc_kZeroHostWriteFailed
  | Cyc_kZeroRetryPending
  | Cyc_kZeroRetriesExhausted
  | Cyc_kDisconnected
  | Cyc_kConfigurationInvalid
  | Cyc_kClockInvalid

record cycle_result =
  cyc_action :: cycle_action
  cyc_state :: session_state
  cyc_transport_status :: transport_status
  cyc_motion_write_attempted :: bool
  cyc_motion_host_write_complete :: bool
  cyc_zero_write_attempted :: bool
  cyc_zero_host_write_complete :: bool
  cyc_outcome_uncertain :: bool
  cyc_zero_attempts :: u32

definition defaultCycleResult :: cycle_result where
  "defaultCycleResult =
     \<lparr>cyc_action = Cyc_kNoAction, cyc_state = S_kConfigurationInvalid, cyc_transport_status = T_kOk,
      cyc_motion_write_attempted = False, cyc_motion_host_write_complete = False,
      cyc_zero_write_attempted = False, cyc_zero_host_write_complete = False,
      cyc_outcome_uncertain = False, cyc_zero_attempts = 0\<rparr>"

datatype connection_sync = Sync_kUnchanged | Sync_kNewGeneration | Sync_kDisconnected

record safety_session =
  config :: safety_config
  transport_present :: bool
  configuration_valid :: bool
  state :: session_state
  connection_known :: bool
  connection_generation :: u64
  last_observed_monotonic_ns :: int
  authorization_active :: bool
  highest_authorization_token :: u64
  authorized_generation :: u64
  authorization_monotonic_ns :: int
  highest_sequence :: u64
  consecutive_fresh_commands :: u32
  latest_command_valid :: bool
  latest_command :: timed_motion_command
  latest_frame :: "u8 list"
  latest_command_receipt_ns :: int
  last_motion_host_write_completion_ns :: int
  feedback_allowed_seen :: bool
  latest_allowed_feedback_receipt_ns :: int
  zero_episode_active :: bool
  state_after_zero :: session_state
  zero_attempts :: u32
  next_zero_attempt_ns :: int
  emergency_stop_latched :: bool
  emergency_stop_latch_generation :: u64
  highest_estop_reset_token :: u64

section \<open>File-local helpers\<close>

definition commandIsExactZero :: "motion_command \<Rightarrow> bool" where
  "commandIsExactZero command \<longleftrightarrow>
     f64_eq (linear_speed_mps command) f64_zero
     \<and> f64_eq (lateral_speed_mps command) f64_zero
     \<and> f64_eq (yaw_rate_radps command) f64_zero"

definition saturatingAdd :: "int \<Rightarrow> int \<Rightarrow> int" where
  "saturatingAdd v positive_delta =
     (if positive_delta \<le> 0 then v
      else if v > int64_max - positive_delta then int64_max
      else v + positive_delta)"

definition exceptionIoResult :: "int \<Rightarrow> io_result" where
  "exceptionIoResult now =
     defaultIoResult\<lparr>io_status := T_kIoError, os_error := EIO, outcome_uncertain := True,
       completion_monotonic_ns := now\<rparr>"

definition result_or_exception :: "int \<Rightarrow> io_result call_outcome \<Rightarrow> io_result" where
  "result_or_exception now out = (case out of Returned r \<Rightarrow> r | Threw \<Rightarrow> exceptionIoResult now)"

definition kMaximumDurationNs :: int where "kMaximumDurationNs = 60000000000"

definition safetyConfigIsValid :: "safety_config \<Rightarrow> bool" where
  "safetyConfigIsValid c \<longleftrightarrow>
     isValidMaxLinearSpeed (safety_config.max_linear_speed_mps c)
     \<and> isfinite (max_abs_yaw_rate_radps c)
     \<and> f64_less f64_zero (max_abs_yaw_rate_radps c)
     \<and> f64_le (max_abs_yaw_rate_radps c) (f64_decimal 32767 3)
     \<and> max_command_age_ns c > 0
     \<and> max_command_age_ns c \<le> kMaximumDurationNs
     \<and> feedback_timeout_ns c > 0
     \<and> feedback_timeout_ns c \<le> kMaximumDurationNs
     \<and> transmit_period_ns c > 0 \<and> write_timeout_ns c > 0
     \<and> transmit_period_ns c \<le> kMaximumDurationNs
     \<and> write_timeout_ns c \<le> kMaximumDurationNs
     \<and> zero_retry_interval_ns c > 0
     \<and> zero_retry_interval_ns c \<le> kMaximumDurationNs
     \<and> write_timeout_ns c \<le> transmit_period_ns c
     \<and> transmit_period_ns c < max_command_age_ns c
     \<and> transmit_period_ns c < feedback_timeout_ns c
     \<and> maximum_zero_attempts c > 0
     \<and> maximum_zero_attempts c \<le> 20
     \<and> fresh_commands_required c > 0
     \<and> fresh_commands_required c \<le> 100"

section \<open>Private methods\<close>

definition authorized :: "safety_session \<Rightarrow> bool" where
  "authorized s \<longleftrightarrow>
     configuration_valid s \<and> connection_known s \<and> authorization_active s
     \<and> \<not> emergency_stop_latched s
     \<and> authorized_generation s = connection_generation s
     \<and> authorization_monotonic_ns s > 0
     \<and> state s \<noteq> S_kFaulted"

definition revokeAuthorization :: "safety_session \<Rightarrow> safety_session" where
  "revokeAuthorization s =
     s\<lparr>authorization_active := False, authorized_generation := 0, authorization_monotonic_ns := 0\<rparr>"

definition clearMotionIntent :: "safety_session \<Rightarrow> safety_session" where
  "clearMotionIntent s =
     s\<lparr>latest_command_valid := False, latest_command := emptyTimedMotionCommand,
       latest_frame := replicate kCommandFrameSize 0, latest_command_receipt_ns := 0,
       consecutive_fresh_commands := 0\<rparr>"

definition beginZeroEpisode ::
    "'t transport_ops \<Rightarrow> 't \<Rightarrow> session_state \<Rightarrow> int \<Rightarrow> safety_session \<Rightarrow> safety_session" where
  "beginZeroEpisode ops t after_zero earliest_attempt_ns s =
     (if \<not> connection_known s \<or> \<not> transport_present s \<or> \<not> tr_connected ops t
      then s\<lparr>state := S_kDisconnected\<rparr>
      else if state s = S_kFaulted then s
      else if zero_episode_active s then
        (if after_zero = S_kEmergencyStopLatched
            \<or> (after_zero = S_kConnectedInhibited \<and> state_after_zero s = S_kRecovering)
         then s\<lparr>state_after_zero := after_zero\<rparr> else s)
      else s\<lparr>zero_episode_active := True, state_after_zero := after_zero, zero_attempts := 0,
             next_zero_attempt_ns := max 0 earliest_attempt_ns, state := S_kStopPending\<rparr>)"

text \<open>The state a zero episode ends in when nothing else is asked for.\<close>

definition inhibited_or_estop :: "safety_session \<Rightarrow> session_state" where
  "inhibited_or_estop s =
     (if emergency_stop_latched s then S_kEmergencyStopLatched else S_kConnectedInhibited)"

definition handleDisconnect :: "safety_session \<Rightarrow> safety_session" where
  "handleDisconnect s =
     (let s = s\<lparr>connection_known := False\<rparr>;
          s = clearMotionIntent (revokeAuthorization s);
          s = s\<lparr>feedback_allowed_seen := False, latest_allowed_feedback_receipt_ns := 0,
                zero_episode_active := False, zero_attempts := 0, next_zero_attempt_ns := 0,
                last_motion_host_write_completion_ns := 0\<rparr>
      in if configuration_valid s then s\<lparr>state := S_kDisconnected\<rparr> else s)"

definition handleNewConnection ::
    "'t transport_ops \<Rightarrow> 't \<Rightarrow> u64 \<Rightarrow> safety_session \<Rightarrow> safety_session" where
  "handleNewConnection ops t generation s =
     (let s = s\<lparr>connection_known := True, connection_generation := generation\<rparr>;
          s = clearMotionIntent (revokeAuthorization s);
          s = s\<lparr>feedback_allowed_seen := False, latest_allowed_feedback_receipt_ns := 0,
                zero_episode_active := False, zero_attempts := 0, next_zero_attempt_ns := 0,
                last_motion_host_write_completion_ns := 0, state := S_kConnectedInhibited\<rparr>
      in beginZeroEpisode ops t (inhibited_or_estop s) 0 s)"

definition synchronizeConnection ::
    "'t transport_ops \<Rightarrow> 't \<Rightarrow> safety_session \<Rightarrow> connection_sync \<times> safety_session" where
  "synchronizeConnection ops t s =
     (if \<not> transport_present s \<or> \<not> tr_connected ops t \<or> tr_generation ops t = 0
      then (Sync_kDisconnected, handleDisconnect s)
      else
       (let observed_generation = tr_generation ops t
        in if \<not> connection_known s \<or> observed_generation \<noteq> connection_generation s
           then (Sync_kNewGeneration, handleNewConnection ops t observed_generation s)
           else (Sync_kUnchanged, s)))"

definition observeMonotonicTime :: "int \<Rightarrow> safety_session \<Rightarrow> bool \<times> safety_session" where
  "observeMonotonicTime now s =
     (if now \<le> 0 \<or> (last_observed_monotonic_ns s > 0 \<and> now < last_observed_monotonic_ns s)
      then (False, s)
      else if now > last_observed_monotonic_ns s
      then (True, s\<lparr>last_observed_monotonic_ns := now\<rparr>)
      else (True, s))"

definition handleClockFailure ::
    "'t transport_ops \<Rightarrow> 't \<Rightarrow> safety_session \<Rightarrow> safety_session" where
  "handleClockFailure ops t s =
     (let s = clearMotionIntent (revokeAuthorization s);
          s = s\<lparr>feedback_allowed_seen := False, latest_allowed_feedback_receipt_ns := 0\<rparr>
      in if connection_known s \<and> transport_present s \<and> tr_connected ops t
         then beginZeroEpisode ops t (inhibited_or_estop s) (last_observed_monotonic_ns s) s
         else s)"

definition feedbackIsFresh :: "int \<Rightarrow> safety_session \<Rightarrow> bool" where
  "feedbackIsFresh now s \<longleftrightarrow>
     feedback_allowed_seen s \<and> latest_allowed_feedback_receipt_ns s > 0
     \<and> latest_allowed_feedback_receipt_ns s \<le> now
     \<and> now - latest_allowed_feedback_receipt_ns s \<le> feedback_timeout_ns (config s)"

definition commandIsFresh :: "int \<Rightarrow> safety_session \<Rightarrow> bool" where
  "commandIsFresh now s \<longleftrightarrow>
     latest_command_valid s \<and> latest_command_receipt_ns s > 0
     \<and> created_monotonic_ns (latest_command s) \<le> now
     \<and> latest_command_receipt_ns s \<le> now
     \<and> now \<le> deadline_monotonic_ns (latest_command s)
     \<and> now - created_monotonic_ns (latest_command s) \<le> max_command_age_ns (config s)
     \<and> now - latest_command_receipt_ns s \<le> max_command_age_ns (config s)"

definition boundedWriteDeadline :: "int \<Rightarrow> int \<Rightarrow> safety_session \<Rightarrow> int" where
  "boundedWriteDeadline now command_deadline_ns s =
     min (saturatingAdd now (write_timeout_ns (config s))) command_deadline_ns"

text \<open>The part of \<open>attemptZero\<close> after the write: its bookkeeping and its outcome.\<close>

definition finishZero ::
    "'t transport_ops \<Rightarrow> 't \<Rightarrow> int \<Rightarrow> io_result \<Rightarrow> cycle_result \<Rightarrow> safety_session
       \<Rightarrow> cycle_result \<times> safety_session" where
  "finishZero ops t now zero_result result s =
     (let result = result\<lparr>cyc_zero_attempts := zero_attempts s,
            cyc_zero_host_write_complete := host_write_complete zero_result,
            cyc_outcome_uncertain := cyc_outcome_uncertain result \<or> outcome_uncertain zero_result,
            cyc_transport_status := io_status zero_result\<rparr>;
          s = (if completion_monotonic_ns zero_result > last_observed_monotonic_ns s
               then s\<lparr>last_observed_monotonic_ns := completion_monotonic_ns zero_result\<rparr> else s)
      in if io_status zero_result = T_kDisconnected \<or> \<not> tr_connected ops t then
           (let s = handleDisconnect s
            in (result\<lparr>cyc_action := Cyc_kDisconnected, cyc_state := state s,
                  cyc_transport_status := T_kDisconnected, cyc_outcome_uncertain := True\<rparr>, s))
         else if io_status zero_result = T_kOk \<and> host_write_complete zero_result
              \<and> bytes_transferred zero_result = length makeZeroCommandFrame then
           (let s = s\<lparr>zero_episode_active := False, zero_attempts := 0, next_zero_attempt_ns := 0\<rparr>;
                s = s\<lparr>state := (if emergency_stop_latched s then S_kEmergencyStopLatched
                               else state_after_zero s)\<rparr>
            in (result\<lparr>cyc_action := Cyc_kZeroHostWriteComplete, cyc_state := state s\<rparr>, s))
         else if zero_attempts s \<ge> maximum_zero_attempts (config s) then
           (let s = s\<lparr>zero_episode_active := False, state := S_kFaulted\<rparr>
            in (result\<lparr>cyc_action := Cyc_kZeroRetriesExhausted, cyc_state := state s,
                  cyc_outcome_uncertain := True\<rparr>, s))
         else
           (let retry_base = max now (completion_monotonic_ns zero_result);
                s = s\<lparr>next_zero_attempt_ns := saturatingAdd retry_base (zero_retry_interval_ns (config s))\<rparr>
            in (result\<lparr>cyc_action := Cyc_kZeroHostWriteFailed, cyc_state := state s\<rparr>, s)))"

definition attemptZero ::
    "'t transport_ops \<Rightarrow> 't \<Rightarrow> int \<Rightarrow> cycle_result \<Rightarrow> safety_session
       \<Rightarrow> (cycle_result \<times> safety_session \<times> 't) option" where
  "attemptZero ops t now result s =
     (let result = result\<lparr>cyc_state := state s\<rparr>
      in if \<not> zero_episode_active s then Some (result, s, t)
         else if now < next_zero_attempt_ns s then
           Some (result\<lparr>cyc_action := Cyc_kZeroRetryPending, cyc_zero_attempts := zero_attempts s\<rparr>, s, t)
         else
          (let result = result\<lparr>cyc_zero_write_attempted := True\<rparr>;
               s = s\<lparr>zero_attempts := zero_attempts s + 1\<rparr>
           in case tr_writeAll ops t makeZeroCommandFrame (boundedWriteDeadline now int64_max s) of
                None \<Rightarrow> None
              | Some (out, t) \<Rightarrow>
                 (let (result, s) = finishZero ops t now (result_or_exception now out) result s
                  in Some (result, s, t))))"

section \<open>Public methods\<close>

definition newSafetySession ::
    "safety_config \<Rightarrow> bool \<Rightarrow> 't transport_ops \<Rightarrow> 't \<Rightarrow> safety_session" where
  "newSafetySession cfg present ops t =
     (let s = \<lparr>config = cfg, transport_present = present,
               configuration_valid = (present \<and> safetyConfigIsValid cfg),
               state = S_kConfigurationInvalid,
               connection_known = False, connection_generation = 0, last_observed_monotonic_ns = 0,
               authorization_active = False, highest_authorization_token = 0,
               authorized_generation = 0, authorization_monotonic_ns = 0,
               highest_sequence = 0, consecutive_fresh_commands = 0, latest_command_valid = False,
               latest_command = emptyTimedMotionCommand,
               latest_frame = replicate kCommandFrameSize 0, latest_command_receipt_ns = 0,
               last_motion_host_write_completion_ns = 0,
               feedback_allowed_seen = False, latest_allowed_feedback_receipt_ns = 0,
               zero_episode_active = False, state_after_zero = S_kConnectedInhibited,
               zero_attempts = 0, next_zero_attempt_ns = 0,
               emergency_stop_latched = False, emergency_stop_latch_generation = 0,
               highest_estop_reset_token = 0\<rparr>
      in if \<not> configuration_valid s then s\<lparr>state := S_kConfigurationInvalid\<rparr>
         else snd (synchronizeConnection ops t s))"

definition authorize ::
    "'t transport_ops \<Rightarrow> 't \<Rightarrow> u64 \<Rightarrow> int \<Rightarrow> safety_session
       \<Rightarrow> authorization_status \<times> safety_session" where
  "authorize ops t token now s =
     (if \<not> configuration_valid s then (Auth_kConfigurationInvalid, s)
      else
       (let (time_ok, s) = observeMonotonicTime now s
        in if \<not> time_ok then (Auth_kTimestampInvalid, handleClockFailure ops t s)
           else
            (let (connection, s) = synchronizeConnection ops t s
             in if connection = Sync_kDisconnected then (Auth_kDisconnected, s)
                else if emergency_stop_latched s then (Auth_kEmergencyStopLatched, s)
                else if state s = S_kFaulted then (Auth_kFaulted, s)
                else if zero_episode_active s \<or> connection = Sync_kNewGeneration
                then (Auth_kInitialZeroPending, s)
                else if token = 0 \<or> token \<le> highest_authorization_token s
                then (Auth_kTokenInvalid, s)
                else if \<not> feedbackIsFresh now s then (Auth_kFeedbackUnavailable, s)
                else
                 (let s = s\<lparr>highest_authorization_token := token, authorization_active := True,
                            authorized_generation := connection_generation s,
                            authorization_monotonic_ns := now\<rparr>;
                      s = clearMotionIntent s
                  in (Auth_kAuthorized, s\<lparr>state := S_kRecovering\<rparr>)))))"

definition disarm ::
    "'t transport_ops \<Rightarrow> 't \<Rightarrow> int \<Rightarrow> safety_session \<Rightarrow> bool \<times> safety_session" where
  "disarm ops t now s =
     (if \<not> configuration_valid s then (False, s)
      else
       (let (time_ok, s) = observeMonotonicTime now s
        in if \<not> time_ok then (False, handleClockFailure ops t s)
           else
            (let (connection, s) = synchronizeConnection ops t s
             in if connection = Sync_kDisconnected then (True, s)
                else if state s = S_kFaulted then (False, s)
                else
                 (let s = clearMotionIntent (revokeAuthorization s)
                  in (True, beginZeroEpisode ops t (inhibited_or_estop s) now s)))))"

definition requestStop ::
    "'t transport_ops \<Rightarrow> 't \<Rightarrow> int \<Rightarrow> safety_session \<Rightarrow> bool \<times> safety_session" where
  "requestStop ops t now s =
     (if \<not> configuration_valid s then (False, s)
      else
       (let (time_ok, s) = observeMonotonicTime now s
        in if \<not> time_ok then (False, handleClockFailure ops t s)
           else
            (let (connection, s) = synchronizeConnection ops t s
             in if connection = Sync_kDisconnected then (True, s)
                else if state s = S_kFaulted then (False, s)
                else
                 (let s = clearMotionIntent s;
                      after_zero =
                        (if emergency_stop_latched s then S_kEmergencyStopLatched
                         else if authorized s then S_kRecovering else S_kConnectedInhibited)
                  in (True, beginZeroEpisode ops t after_zero now s)))))"

text \<open>The rejections of \<open>submit\<close> that revoke, clear and stop.\<close>

definition reject_and_inhibit ::
    "'t transport_ops \<Rightarrow> 't \<Rightarrow> int \<Rightarrow> safety_session \<Rightarrow> safety_session" where
  "reject_and_inhibit ops t now s =
     beginZeroEpisode ops t S_kConnectedInhibited now (clearMotionIntent (revokeAuthorization s))"

text \<open>The end of \<open>submit\<close>: the command becomes the current motion intent.\<close>

definition store_command ::
    "timed_motion_command \<Rightarrow> u8 list \<Rightarrow> int \<Rightarrow> safety_session
       \<Rightarrow> submission_status \<times> safety_session" where
  "store_command command frame now s =
     (let s = s\<lparr>latest_command := command, latest_frame := frame, latest_command_valid := True,
                latest_command_receipt_ns := now\<rparr>;
          s = (if consecutive_fresh_commands s < fresh_commands_required (config s)
               then s\<lparr>consecutive_fresh_commands := consecutive_fresh_commands s + 1\<rparr> else s)
      in if consecutive_fresh_commands s \<ge> fresh_commands_required (config s)
         then (Sub_kAccepted, s\<lparr>state := S_kActive\<rparr>)
         else (Sub_kRecoveryPending, s\<lparr>state := S_kRecovering\<rparr>))"

text \<open>\<open>submit\<close> from the check of the motion quantities on.\<close>

definition submit_motion ::
    "'t transport_ops \<Rightarrow> 't \<Rightarrow> timed_motion_command \<Rightarrow> int \<Rightarrow> safety_session
       \<Rightarrow> submission_status \<times> safety_session" where
  "submit_motion ops t command now s =
     (if \<not> isfinite (yaw_rate_radps (motion command))
         \<or> f64_less (max_abs_yaw_rate_radps (config s)) (f64_abs (yaw_rate_radps (motion command)))
         \<or> \<not> f64_eq (lateral_speed_mps (motion command)) f64_zero
      then (Sub_kEncodingRejected, reject_and_inhibit ops t now s)
      else
       (let encoded = encodeCommand (motion command) (safety_config.max_linear_speed_mps (config s))
        in if \<not> enc_ok encoded then (Sub_kEncodingRejected, reject_and_inhibit ops t now s)
           else if commandIsExactZero (motion command)
           then (Sub_kStopAccepted, beginZeroEpisode ops t S_kRecovering now (clearMotionIntent s))
           else if \<not> feedbackIsFresh now s
           then (Sub_kFeedbackUnavailable,
                 beginZeroEpisode ops t S_kRecovering now (clearMotionIntent s))
           else if latest_command_valid s
           then
            (let previous_is_stale =
                   now > deadline_monotonic_ns (latest_command s)
                   \<or> now - latest_command_receipt_ns s > max_command_age_ns (config s)
             in if previous_is_stale
                then store_command command (enc_frame encoded) now (clearMotionIntent s)
                else if created_monotonic_ns command \<le> created_monotonic_ns (latest_command s)
                then (Sub_kTimestampInvalid, reject_and_inhibit ops t now s)
                else store_command command (enc_frame encoded) now s)
           else store_command command (enc_frame encoded) now s))"

definition submit ::
    "'t transport_ops \<Rightarrow> 't \<Rightarrow> timed_motion_command \<Rightarrow> int \<Rightarrow> safety_session
       \<Rightarrow> submission_status \<times> safety_session" where
  "submit ops t command now s =
     (if \<not> configuration_valid s then (Sub_kConfigurationInvalid, s)
      else
       (let (time_ok, s) = observeMonotonicTime now s
        in if \<not> time_ok then (Sub_kTimestampInvalid, handleClockFailure ops t s)
           else
            (let (connection, s) = synchronizeConnection ops t s
             in if connection = Sync_kDisconnected then (Sub_kDisconnected, s)
                else if emergency_stop_latched s then (Sub_kEmergencyStopLatched, s)
                else if state s = S_kFaulted then (Sub_kFaulted, s)
                else if sequence_id command = 0 \<or> sequence_id command \<le> highest_sequence s
                then (Sub_kSequenceInvalid, reject_and_inhibit ops t now s)
                else
                 (let s = s\<lparr>highest_sequence := sequence_id command\<rparr>
                  in if created_monotonic_ns command \<le> 0 \<or> created_monotonic_ns command > now
                        \<or> deadline_monotonic_ns command \<le> created_monotonic_ns command
                     then (Sub_kTimestampInvalid, reject_and_inhibit ops t now s)
                     else if now > deadline_monotonic_ns command
                        \<or> now - created_monotonic_ns command > max_command_age_ns (config s)
                     then
                      (let s = clearMotionIntent s
                       in (Sub_kStale, beginZeroEpisode ops t
                             (if authorized s then S_kRecovering else S_kConnectedInhibited) now s))
                     else if \<not> authorized s \<or> zero_episode_active s \<or> connection = Sync_kNewGeneration
                     then (Sub_kNotAuthorized, clearMotionIntent s)
                     else if created_monotonic_ns command \<le> authorization_monotonic_ns s
                     then (Sub_kPredatesAuthorization,
                           beginZeroEpisode ops t S_kRecovering now (clearMotionIntent s))
                     else submit_motion ops t command now s))))"

definition observeFeedback ::
    "'t transport_ops \<Rightarrow> 't \<Rightarrow> u8 list \<Rightarrow> int \<Rightarrow> safety_session
       \<Rightarrow> feedback_observation_result \<times> safety_session" where
  "observeFeedback ops t frame now s =
     (if \<not> configuration_valid s
      then (\<lparr>obs_status = Obs_kConfigurationInvalid, obs_valid_frame = False, obs_control_allowed = False\<rparr>, s)
      else
       (let (time_ok, s) = observeMonotonicTime now s
        in if \<not> time_ok
           then (\<lparr>obs_status = Obs_kTimestampInvalid, obs_valid_frame = False, obs_control_allowed = False\<rparr>,
                 handleClockFailure ops t s)
           else
            (let (connection, s) = synchronizeConnection ops t s
             in if connection = Sync_kDisconnected
                then (\<lparr>obs_status = Obs_kDisconnected, obs_valid_frame = False, obs_control_allowed = False\<rparr>, s)
                else
                 (let decoded = decodeFeedbackFrame (Some frame)
                  in if \<not> dec_ok decoded
                     then (\<lparr>obs_status = Obs_kFrameInvalid, obs_valid_frame = False,
                            obs_control_allowed = False\<rparr>, s)
                     else if control_allowed (dec_feedback decoded)
                     then (\<lparr>obs_status = Obs_kAcceptedControlAllowed, obs_valid_frame = True,
                            obs_control_allowed = True\<rparr>,
                           s\<lparr>feedback_allowed_seen := True, latest_allowed_feedback_receipt_ns := now\<rparr>)
                     else
                      (let s = s\<lparr>feedback_allowed_seen := False, latest_allowed_feedback_receipt_ns := 0\<rparr>;
                           s = clearMotionIntent (revokeAuthorization s)
                       in (\<lparr>obs_status = Obs_kAcceptedControlInhibited, obs_valid_frame = True,
                            obs_control_allowed = False\<rparr>,
                           beginZeroEpisode ops t (inhibited_or_estop s) now s))))))"

definition latchEmergencyStop ::
    "'t transport_ops \<Rightarrow> 't \<Rightarrow> int \<Rightarrow> safety_session \<Rightarrow> safety_session" where
  "latchEmergencyStop ops t now s =
     (let s = s\<lparr>emergency_stop_latched := True\<rparr>;
          s = (if emergency_stop_latch_generation s \<noteq> uint64_max
               then s\<lparr>emergency_stop_latch_generation := emergency_stop_latch_generation s + 1\<rparr> else s);
          s = clearMotionIntent (revokeAuthorization s);
          s = s\<lparr>feedback_allowed_seen := False, latest_allowed_feedback_receipt_ns := 0\<rparr>
      in if \<not> configuration_valid s then s\<lparr>state := S_kConfigurationInvalid\<rparr>
         else
          (let (time_valid, s) = observeMonotonicTime now s;
               (connection, s) = synchronizeConnection ops t s
           in if connection = Sync_kDisconnected then s
              else if state s = S_kFaulted then s
              else beginZeroEpisode ops t S_kEmergencyStopLatched
                     (if time_valid then now else last_observed_monotonic_ns s) s))"

definition resetEmergencyStop ::
    "'t transport_ops \<Rightarrow> 't \<Rightarrow> u64 \<Rightarrow> int \<Rightarrow> safety_session \<Rightarrow> bool \<times> safety_session" where
  "resetEmergencyStop ops t reset_token now s =
     (if \<not> configuration_valid s \<or> \<not> emergency_stop_latched s then (False, s)
      else
       (let (time_ok, s) = observeMonotonicTime now s
        in if \<not> time_ok then (False, handleClockFailure ops t s)
           else
            (let (connection, s) = synchronizeConnection ops t s
             in if connection \<noteq> Sync_kUnchanged
                   \<or> zero_episode_active s \<or> state s = S_kFaulted
                   \<or> reset_token = 0 \<or> reset_token \<le> highest_estop_reset_token s
                   \<or> \<not> feedbackIsFresh now s
                then (False, s)
                else
                 (let s = s\<lparr>highest_estop_reset_token := reset_token, emergency_stop_latched := False\<rparr>;
                      s = clearMotionIntent (revokeAuthorization s)
                  in (True, s\<lparr>state := S_kConnectedInhibited\<rparr>)))))"

text \<open>The part of \<open>tick\<close> after the motion write.\<close>

definition finishMotion ::
    "'t transport_ops \<Rightarrow> 't \<Rightarrow> int \<Rightarrow> io_result \<Rightarrow> cycle_result \<Rightarrow> safety_session
       \<Rightarrow> (cycle_result \<times> safety_session \<times> 't) option" where
  "finishMotion ops t now write_result result s =
     (let result = result\<lparr>cyc_transport_status := io_status write_result,
            cyc_motion_host_write_complete := host_write_complete write_result,
            cyc_outcome_uncertain := outcome_uncertain write_result\<rparr>
      in if io_status write_result = T_kOk \<and> host_write_complete write_result
            \<and> bytes_transferred write_result = length (latest_frame s)
         then
          (let s = s\<lparr>last_motion_host_write_completion_ns :=
                       (if completion_monotonic_ns write_result > 0
                        then completion_monotonic_ns write_result else now)\<rparr>;
               s = s\<lparr>last_observed_monotonic_ns :=
                       max (last_observed_monotonic_ns s) (last_motion_host_write_completion_ns s)\<rparr>
           in Some (result\<lparr>cyc_action := Cyc_kMotionHostWriteComplete, cyc_state := state s\<rparr>, s, t))
         else
          (let s = clearMotionIntent (revokeAuthorization s)
           in if io_status write_result = T_kDisconnected \<or> \<not> tr_connected ops t
              then
               (let s = handleDisconnect s
                in Some (result\<lparr>cyc_action := Cyc_kDisconnected, cyc_state := state s,
                           cyc_transport_status := T_kDisconnected, cyc_outcome_uncertain := True\<rparr>, s, t))
              else
               (let zero_start_ns = max now (completion_monotonic_ns write_result);
                    s = beginZeroEpisode ops t S_kConnectedInhibited zero_start_ns s
                in attemptZero ops t zero_start_ns result s)))"

definition tick ::
    "'t transport_ops \<Rightarrow> 't \<Rightarrow> int \<Rightarrow> safety_session
       \<Rightarrow> (cycle_result \<times> safety_session \<times> 't) option" where
  "tick ops t now s =
     (let result = defaultCycleResult\<lparr>cyc_state := state s\<rparr>
      in if \<not> configuration_valid s
         then Some (result\<lparr>cyc_action := Cyc_kConfigurationInvalid, cyc_state := S_kConfigurationInvalid,
                      cyc_transport_status := T_kInvalidArgument\<rparr>, s, t)
         else
          (let (time_ok, s) = observeMonotonicTime now s
           in if \<not> time_ok
              then
               (let s = handleClockFailure ops t s
                in Some (result\<lparr>cyc_action := Cyc_kClockInvalid, cyc_state := state s,
                           cyc_transport_status := T_kInvalidArgument, cyc_outcome_uncertain := True\<rparr>, s, t))
              else
               (let (connection, s) = synchronizeConnection ops t s
                in if connection = Sync_kDisconnected
                   then Some (result\<lparr>cyc_action := Cyc_kDisconnected, cyc_state := state s,
                                cyc_transport_status := T_kDisconnected, cyc_outcome_uncertain := True\<rparr>, s, t)
                   else if zero_episode_active s then attemptZero ops t now result s
                   else if state s = S_kFaulted then Some (result\<lparr>cyc_state := state s\<rparr>, s, t)
                   else if emergency_stop_latched s
                   then
                    (let s = s\<lparr>state := S_kEmergencyStopLatched\<rparr>
                     in Some (result\<lparr>cyc_state := state s\<rparr>, s, t))
                   else if state s \<noteq> S_kActive then Some (result\<lparr>cyc_state := state s\<rparr>, s, t)
                   else if \<not> authorized s
                   then attemptZero ops t now result
                          (beginZeroEpisode ops t S_kConnectedInhibited now (clearMotionIntent s))
                   else if \<not> feedbackIsFresh now s \<or> \<not> commandIsFresh now s
                   then attemptZero ops t now result
                          (beginZeroEpisode ops t S_kRecovering now (clearMotionIntent s))
                   else if last_motion_host_write_completion_ns s > 0
                        \<and> now - last_motion_host_write_completion_ns s < transmit_period_ns (config s)
                   then Some (result\<lparr>cyc_action := Cyc_kTransmitRateLimited, cyc_state := state s\<rparr>, s, t)
                   else
                    (case tr_writeAll ops t (latest_frame s)
                            (boundedWriteDeadline now (deadline_monotonic_ns (latest_command s)) s) of
                       None \<Rightarrow> None
                     | Some (out, t) \<Rightarrow>
                         finishMotion ops t now (result_or_exception now out)
                           (result\<lparr>cyc_motion_write_attempted := True\<rparr>) s))))"

end
