(* ===== verification/Safety_Invariant.thy ===== *)
theory Safety_Invariant
  imports Safety_Session
begin

text \<open>
  The well-formedness invariant of a safety session and its preservation by
  every operation.  \<open>core_inv\<close> also holds between the assignments of an
  operation; \<open>session_inv\<close> holds between operations.
\<close>

section \<open>The invariant\<close>

text \<open>
  What \<open>submit\<close> has checked of the command that a session holds as its motion
  intent, and what the stored frame is.
\<close>

definition command_admitted :: "safety_config \<Rightarrow> timed_motion_command \<Rightarrow> u8 list \<Rightarrow> bool" where
  "command_admitted cfg command frame \<longleftrightarrow>
     (let encoded = encodeCommand (motion command) (safety_config.max_linear_speed_mps cfg)
      in enc_ok encoded \<and> frame = enc_frame encoded)
     \<and> isfinite (yaw_rate_radps (motion command))
     \<and> \<not> f64_less (max_abs_yaw_rate_radps cfg) (f64_abs (yaw_rate_radps (motion command)))
     \<and> f64_eq (lateral_speed_mps (motion command)) f64_zero
     \<and> \<not> commandIsExactZero (motion command)
     \<and> 0 < sequence_id command
     \<and> 0 < created_monotonic_ns command
     \<and> created_monotonic_ns command < deadline_monotonic_ns command"

definition intent_inv :: "safety_session \<Rightarrow> bool" where
  "intent_inv s \<longleftrightarrow>
     (latest_command_valid s \<longrightarrow>
        authorization_active s
        \<and> command_admitted (config s) (latest_command s) (latest_frame s)
        \<and> authorization_monotonic_ns s < created_monotonic_ns (latest_command s)
        \<and> created_monotonic_ns (latest_command s) \<le> latest_command_receipt_ns s
        \<and> latest_command_receipt_ns s \<le> last_observed_monotonic_ns s
        \<and> sequence_id (latest_command s) \<le> highest_sequence s
        \<and> \<not> zero_episode_active s)"

definition authorization_inv :: "safety_session \<Rightarrow> bool" where
  "authorization_inv s \<longleftrightarrow>
     (authorization_active s \<longrightarrow>
        connection_known s \<and> authorized_generation s = connection_generation s
           \<and> 0 < authorization_monotonic_ns s
           \<and> authorization_monotonic_ns s \<le> last_observed_monotonic_ns s
           \<and> \<not> emergency_stop_latched s
           \<and> 0 < highest_authorization_token s)
     \<and> (\<not> authorization_active s \<longrightarrow>
           authorized_generation s = 0 \<and> authorization_monotonic_ns s = 0)"

definition episode_inv :: "safety_session \<Rightarrow> bool" where
  "episode_inv s \<longleftrightarrow>
     (zero_episode_active s \<longleftrightarrow> state s = S_kStopPending)
     \<and> (zero_episode_active s \<longrightarrow> zero_attempts s < maximum_zero_attempts (config s)
          \<and> 0 \<le> next_zero_attempt_ns s)
     \<and> state_after_zero s \<in> {S_kConnectedInhibited, S_kRecovering, S_kEmergencyStopLatched}"

definition connection_inv :: "safety_session \<Rightarrow> bool" where
  "connection_inv s \<longleftrightarrow>
     (connection_known s \<longrightarrow> connection_generation s \<noteq> 0)
     \<and> (configuration_valid s \<longrightarrow> safetyConfigIsValid (config s) \<and> transport_present s)
     \<and> (connection_known s \<longrightarrow> configuration_valid s)
     \<and> (connection_known s \<longleftrightarrow> state s \<notin> {S_kDisconnected, S_kConfigurationInvalid})
     \<and> (configuration_valid s \<longleftrightarrow> state s \<noteq> S_kConfigurationInvalid)"

definition clock_inv :: "safety_session \<Rightarrow> bool" where
  "clock_inv s \<longleftrightarrow>
     0 \<le> last_observed_monotonic_ns s
     \<and> 0 \<le> latest_allowed_feedback_receipt_ns s
     \<and> latest_allowed_feedback_receipt_ns s \<le> last_observed_monotonic_ns s
     \<and> (feedback_allowed_seen s \<longleftrightarrow> 0 < latest_allowed_feedback_receipt_ns s)
     \<and> 0 \<le> latest_command_receipt_ns s
     \<and> 0 \<le> last_motion_host_write_completion_ns s
     \<and> last_motion_host_write_completion_ns s \<le> last_observed_monotonic_ns s
     \<and> consecutive_fresh_commands s \<le> fresh_commands_required (config s)
     \<and> length (latest_frame s) = kCommandFrameSize"

definition core_inv :: "safety_session \<Rightarrow> bool" where
  "core_inv s \<longleftrightarrow>
     intent_inv s \<and> authorization_inv s \<and> episode_inv s \<and> connection_inv s \<and> clock_inv s"

definition active_inv :: "safety_session \<Rightarrow> bool" where
  "active_inv s \<longleftrightarrow>
     (state s = S_kActive \<and> authorization_active s \<longrightarrow>
        latest_command_valid s
        \<and> fresh_commands_required (config s) \<le> consecutive_fresh_commands s)"

definition session_inv :: "safety_session \<Rightarrow> bool" where
  "session_inv s \<longleftrightarrow> core_inv s \<and> active_inv s"

lemmas inv_parts = intent_inv_def authorization_inv_def episode_inv_def connection_inv_def
  clock_inv_def active_inv_def

lemma core_invD:
  assumes "core_inv s"
  shows "intent_inv s" "authorization_inv s" "episode_inv s" "connection_inv s" "clock_inv s"
  using assms by (simp_all add: core_inv_def)

lemma core_invI:
  "\<lbrakk>intent_inv s; authorization_inv s; episode_inv s; connection_inv s; clock_inv s\<rbrakk> \<Longrightarrow> core_inv s"
  by (simp add: core_inv_def)

lemma session_invI:
  "\<lbrakk>intent_inv s; authorization_inv s; episode_inv s; connection_inv s; clock_inv s; active_inv s\<rbrakk>
     \<Longrightarrow> session_inv s"
  by (simp add: session_inv_def core_inv_def)

lemma session_invD:
  assumes "session_inv s"
  shows "intent_inv s" "authorization_inv s" "episode_inv s" "connection_inv s" "clock_inv s"
    "active_inv s"
  using assms by (simp_all add: session_inv_def core_inv_def)

lemma session_inv_core: "session_inv s \<Longrightarrow> core_inv s"
  by (simp add: session_inv_def)

section \<open>The private methods\<close>

lemma revoke_fields [simp]:
  "authorization_active (revokeAuthorization s) = False"
  "authorized_generation (revokeAuthorization s) = 0"
  "authorization_monotonic_ns (revokeAuthorization s) = 0"
  "state (revokeAuthorization s) = state s"
  "config (revokeAuthorization s) = config s"
  "configuration_valid (revokeAuthorization s) = configuration_valid s"
  "connection_known (revokeAuthorization s) = connection_known s"
  "connection_generation (revokeAuthorization s) = connection_generation s"
  "transport_present (revokeAuthorization s) = transport_present s"
  "zero_episode_active (revokeAuthorization s) = zero_episode_active s"
  "latest_command_valid (revokeAuthorization s) = latest_command_valid s"
  "emergency_stop_latched (revokeAuthorization s) = emergency_stop_latched s"
  "highest_sequence (revokeAuthorization s) = highest_sequence s"
  "highest_authorization_token (revokeAuthorization s) = highest_authorization_token s"
  "highest_estop_reset_token (revokeAuthorization s) = highest_estop_reset_token s"
  "last_observed_monotonic_ns (revokeAuthorization s) = last_observed_monotonic_ns s"
  "zero_attempts (revokeAuthorization s) = zero_attempts s"
  "emergency_stop_latch_generation (revokeAuthorization s) = emergency_stop_latch_generation s"
  by (simp_all add: revokeAuthorization_def)

lemma clear_fields [simp]:
  "latest_command_valid (clearMotionIntent s) = False"
  "consecutive_fresh_commands (clearMotionIntent s) = 0"
  "authorization_active (clearMotionIntent s) = authorization_active s"
  "authorized_generation (clearMotionIntent s) = authorized_generation s"
  "authorization_monotonic_ns (clearMotionIntent s) = authorization_monotonic_ns s"
  "state (clearMotionIntent s) = state s"
  "config (clearMotionIntent s) = config s"
  "configuration_valid (clearMotionIntent s) = configuration_valid s"
  "connection_known (clearMotionIntent s) = connection_known s"
  "connection_generation (clearMotionIntent s) = connection_generation s"
  "transport_present (clearMotionIntent s) = transport_present s"
  "zero_episode_active (clearMotionIntent s) = zero_episode_active s"
  "emergency_stop_latched (clearMotionIntent s) = emergency_stop_latched s"
  "highest_sequence (clearMotionIntent s) = highest_sequence s"
  "highest_authorization_token (clearMotionIntent s) = highest_authorization_token s"
  "highest_estop_reset_token (clearMotionIntent s) = highest_estop_reset_token s"
  "last_observed_monotonic_ns (clearMotionIntent s) = last_observed_monotonic_ns s"
  "zero_attempts (clearMotionIntent s) = zero_attempts s"
  "emergency_stop_latch_generation (clearMotionIntent s) = emergency_stop_latch_generation s"
  by (simp_all add: clearMotionIntent_def)

lemma core_inv_revoke_clear:
  assumes "core_inv s"
  shows "core_inv (clearMotionIntent (revokeAuthorization s))"
  using core_invD [OF assms]
  by (intro core_invI)
     (simp_all add: inv_parts clearMotionIntent_def revokeAuthorization_def kCommandFrameSize_def)

lemma core_inv_clear:
  assumes "core_inv s"
  shows "core_inv (clearMotionIntent s)"
  using core_invD [OF assms]
  by (intro core_invI)
     (simp_all add: inv_parts clearMotionIntent_def kCommandFrameSize_def)

lemma session_inv_revoke_clear:
  "core_inv s \<Longrightarrow> session_inv (clearMotionIntent (revokeAuthorization s))"
  by (simp add: session_inv_def core_inv_revoke_clear active_inv_def)

text \<open>Opening a zero episode restores the full invariant once the intent is cleared.\<close>

lemma beginZeroEpisode_faulted:
  "\<lbrakk>connection_known s; transport_present s; tr_connected ops t; state s = S_kFaulted\<rbrakk>
     \<Longrightarrow> beginZeroEpisode ops t after_zero earliest s = s"
  by (simp add: beginZeroEpisode_def)

lemma beginZeroEpisode_running:
  assumes "connection_known s" "transport_present s" "tr_connected ops t" "zero_episode_active s"
  shows "beginZeroEpisode ops t after_zero earliest s = s
         \<or> beginZeroEpisode ops t after_zero earliest s = s\<lparr>state_after_zero := after_zero\<rparr>"
  using assms unfolding beginZeroEpisode_def by simp

lemma beginZeroEpisode_fresh:
  assumes "connection_known s" "transport_present s" "tr_connected ops t"
    and "state s \<noteq> S_kFaulted" "\<not> zero_episode_active s"
  shows "beginZeroEpisode ops t after_zero earliest s =
           s\<lparr>zero_episode_active := True, state_after_zero := after_zero, zero_attempts := 0,
             next_zero_attempt_ns := max 0 earliest, state := S_kStopPending\<rparr>"
  using assms by (simp add: beginZeroEpisode_def)

lemma beginZeroEpisode_inv:
  assumes inv: "core_inv s" and cleared: "\<not> latest_command_valid s"
    and up: "connection_known s" "tr_connected ops t"
    and after: "after_zero \<in> {S_kConnectedInhibited, S_kRecovering, S_kEmergencyStopLatched}"
  shows "session_inv (beginZeroEpisode ops t after_zero earliest s)"
proof -
  have present: "transport_present s" and cfg: "safetyConfigIsValid (config s)"
    using inv up by (simp_all add: core_inv_def connection_inv_def)
  have attempts: "0 < maximum_zero_attempts (config s)"
    using cfg by (simp add: safetyConfigIsValid_def)
  note parts = core_invD [OF inv]
  consider (faulted) "state s = S_kFaulted" | (running) "zero_episode_active s"
    | (fresh) "state s \<noteq> S_kFaulted" "\<not> zero_episode_active s"
    by blast
  then show ?thesis
  proof cases
    case faulted
    with inv up present show ?thesis
      by (simp add: beginZeroEpisode_faulted session_inv_def active_inv_def)
  next
    case running
    then have stop: "state s = S_kStopPending"
      using parts(3) by (simp add: episode_inv_def)
    have "session_inv s"
      using inv stop by (simp add: session_inv_def active_inv_def)
    moreover have "session_inv (s\<lparr>state_after_zero := after_zero\<rparr>)"
      using parts after cleared stop running by (intro session_invI) (simp_all add: inv_parts)
    ultimately show ?thesis
      using beginZeroEpisode_running [OF up(1) present up(2) running, of after_zero earliest] by auto
  next
    case fresh
    show ?thesis
      unfolding beginZeroEpisode_fresh [OF up(1) present up(2) fresh]
      using parts after cleared attempts up fresh by (intro session_invI) (simp_all add: inv_parts)
  qed
qed

lemma inhibited_or_estop_after [simp]:
  "inhibited_or_estop s \<in> {S_kConnectedInhibited, S_kRecovering, S_kEmergencyStopLatched}"
  by (simp add: inhibited_or_estop_def)

lemma handleDisconnect_inv:
  assumes "core_inv s" "configuration_valid s"
  shows "session_inv (handleDisconnect s)"
  using core_invD [OF assms(1)] assms(2)
  by (intro session_invI)
     (simp_all add: inv_parts handleDisconnect_def Let_def clearMotionIntent_def
       revokeAuthorization_def kCommandFrameSize_def)

lemma handleNewConnection_inv:
  assumes "core_inv s" "configuration_valid s" "generation \<noteq> 0" "tr_connected ops t"
  shows "session_inv (handleNewConnection ops t generation s)"
proof -
  let ?s = "clearMotionIntent (revokeAuthorization (s\<lparr>connection_known := True,
              connection_generation := generation\<rparr>))
              \<lparr>feedback_allowed_seen := False, latest_allowed_feedback_receipt_ns := 0,
               zero_episode_active := False, zero_attempts := 0, next_zero_attempt_ns := 0,
               last_motion_host_write_completion_ns := 0, state := S_kConnectedInhibited\<rparr>"
  have "core_inv ?s"
    using core_invD [OF assms(1)] assms
    by (intro core_invI)
       (simp_all add: inv_parts clearMotionIntent_def revokeAuthorization_def kCommandFrameSize_def)
  then show ?thesis
    unfolding handleNewConnection_def Let_def
    by (rule beginZeroEpisode_inv)
       (use assms inhibited_or_estop_after in \<open>simp_all add: clearMotionIntent_def revokeAuthorization_def\<close>)
qed

lemma synchronizeConnection_inv:
  assumes inv: "session_inv s" and valid: "configuration_valid s"
  shows "session_inv (snd (synchronizeConnection ops t s))"
proof (cases "\<not> transport_present s \<or> \<not> tr_connected ops t \<or> tr_generation ops t = 0")
  case True
  then show ?thesis
    using handleDisconnect_inv [OF session_inv_core [OF inv] valid]
    by (simp add: synchronizeConnection_def)
next
  case False
  then show ?thesis
    using handleNewConnection_inv [OF session_inv_core [OF inv] valid, of "tr_generation ops t" ops t]
      inv
    by (simp add: synchronizeConnection_def Let_def)
qed

lemma observe_inv:
  assumes inv: "session_inv s"
  shows "session_inv (snd (observeMonotonicTime now s))"
proof (cases "last_observed_monotonic_ns s < now")
  case True
  with session_invD [OF inv] have "session_inv (s\<lparr>last_observed_monotonic_ns := now\<rparr>)"
    by (intro session_invI)
       (auto simp: inv_parts)
  with inv show ?thesis by (simp add: observeMonotonicTime_def)
qed (use inv in \<open>simp add: observeMonotonicTime_def\<close>)

lemma handleClockFailure_inv:
  assumes inv: "session_inv s"
  shows "session_inv (handleClockFailure ops t s)"
proof -
  let ?s = "clearMotionIntent (revokeAuthorization s)
              \<lparr>feedback_allowed_seen := False, latest_allowed_feedback_receipt_ns := 0\<rparr>"
  have core: "core_inv ?s"
    using core_invD [OF core_inv_revoke_clear [OF session_inv_core [OF inv]]]
    by (intro core_invI)
       (auto simp: inv_parts)
  then have "session_inv ?s"
    by (simp add: session_inv_def active_inv_def)
  moreover have "session_inv (beginZeroEpisode ops t (inhibited_or_estop ?s) earliest ?s)"
    if "connection_known s" "tr_connected ops t" for earliest
    using beginZeroEpisode_inv [OF core _ _ that(2) inhibited_or_estop_after] that by simp
  ultimately show ?thesis
    by (simp add: handleClockFailure_def Let_def)
qed

section \<open>The common entry of the operations\<close>

text \<open>
  Every public operation of a valid session first observes the clock and then
  the connection.  \<open>entered\<close> is the case in which both pass; \<open>s1\<close> is the session
  at that point.
\<close>

definition entered ::
    "'t transport_ops \<Rightarrow> 't \<Rightarrow> int \<Rightarrow> safety_session \<Rightarrow> connection_sync \<Rightarrow> safety_session \<Rightarrow> bool" where
  "entered ops t now s conn s1 \<longleftrightarrow>
     configuration_valid s \<and> fst (observeMonotonicTime now s)
     \<and> synchronizeConnection ops t (snd (observeMonotonicTime now s)) = (conn, s1)
     \<and> conn \<noteq> Sync_kDisconnected"

lemma observe_fields [simp]:
  "config (snd (observeMonotonicTime now s)) = config s"
  "configuration_valid (snd (observeMonotonicTime now s)) = configuration_valid s"
  "transport_present (snd (observeMonotonicTime now s)) = transport_present s"
  "connection_known (snd (observeMonotonicTime now s)) = connection_known s"
  "emergency_stop_latched (snd (observeMonotonicTime now s)) = emergency_stop_latched s"
  "state (snd (observeMonotonicTime now s)) = state s"
  "highest_sequence (snd (observeMonotonicTime now s)) = highest_sequence s"
  "highest_authorization_token (snd (observeMonotonicTime now s)) = highest_authorization_token s"
  "highest_estop_reset_token (snd (observeMonotonicTime now s)) = highest_estop_reset_token s"
  "emergency_stop_latch_generation (snd (observeMonotonicTime now s)) =
     emergency_stop_latch_generation s"
  by (simp_all add: observeMonotonicTime_def)

lemma begin_fields [simp]:
  "config (beginZeroEpisode ops t a e s) = config s"
  "configuration_valid (beginZeroEpisode ops t a e s) = configuration_valid s"
  "transport_present (beginZeroEpisode ops t a e s) = transport_present s"
  "connection_known (beginZeroEpisode ops t a e s) = connection_known s"
  "connection_generation (beginZeroEpisode ops t a e s) = connection_generation s"
  "emergency_stop_latched (beginZeroEpisode ops t a e s) = emergency_stop_latched s"
  "highest_sequence (beginZeroEpisode ops t a e s) = highest_sequence s"
  "highest_authorization_token (beginZeroEpisode ops t a e s) = highest_authorization_token s"
  "highest_estop_reset_token (beginZeroEpisode ops t a e s) = highest_estop_reset_token s"
  "emergency_stop_latch_generation (beginZeroEpisode ops t a e s) = emergency_stop_latch_generation s"
  "last_observed_monotonic_ns (beginZeroEpisode ops t a e s) = last_observed_monotonic_ns s"
  "authorization_active (beginZeroEpisode ops t a e s) = authorization_active s"
  "latest_command_valid (beginZeroEpisode ops t a e s) = latest_command_valid s"
  by (simp_all add: beginZeroEpisode_def)

lemma disconnect_fields [simp]:
  "config (handleDisconnect s) = config s"
  "configuration_valid (handleDisconnect s) = configuration_valid s"
  "transport_present (handleDisconnect s) = transport_present s"
  "connection_known (handleDisconnect s) = False"
  "emergency_stop_latched (handleDisconnect s) = emergency_stop_latched s"
  "highest_sequence (handleDisconnect s) = highest_sequence s"
  "highest_authorization_token (handleDisconnect s) = highest_authorization_token s"
  "highest_estop_reset_token (handleDisconnect s) = highest_estop_reset_token s"
  "emergency_stop_latch_generation (handleDisconnect s) = emergency_stop_latch_generation s"
  "last_observed_monotonic_ns (handleDisconnect s) = last_observed_monotonic_ns s"
  "authorization_active (handleDisconnect s) = False"
  "latest_command_valid (handleDisconnect s) = False"
  "zero_episode_active (handleDisconnect s) = False"
  by (simp_all add: handleDisconnect_def Let_def)

lemma new_connection_fields [simp]:
  "config (handleNewConnection ops t g s) = config s"
  "configuration_valid (handleNewConnection ops t g s) = configuration_valid s"
  "transport_present (handleNewConnection ops t g s) = transport_present s"
  "connection_known (handleNewConnection ops t g s) = True"
  "connection_generation (handleNewConnection ops t g s) = g"
  "emergency_stop_latched (handleNewConnection ops t g s) = emergency_stop_latched s"
  "highest_sequence (handleNewConnection ops t g s) = highest_sequence s"
  "highest_authorization_token (handleNewConnection ops t g s) = highest_authorization_token s"
  "highest_estop_reset_token (handleNewConnection ops t g s) = highest_estop_reset_token s"
  "emergency_stop_latch_generation (handleNewConnection ops t g s) = emergency_stop_latch_generation s"
  "last_observed_monotonic_ns (handleNewConnection ops t g s) = last_observed_monotonic_ns s"
  "authorization_active (handleNewConnection ops t g s) = False"
  "latest_command_valid (handleNewConnection ops t g s) = False"
  by (simp_all add: handleNewConnection_def Let_def)

lemma sync_fields [simp]:
  "config (snd (synchronizeConnection ops t s)) = config s"
  "configuration_valid (snd (synchronizeConnection ops t s)) = configuration_valid s"
  "transport_present (snd (synchronizeConnection ops t s)) = transport_present s"
  "emergency_stop_latched (snd (synchronizeConnection ops t s)) = emergency_stop_latched s"
  "highest_sequence (snd (synchronizeConnection ops t s)) = highest_sequence s"
  "highest_authorization_token (snd (synchronizeConnection ops t s)) = highest_authorization_token s"
  "highest_estop_reset_token (snd (synchronizeConnection ops t s)) = highest_estop_reset_token s"
  "emergency_stop_latch_generation (snd (synchronizeConnection ops t s)) =
     emergency_stop_latch_generation s"
  "last_observed_monotonic_ns (snd (synchronizeConnection ops t s)) = last_observed_monotonic_ns s"
  by (simp_all add: synchronizeConnection_def Let_def)

lemma clock_failure_fields [simp]:
  "config (handleClockFailure ops t s) = config s"
  "configuration_valid (handleClockFailure ops t s) = configuration_valid s"
  "transport_present (handleClockFailure ops t s) = transport_present s"
  "connection_known (handleClockFailure ops t s) = connection_known s"
  "emergency_stop_latched (handleClockFailure ops t s) = emergency_stop_latched s"
  "highest_sequence (handleClockFailure ops t s) = highest_sequence s"
  "highest_authorization_token (handleClockFailure ops t s) = highest_authorization_token s"
  "highest_estop_reset_token (handleClockFailure ops t s) = highest_estop_reset_token s"
  "emergency_stop_latch_generation (handleClockFailure ops t s) = emergency_stop_latch_generation s"
  "last_observed_monotonic_ns (handleClockFailure ops t s) = last_observed_monotonic_ns s"
  "authorization_active (handleClockFailure ops t s) = False"
  "latest_command_valid (handleClockFailure ops t s) = False"
  by (simp_all add: handleClockFailure_def Let_def)

lemma observe_ok:
  assumes "observeMonotonicTime now s = (True, s')" "0 \<le> last_observed_monotonic_ns s"
  shows "s' = s\<lparr>last_observed_monotonic_ns := now\<rparr>" "0 < now"
    "last_observed_monotonic_ns s \<le> now"
  using assms by (auto simp: observeMonotonicTime_def split: if_splits)

lemma observe_fails [simp]:
  "\<not> fst (observeMonotonicTime now s) \<Longrightarrow> observeMonotonicTime now s = (False, s)"
  by (auto simp: observeMonotonicTime_def split: if_splits)

lemma handleNewConnection_zero:
  assumes "transport_present s" "tr_connected ops t"
  shows "zero_episode_active (handleNewConnection ops t g s)"
    "state (handleNewConnection ops t g s) = S_kStopPending"
    "zero_attempts (handleNewConnection ops t g s) = 0"
    "next_zero_attempt_ns (handleNewConnection ops t g s) = 0"
  using assms by (simp_all add: handleNewConnection_def Let_def beginZeroEpisode_def
      clearMotionIntent_def revokeAuthorization_def)

lemma entered_facts:
  assumes inv: "session_inv s" and ent: "entered ops t now s conn s1"
  shows entered_inv: "session_inv s1"
    and entered_known: "connection_known s1"
    and entered_connected: "tr_connected ops t"
    and entered_valid: "configuration_valid s1"
    and entered_present: "transport_present s1"
    and entered_clock: "last_observed_monotonic_ns s1 = now"
    and entered_now: "0 < now" "last_observed_monotonic_ns s \<le> now"
    and entered_generation: "connection_generation s1 = tr_generation ops t" "tr_generation ops t \<noteq> 0"
    and entered_new: "conn = Sync_kNewGeneration \<Longrightarrow>
          zero_episode_active s1 \<and> zero_attempts s1 = 0 \<and> \<not> authorization_active s1
          \<and> next_zero_attempt_ns s1 = 0"
    and entered_same: "conn = Sync_kUnchanged \<Longrightarrow> s1 = s\<lparr>last_observed_monotonic_ns := now\<rparr>"
    and entered_frame: "config s1 = config s" "highest_sequence s1 = highest_sequence s"
      "highest_authorization_token s1 = highest_authorization_token s"
      "highest_estop_reset_token s1 = highest_estop_reset_token s"
      "emergency_stop_latched s1 = emergency_stop_latched s"
      "emergency_stop_latch_generation s1 = emergency_stop_latch_generation s"
proof -
  obtain so where so: "observeMonotonicTime now s = (True, so)" "so = snd (observeMonotonicTime now s)"
    using ent by (cases "observeMonotonicTime now s") (auto simp: entered_def)
  have clk: "0 \<le> last_observed_monotonic_ns s"
    using session_invD(5) [OF inv] by (simp add: clock_inv_def)
  have valid: "configuration_valid s" using ent by (simp add: entered_def)
  then have valid': "configuration_valid so" using so(2) by simp
  have inv': "session_inv so" using observe_inv [OF inv] so(2) by simp
  have sync: "synchronizeConnection ops t so = (conn, s1)" "conn \<noteq> Sync_kDisconnected"
    using ent so(2) by (simp_all add: entered_def)
  have s1: "s1 = snd (synchronizeConnection ops t so)" using sync by simp
  note eq = observe_ok [OF so(1) clk]
  have up: "transport_present so" "tr_connected ops t" "tr_generation ops t \<noteq> 0"
    using sync by (auto simp: synchronizeConnection_def split: if_splits)
  show "session_inv s1" unfolding s1 by (rule synchronizeConnection_inv [OF inv' valid'])
  show "connection_known s1" "connection_generation s1 = tr_generation ops t"
    using sync by (auto simp: synchronizeConnection_def Let_def split: if_splits)
  show "tr_connected ops t" "tr_generation ops t \<noteq> 0" using up by simp_all
  show "configuration_valid s1" "transport_present s1" unfolding s1 using valid' up by simp_all
  show "last_observed_monotonic_ns s1 = now" unfolding s1 using eq by simp
  show "0 < now" "last_observed_monotonic_ns s \<le> now" using eq by simp_all
  show "zero_episode_active s1 \<and> zero_attempts s1 = 0 \<and> \<not> authorization_active s1
          \<and> next_zero_attempt_ns s1 = 0"
    if "conn = Sync_kNewGeneration"
    using sync up that
    by (auto simp: synchronizeConnection_def Let_def handleNewConnection_zero split: if_splits)
  show "s1 = s\<lparr>last_observed_monotonic_ns := now\<rparr>" if "conn = Sync_kUnchanged"
    using sync that eq by (auto simp: synchronizeConnection_def Let_def split: if_splits)
  show "config s1 = config s" "highest_sequence s1 = highest_sequence s"
    "highest_authorization_token s1 = highest_authorization_token s"
    "highest_estop_reset_token s1 = highest_estop_reset_token s"
    "emergency_stop_latched s1 = emergency_stop_latched s"
    "emergency_stop_latch_generation s1 = emergency_stop_latch_generation s"
    unfolding s1 so(2) by simp_all
qed

text \<open>The four ways an operation can start.\<close>

lemma entry_cases:
  obtains (invalid) "\<not> configuration_valid s"
  | (clock) "configuration_valid s" "observeMonotonicTime now s = (False, s)"
  | (down) so where "configuration_valid s" "observeMonotonicTime now s = (True, so)"
      "synchronizeConnection ops t so = (Sync_kDisconnected, handleDisconnect so)"
  | (up) so conn s1 where "configuration_valid s" "observeMonotonicTime now s = (True, so)"
      "synchronizeConnection ops t so = (conn, s1)" "conn \<noteq> Sync_kDisconnected"
      "entered ops t now s conn s1"
proof -
  obtain ok so where o: "observeMonotonicTime now s = (ok, so)" by fastforce
  obtain conn s1 where c: "synchronizeConnection ops t so = (conn, s1)" by fastforce
  show thesis
  proof (cases "configuration_valid s")
    case False then show thesis by (rule invalid)
  next
    case valid: True
    show thesis
    proof (cases ok)
      case False
      with o valid show thesis
        using observe_fails [of now s] by (intro clock) auto
    next
      case True
      show thesis
      proof (cases "conn = Sync_kDisconnected")
        case True
        with c have "s1 = handleDisconnect so"
          by (auto simp: synchronizeConnection_def Let_def split: if_splits)
        with c True o \<open>ok\<close> valid show thesis by (intro down) auto
      next
        case False
        with c o \<open>ok\<close> valid show thesis by (intro up) (auto simp: entered_def)
      qed
    qed
  qed
qed

section \<open>The operations keep the invariant\<close>

lemma down_inv:
  assumes "session_inv s" "configuration_valid s" "observeMonotonicTime now s = (ok, so)"
  shows "session_inv (handleDisconnect so)"
proof -
  have "so = snd (observeMonotonicTime now s)" using assms by simp
  then show ?thesis
    using handleDisconnect_inv [OF session_inv_core [OF observe_inv [OF assms(1), of now]]] assms(2)
    by simp
qed

lemma reject_and_inhibit_inv:
  assumes "session_inv s" "connection_known s" "tr_connected ops t"
  shows "session_inv (reject_and_inhibit ops t now s)"
  unfolding reject_and_inhibit_def
  by (rule beginZeroEpisode_inv)
     (use assms core_inv_revoke_clear [OF session_inv_core] in simp_all)

lemma clear_and_stop_inv:
  assumes "session_inv s" "connection_known s" "tr_connected ops t"
    and "a \<in> {S_kConnectedInhibited, S_kRecovering, S_kEmergencyStopLatched}"
  shows "session_inv (beginZeroEpisode ops t a e (clearMotionIntent s))"
  by (rule beginZeroEpisode_inv)
     (use assms core_inv_clear [OF session_inv_core] in simp_all)

lemma revoke_and_stop_inv:
  assumes "session_inv s" "connection_known s" "tr_connected ops t"
    and "a \<in> {S_kConnectedInhibited, S_kRecovering, S_kEmergencyStopLatched}"
  shows "session_inv (beginZeroEpisode ops t a e (clearMotionIntent (revokeAuthorization s)))"
  by (rule beginZeroEpisode_inv)
     (use assms core_inv_revoke_clear [OF session_inv_core] in simp_all)

lemma authorize_inv:
  assumes inv: "session_inv s"
  shows "session_inv (snd (authorize ops t token now s))"
proof (cases rule: entry_cases [where s = s and now = now and ops = ops and t = t])
  case (up so conn s1)
  note ent = entered_facts [OF inv up(5)]
  have auth: "session_inv (clearMotionIntent
      (s1\<lparr>highest_authorization_token := token, authorization_active := True,
          authorized_generation := connection_generation s1,
          authorization_monotonic_ns := now\<rparr>)\<lparr>state := S_kRecovering\<rparr>)"
    if "\<not> emergency_stop_latched s1" "state s1 \<noteq> S_kFaulted" "\<not> zero_episode_active s1"
      "token \<noteq> 0"
    using session_invD [OF ent(1)] that ent(2-7)
    by (intro session_invI)
       (simp_all add: inv_parts clearMotionIntent_def kCommandFrameSize_def word_neq_0_conv)
  show ?thesis
    using up ent(1) auth by (simp add: authorize_def Let_def)
qed (use inv in \<open>simp_all add: authorize_def handleClockFailure_inv down_inv\<close>)

lemma disarm_inv:
  assumes inv: "session_inv s"
  shows "session_inv (snd (disarm ops t now s))"
proof (cases rule: entry_cases [where s = s and now = now and ops = ops and t = t])
  case (up so conn s1)
  note ent = entered_facts [OF inv up(5)]
  show ?thesis
    using up ent(1) revoke_and_stop_inv [OF ent(1-3) inhibited_or_estop_after]
    by (simp add: disarm_def Let_def)
qed (use inv in \<open>simp_all add: disarm_def handleClockFailure_inv down_inv\<close>)

lemma requestStop_inv:
  assumes inv: "session_inv s"
  shows "session_inv (snd (requestStop ops t now s))"
proof (cases rule: entry_cases [where s = s and now = now and ops = ops and t = t])
  case (up so conn s1)
  note ent = entered_facts [OF inv up(5)]
  show ?thesis
    using up ent(1) clear_and_stop_inv [OF ent(1-3)]
    by (simp add: requestStop_def Let_def)
qed (use inv in \<open>simp_all add: requestStop_def handleClockFailure_inv down_inv\<close>)

lemma store_command_inv:
  assumes inv: "session_inv s" and auth: "authorization_active s" and up: "connection_known s"
    and zero: "\<not> zero_episode_active s" and faulted: "state s \<noteq> S_kFaulted"
    and adm: "command_admitted (config s) command frame"
    and later: "authorization_monotonic_ns s < created_monotonic_ns command"
    and receipt: "created_monotonic_ns command \<le> now" "now \<le> last_observed_monotonic_ns s" "0 \<le> now"
    and seq: "sequence_id command \<le> highest_sequence s"
  shows "session_inv (snd (store_command command frame now s))"
proof -
  note parts = session_invD [OF inv]
  have len: "length frame = kCommandFrameSize"
    using adm encode_frame_length by (auto simp: command_admitted_def Let_def)
  have required: "safetyConfigIsValid (config s)"
    using parts(4) up by (simp add: connection_inv_def)
  then have "unat (fresh_commands_required (config s)) \<le> 100"
    by (simp add: safetyConfigIsValid_def word_le_nat_alt)
  then have inc: "consecutive_fresh_commands s + 1 \<le> fresh_commands_required (config s)"
    if "consecutive_fresh_commands s < fresh_commands_required (config s)"
    using that by (simp add: inc_le)
  show ?thesis
    using parts auth up zero faulted adm later receipt seq len inc
    by (intro session_invI) (auto simp: inv_parts store_command_def Let_def not_le)
qed

lemma authorizedD:
  assumes "authorized s"
  shows "authorization_active s" "state s \<noteq> S_kFaulted" "\<not> emergency_stop_latched s"
    "connection_known s" "authorized_generation s = connection_generation s"
  using assms by (simp_all add: authorized_def)

lemma session_inv_clear:
  assumes "session_inv s" "\<not> authorization_active s \<or> state s \<noteq> S_kActive"
  shows "session_inv (clearMotionIntent s)"
  using assms core_inv_clear [OF session_inv_core [OF assms(1)]]
  by (auto simp: session_inv_def active_inv_def)

lemma submit_motion_inv:
  assumes inv: "session_inv s" and auth: "authorized s" and up: "tr_connected ops t"
    and zero: "\<not> zero_episode_active s"
    and later: "authorization_monotonic_ns s < created_monotonic_ns command"
    and receipt: "created_monotonic_ns command \<le> now" "last_observed_monotonic_ns s = now" "0 < now"
    and dl: "created_monotonic_ns command < deadline_monotonic_ns command"
    and seq: "sequence_id command = highest_sequence s" "0 < sequence_id command"
    and created: "0 < created_monotonic_ns command"
  shows "session_inv (snd (submit_motion ops t command now s))"
proof -
  note a = authorizedD [OF auth]
  note rej = reject_and_inhibit_inv [OF inv a(4) up]
  note stop = clear_and_stop_inv [OF inv a(4) up]
  let ?enc = "encodeCommand (motion command) (safety_config.max_linear_speed_mps (config s))"
  have store: "session_inv (snd (store_command command (enc_frame ?enc) now s'))"
    if "enc_ok ?enc" "isfinite (yaw_rate_radps (motion command))"
      "\<not> f64_less (max_abs_yaw_rate_radps (config s)) (f64_abs (yaw_rate_radps (motion command)))"
      "f64_eq (lateral_speed_mps (motion command)) f64_zero" "\<not> commandIsExactZero (motion command)"
      "session_inv s'" "s' = s \<or> s' = clearMotionIntent s" for s'
  proof (rule store_command_inv)
    show "command_admitted (config s') command (enc_frame ?enc)"
      using that seq created dl by (auto simp: command_admitted_def Let_def)
  qed (use that a zero later receipt seq in auto)
  have cleared: "session_inv (snd (store_command command (enc_frame ?enc) now (clearMotionIntent s)))"
    if "enc_ok ?enc" "isfinite (yaw_rate_radps (motion command))"
      "\<not> f64_less (max_abs_yaw_rate_radps (config s)) (f64_abs (yaw_rate_radps (motion command)))"
      "f64_eq (lateral_speed_mps (motion command)) f64_zero" "\<not> commandIsExactZero (motion command)"
  proof -
    have "session_inv (clearMotionIntent (s\<lparr>state := S_kRecovering\<rparr>))"
      using core_inv_clear [OF session_inv_core [OF inv]] a zero
        session_invD(3,4) [OF inv]
      by (auto simp: session_inv_def core_inv_def inv_parts clearMotionIntent_def)
    moreover have "store_command command (enc_frame ?enc) now (clearMotionIntent s)
        = store_command command (enc_frame ?enc) now (clearMotionIntent (s\<lparr>state := S_kRecovering\<rparr>))"
      by (simp add: store_command_def Let_def clearMotionIntent_def)
    ultimately show ?thesis
      using store_command_inv [of "clearMotionIntent (s\<lparr>state := S_kRecovering\<rparr>)" command "enc_frame ?enc" now]
        that a zero later receipt seq created dl
      by (auto simp: command_admitted_def Let_def)
  qed
  show ?thesis
    using rej stop cleared store [OF _ _ _ _ _ inv]
    by (simp add: submit_motion_def Let_def)
qed

lemma submit_inv:
  assumes inv: "session_inv s"
  shows "session_inv (snd (submit ops t command now s))"
proof (cases rule: entry_cases [where s = s and now = now and ops = ops and t = t])
  case (up so conn s1)
  note ent = entered_facts [OF inv up(5)]
  let ?s2 = "s1\<lparr>highest_sequence := sequence_id command\<rparr>"
  have seq_inv: "session_inv ?s2" if "highest_sequence s1 < sequence_id command"
    using session_invD [OF ent(1)] that
    by (intro session_invI) (auto simp: inv_parts)
  have not_auth: "session_inv (clearMotionIntent ?s2)"
    if "highest_sequence s1 < sequence_id command"
      "\<not> authorized ?s2 \<or> zero_episode_active ?s2 \<or> conn = Sync_kNewGeneration"
      "\<not> emergency_stop_latched s1" "state s1 \<noteq> S_kFaulted"
  proof (rule session_inv_clear [OF seq_inv [OF that(1)]])
    show "\<not> authorization_active ?s2 \<or> state ?s2 \<noteq> S_kActive"
      using that ent(2,4,11) session_invD(2,3) [OF ent(1)]
      by (auto simp: authorized_def authorization_inv_def episode_inv_def)
  qed
  have same: "connection_known ?s2" using ent(2) by simp
  have motion: "session_inv (snd (submit_motion ops t command now ?s2))"
    if "highest_sequence s1 < sequence_id command" "authorized ?s2" "\<not> zero_episode_active ?s2"
      "authorization_monotonic_ns s1 < created_monotonic_ns command"
      "0 < created_monotonic_ns command" "created_monotonic_ns command \<le> now"
      "created_monotonic_ns command < deadline_monotonic_ns command"
  proof (rule submit_motion_inv [OF seq_inv [OF that(1)] that(2) ent(3) that(3)])
    show "0 < sequence_id command" using that(1) by (meson le_less_trans word_zero_le)
  qed (use that ent in auto)
  show ?thesis
  proof (cases "sequence_id command = 0 \<or> sequence_id command \<le> highest_sequence s1")
    case True
    then show ?thesis
      using up ent(1) reject_and_inhibit_inv [OF ent(1-3)]
      by (simp add: submit_def)
  next
    case False
    then have seq: "highest_sequence s1 < sequence_id command" by auto
    note rej = reject_and_inhibit_inv [OF seq_inv [OF seq] same ent(3)]
    note stop = clear_and_stop_inv [OF seq_inv [OF seq] same ent(3)]
    show ?thesis
      using up(1-4) ent(1) rej stop not_auth [OF seq] motion [OF seq] False
      by (simp add: submit_def Let_def)
  qed
qed (use inv in \<open>simp_all add: submit_def handleClockFailure_inv down_inv\<close>)

lemma observeFeedback_inv:
  assumes inv: "session_inv s"
  shows "session_inv (snd (observeFeedback ops t frame now s))"
proof (cases rule: entry_cases [where s = s and now = now and ops = ops and t = t])
  case (up so conn s1)
  note ent = entered_facts [OF inv up(5)]
  have allowed: "session_inv (s1\<lparr>feedback_allowed_seen := True,
                                latest_allowed_feedback_receipt_ns := now\<rparr>)"
    using session_invD [OF ent(1)] ent by (intro session_invI) (simp_all add: inv_parts)
  have inhibited: "session_inv (s1\<lparr>feedback_allowed_seen := False,
                                latest_allowed_feedback_receipt_ns := 0\<rparr>)"
    using session_invD [OF ent(1)] ent by (intro session_invI) (simp_all add: inv_parts)
  show ?thesis
    using up(1-4) ent(1) allowed
      revoke_and_stop_inv [OF inhibited _ ent(3) inhibited_or_estop_after] ent(2)
    by (simp add: observeFeedback_def Let_def)
qed (use inv in \<open>simp_all add: observeFeedback_def handleClockFailure_inv down_inv\<close>)

text \<open>\<open>latchEmergencyStop\<close> after its unconditional assignments.\<close>

definition latched_session :: "safety_session \<Rightarrow> safety_session" where
  "latched_session s =
     (let s = s\<lparr>emergency_stop_latched := True\<rparr>;
          s = (if emergency_stop_latch_generation s \<noteq> uint64_max
               then s\<lparr>emergency_stop_latch_generation := emergency_stop_latch_generation s + 1\<rparr> else s);
          s = clearMotionIntent (revokeAuthorization s)
      in s\<lparr>feedback_allowed_seen := False, latest_allowed_feedback_receipt_ns := 0\<rparr>)"

lemma latchEmergencyStop_split:
  "latchEmergencyStop ops t now s =
     (let s0 = latched_session s
      in if \<not> configuration_valid s0 then s0\<lparr>state := S_kConfigurationInvalid\<rparr>
         else
          (let so = snd (observeMonotonicTime now s0);
               s1 = snd (synchronizeConnection ops t so)
           in if fst (synchronizeConnection ops t so) = Sync_kDisconnected then s1
              else if state s1 = S_kFaulted then s1
              else beginZeroEpisode ops t S_kEmergencyStopLatched
                     (if fst (observeMonotonicTime now s0) then now
                      else last_observed_monotonic_ns s1) s1))"
  by (simp only: latchEmergencyStop_def latched_session_def Let_def case_prod_beta)

lemma latched_fields [simp]:
  "config (latched_session s) = config s"
  "configuration_valid (latched_session s) = configuration_valid s"
  "transport_present (latched_session s) = transport_present s"
  "connection_known (latched_session s) = connection_known s"
  "state (latched_session s) = state s"
  "emergency_stop_latched (latched_session s)"
  "highest_sequence (latched_session s) = highest_sequence s"
  "highest_authorization_token (latched_session s) = highest_authorization_token s"
  "highest_estop_reset_token (latched_session s) = highest_estop_reset_token s"
  "last_observed_monotonic_ns (latched_session s) = last_observed_monotonic_ns s"
  "\<not> authorization_active (latched_session s)"
  "\<not> latest_command_valid (latched_session s)"
  by (simp_all add: latched_session_def Let_def)

lemma latched_session_inv:
  assumes inv: "session_inv s"
  shows "session_inv (latched_session s)"
proof -
  have "core_inv (clearMotionIntent (revokeAuthorization
          (s\<lparr>emergency_stop_latched := True, emergency_stop_latch_generation := g\<rparr>)))" for g
    using core_invD [OF core_inv_revoke_clear [OF session_inv_core [OF inv]]]
    by (intro core_invI) (simp_all add: inv_parts clearMotionIntent_def revokeAuthorization_def)
  note core = core_invD [OF this]
  have "session_inv (clearMotionIntent (revokeAuthorization
          (s\<lparr>emergency_stop_latched := True, emergency_stop_latch_generation := g\<rparr>))
          \<lparr>feedback_allowed_seen := False, latest_allowed_feedback_receipt_ns := 0\<rparr>)" for g
    using core [of g]
    by (intro session_invI) (simp_all add: inv_parts clearMotionIntent_def revokeAuthorization_def)
  note this [of "emergency_stop_latch_generation s + 1"] this [of "emergency_stop_latch_generation s"]
  then show ?thesis by (simp add: latched_session_def Let_def)
qed

lemma latchEmergencyStop_inv:
  assumes inv: "session_inv s"
  shows "session_inv (latchEmergencyStop ops t now s)"
proof (cases "configuration_valid s")
  case False
  then have "state (latched_session s) = S_kConfigurationInvalid"
    using session_invD(4) [OF inv] by (simp add: connection_inv_def)
  then have "latched_session s\<lparr>state := S_kConfigurationInvalid\<rparr> = latched_session s" by simp
  with False show ?thesis
    by (simp add: latchEmergencyStop_split Let_def latched_session_inv [OF inv])
next
  case valid: True
  let ?so = "snd (observeMonotonicTime now (latched_session s))"
  let ?s1 = "snd (synchronizeConnection ops t ?so)"
  have inv1: "session_inv ?s1"
    by (rule synchronizeConnection_inv [OF observe_inv [OF latched_session_inv [OF inv]]])
       (simp add: valid)
  have cleared: "\<not> latest_command_valid ?s1"
    by (simp add: synchronizeConnection_def observeMonotonicTime_def Let_def)
  have up: "connection_known ?s1" "tr_connected ops t"
    if "fst (synchronizeConnection ops t ?so) \<noteq> Sync_kDisconnected"
    using that by (auto simp: synchronizeConnection_def Let_def split: if_splits)
  show ?thesis
    using inv1 beginZeroEpisode_inv [OF session_inv_core [OF inv1] cleared up]
    by (simp add: latchEmergencyStop_split Let_def valid)
qed

lemma resetEmergencyStop_inv:
  assumes inv: "session_inv s"
  shows "session_inv (snd (resetEmergencyStop ops t token now s))"
proof (cases rule: entry_cases [where s = s and now = now and ops = ops and t = t])
  case (up so conn s1)
  note ent = entered_facts [OF inv up(5)]
  have done': "session_inv (clearMotionIntent (revokeAuthorization
      (s1\<lparr>highest_estop_reset_token := token, emergency_stop_latched := False\<rparr>))
      \<lparr>state := S_kConnectedInhibited\<rparr>)"
    if "\<not> zero_episode_active s1"
    using session_invD [OF ent(1)] ent(2,4) that
    by (intro session_invI)
       (simp_all add: inv_parts clearMotionIntent_def revokeAuthorization_def kCommandFrameSize_def)
  show ?thesis
    using up(1-4) ent(1) inv done' by (simp add: resetEmergencyStop_def Let_def)
qed (use inv in \<open>simp_all add: resetEmergencyStop_def handleClockFailure_inv down_inv\<close>)

lemma raise_clock_core:
  assumes "session_inv s" "\<not> latest_command_valid s" "last_observed_monotonic_ns s \<le> c"
  shows "session_inv (s\<lparr>last_observed_monotonic_ns := c\<rparr>)"
  using session_invD [OF assms(1)] assms(2,3)
  by (intro session_invI) (auto simp: inv_parts)

lemma finishZero_inv:
  assumes inv: "session_inv s" and active: "zero_episode_active s" and now: "0 \<le> now"
  shows "session_inv (snd (finishZero ops t now r result (s\<lparr>zero_attempts := zero_attempts s + 1\<rparr>)))"
proof -
  let ?c = "max (last_observed_monotonic_ns s) (completion_monotonic_ns r)"
  let ?n = "zero_attempts s + 1"
  let ?s = "s\<lparr>last_observed_monotonic_ns := ?c, zero_attempts := ?n\<rparr>"
  have idle: "\<not> latest_command_valid s"
    using session_invD(1) [OF inv] active by (auto simp: intent_inv_def)
  note parts = session_invD [OF raise_clock_core [OF inv idle, of ?c, simplified]]
  have stop: "state s = S_kStopPending" "connection_known s" "configuration_valid s"
    using session_invD(3,4) [OF inv] active by (auto simp: episode_inv_def connection_inv_def)
  have down: "session_inv (handleDisconnect ?s)"
  proof -
    have "handleDisconnect ?s = handleDisconnect (s\<lparr>last_observed_monotonic_ns := ?c\<rparr>)"
      by (simp add: handleDisconnect_def Let_def clearMotionIntent_def revokeAuthorization_def)
    then show ?thesis
      using handleDisconnect_inv [OF session_inv_core [OF raise_clock_core [OF inv idle, of ?c]]]
        stop by simp
  qed
  have success: "session_inv (s\<lparr>last_observed_monotonic_ns := ?c, zero_episode_active := False,
      zero_attempts := 0, next_zero_attempt_ns := 0, state := a\<rparr>)"
    if "a \<in> {S_kConnectedInhibited, S_kRecovering, S_kEmergencyStopLatched}" for a
    using parts idle stop active that by (intro session_invI) (auto simp: inv_parts)
  have exhausted: "session_inv (?s\<lparr>zero_episode_active := False, state := S_kFaulted\<rparr>)"
    using parts idle stop active by (intro session_invI) (auto simp: inv_parts)
  have retry: "session_inv (?s\<lparr>next_zero_attempt_ns := saturatingAdd b d\<rparr>)"
    if "?n < maximum_zero_attempts (config s)" "0 \<le> b" for b d
    using parts idle stop active that
    by (intro session_invI) (auto simp: inv_parts saturatingAdd_def int64_max_def)
  have clk: "(if last_observed_monotonic_ns s < completion_monotonic_ns r
        then s\<lparr>zero_attempts := ?n, last_observed_monotonic_ns := completion_monotonic_ns r\<rparr>
        else s\<lparr>zero_attempts := ?n\<rparr>) = ?s"
    by (simp add: max_def)
  have after: "state_after_zero s \<in> {S_kConnectedInhibited, S_kRecovering, S_kEmergencyStopLatched}"
    using session_invD(3) [OF inv] by (simp add: episode_inv_def)
  show ?thesis
    unfolding finishZero_def
    using down success [OF after] success [of S_kEmergencyStopLatched] exhausted retry now
    by (simp add: clk Let_def not_le)
qed


section \<open>The branches of the writing operations\<close>

lemma attemptZero_cases:
  assumes "attemptZero ops t now result s = Some (result', s', t')"
  obtains (idle) "\<not> zero_episode_active s" "s' = s" "t' = t" "result' = result\<lparr>cyc_state := state s\<rparr>"
  | (pending) "zero_episode_active s" "now < next_zero_attempt_ns s" "s' = s" "t' = t"
      "result' = result\<lparr>cyc_state := state s, cyc_action := Cyc_kZeroRetryPending,
                  cyc_zero_attempts := zero_attempts s\<rparr>"
  | (wrote) out where "zero_episode_active s" "next_zero_attempt_ns s \<le> now"
      "tr_writeAll ops t makeZeroCommandFrame (boundedWriteDeadline now int64_max s)
         = Some (out, t')"
      "(result', s') = finishZero ops t' now (result_or_exception now out)
         (result\<lparr>cyc_state := state s, cyc_zero_write_attempted := True\<rparr>)
         (s\<lparr>zero_attempts := zero_attempts s + 1\<rparr>)"
proof (cases "zero_episode_active s \<and> next_zero_attempt_ns s \<le> now")
  case True
  have dl: "boundedWriteDeadline now int64_max (s\<lparr>zero_attempts := n\<rparr>)
      = boundedWriteDeadline now int64_max s" for n
    by (simp add: boundedWriteDeadline_def)
  show thesis
  proof (cases "tr_writeAll ops t makeZeroCommandFrame (boundedWriteDeadline now int64_max s)")
    case None
    with assms True show thesis by (simp add: attemptZero_def Let_def dl)
  next
    case (Some p)
    obtain out t2 where p: "p = (out, t2)" by fastforce
    obtain res2 s2 where fin: "finishZero ops t2 now (result_or_exception now out)
         (result\<lparr>cyc_state := state s, cyc_zero_write_attempted := True\<rparr>)
         (s\<lparr>zero_attempts := zero_attempts s + 1\<rparr>) = (res2, s2)" by fastforce
    have "res2 = result'" "s2 = s'" "t2 = t'"
      using assms True Some p fin by (simp_all add: attemptZero_def Let_def dl)
    with True Some p fin show thesis by (intro wrote [of out]) simp_all
  qed
next
  case False
  show thesis
  proof (cases "zero_episode_active s")
    case True
    with False assms show thesis by (intro pending) (auto simp: attemptZero_def Let_def)
  next
    case False
    with assms show thesis by (intro idle) (auto simp: attemptZero_def Let_def)
  qed
qed

lemma finishMotion_cases:
  fixes now r s
  defines "done_ns \<equiv> if completion_monotonic_ns r > 0 then completion_monotonic_ns r else now"
    and "zero_start \<equiv> max now (completion_monotonic_ns r)"
    and "cleared \<equiv> clearMotionIntent (revokeAuthorization s)"
  assumes res: "finishMotion ops t now r result s = Some (result', s', t')"
  obtains (sent) "io_status r = T_kOk" "host_write_complete r"
      "bytes_transferred r = length (latest_frame s)" "t' = t"
      "s' = s\<lparr>last_motion_host_write_completion_ns := done_ns,
              last_observed_monotonic_ns := max (last_observed_monotonic_ns s) done_ns\<rparr>"
      "cyc_action result' = Cyc_kMotionHostWriteComplete" "cyc_state result' = state s"
  | (down) "io_status r = T_kDisconnected \<or> \<not> tr_connected ops t" "t' = t"
      "s' = handleDisconnect cleared" "cyc_action result' = Cyc_kDisconnected"
      "cyc_state result' = state s'"
  | (failed) res0 where "io_status r \<noteq> T_kDisconnected" "tr_connected ops t"
      "attemptZero ops t zero_start res0
         (beginZeroEpisode ops t S_kConnectedInhibited zero_start cleared) = Some (result', s', t')"
proof (cases "io_status r = T_kOk \<and> host_write_complete r
        \<and> bytes_transferred r = length (latest_frame s)")
  case True
  with res show thesis
    by (intro sent) (auto simp: finishMotion_def Let_def done_ns_def)
next
  case not_sent: False
  show thesis
  proof (cases "io_status r = T_kDisconnected \<or> \<not> tr_connected ops t")
    case True
    with res not_sent show thesis
      by (intro down) (auto simp: finishMotion_def Let_def cleared_def)
  next
    case False
    with res not_sent show thesis
      by (intro failed) (auto simp: finishMotion_def Let_def cleared_def zero_start_def)
  qed
qed

text \<open>The conditions under which \<open>tick\<close> writes the motion frame.\<close>

definition motion_due :: "int \<Rightarrow> safety_session \<Rightarrow> bool" where
  "motion_due now s \<longleftrightarrow>
     state s = S_kActive \<and> \<not> zero_episode_active s \<and> \<not> emergency_stop_latched s
     \<and> authorized s \<and> feedbackIsFresh now s \<and> commandIsFresh now s
     \<and> \<not> (last_motion_host_write_completion_ns s > 0
          \<and> now - last_motion_host_write_completion_ns s < transmit_period_ns (config s))"

lemma tick_cases:
  assumes res: "tick ops t now s = Some (result, s', t')"
  obtains (invalid) "\<not> configuration_valid s" "s' = s" "t' = t"
      "cyc_action result = Cyc_kConfigurationInvalid" "cyc_state result = S_kConfigurationInvalid"
  | (clock) "configuration_valid s" "observeMonotonicTime now s = (False, s)"
      "s' = handleClockFailure ops t s" "t' = t" "cyc_action result = Cyc_kClockInvalid"
      "cyc_state result = state s'"
  | (down) so where "configuration_valid s" "observeMonotonicTime now s = (True, so)"
      "synchronizeConnection ops t so = (Sync_kDisconnected, handleDisconnect so)"
      "s' = handleDisconnect so" "t' = t" "cyc_action result = Cyc_kDisconnected"
      "cyc_state result = state s'"
  | (quiet) conn s1 where "entered ops t now s conn s1" "\<not> zero_episode_active s1"
      "state s1 = S_kFaulted \<or> \<not> emergency_stop_latched s1 \<and> state s1 \<noteq> S_kActive"
      "s' = s1" "t' = t" "cyc_action result = Cyc_kNoAction" "cyc_state result = state s'"
  | (estop) conn s1 where "entered ops t now s conn s1" "\<not> zero_episode_active s1"
      "state s1 \<noteq> S_kFaulted" "emergency_stop_latched s1"
      "s' = s1\<lparr>state := S_kEmergencyStopLatched\<rparr>" "t' = t" "cyc_action result = Cyc_kNoAction"
      "cyc_state result = state s'"
  | (zero) conn s1 where "entered ops t now s conn s1" "zero_episode_active s1"
      "attemptZero ops t now (defaultCycleResult\<lparr>cyc_state := state s\<rparr>) s1 = Some (result, s', t')"
  | (stop) conn s1 after_zero where "entered ops t now s conn s1" "\<not> zero_episode_active s1"
      "state s1 = S_kActive" "\<not> emergency_stop_latched s1"
      "\<not> authorized s1 \<or> \<not> feedbackIsFresh now s1 \<or> \<not> commandIsFresh now s1"
      "after_zero = S_kConnectedInhibited \<or> after_zero = S_kRecovering"
      "attemptZero ops t now (defaultCycleResult\<lparr>cyc_state := state s\<rparr>)
         (beginZeroEpisode ops t after_zero now (clearMotionIntent s1)) = Some (result, s', t')"
  | (limited) conn s1 where "entered ops t now s conn s1" "state s1 = S_kActive"
      "last_motion_host_write_completion_ns s1 > 0"
      "now - last_motion_host_write_completion_ns s1 < transmit_period_ns (config s1)"
      "s' = s1" "t' = t" "cyc_action result = Cyc_kTransmitRateLimited" "cyc_state result = state s'"
      "authorized s1" "feedbackIsFresh now s1" "commandIsFresh now s1"
  | (motion) conn s1 out t1 where "entered ops t now s conn s1" "motion_due now s1"
      "tr_writeAll ops t (latest_frame s1)
         (boundedWriteDeadline now (deadline_monotonic_ns (latest_command s1)) s1) = Some (out, t1)"
      "finishMotion ops t1 now (result_or_exception now out)
         (defaultCycleResult\<lparr>cyc_state := state s, cyc_motion_write_attempted := True\<rparr>) s1
         = Some (result, s', t')"
proof (cases rule: entry_cases [where s = s and now = now and ops = ops and t = t])
  case 1: invalid
  with res show thesis by (intro invalid) (auto simp: tick_def Let_def)
next
  case 2: clock
  with res show thesis by (intro clock) (auto simp: tick_def Let_def)
next
  case 3: (down so)
  with res show thesis by (intro down) (auto simp: tick_def Let_def)
next
  case (up so conn s1)
  note eq = res [unfolded tick_def Let_def, simplified up(1-4) not_False_eq_True not_True_eq_False
      if_True if_False prod.case, simplified up(4), simplified]
  consider (z) "zero_episode_active s1"
    | (q) "\<not> zero_episode_active s1"
        "state s1 = S_kFaulted \<or> \<not> emergency_stop_latched s1 \<and> state s1 \<noteq> S_kActive"
    | (e) "\<not> zero_episode_active s1" "state s1 \<noteq> S_kFaulted" "emergency_stop_latched s1"
    | (a) "\<not> zero_episode_active s1" "state s1 = S_kActive" "\<not> emergency_stop_latched s1"
        "\<not> authorized s1"
    | (f) "\<not> zero_episode_active s1" "state s1 = S_kActive" "\<not> emergency_stop_latched s1"
        "authorized s1" "\<not> feedbackIsFresh now s1 \<or> \<not> commandIsFresh now s1"
    | (l) "\<not> zero_episode_active s1" "state s1 = S_kActive" "\<not> emergency_stop_latched s1"
        "authorized s1" "feedbackIsFresh now s1" "commandIsFresh now s1"
        "last_motion_host_write_completion_ns s1 > 0"
        "now - last_motion_host_write_completion_ns s1 < transmit_period_ns (config s1)"
    | (m) "motion_due now s1"
    unfolding motion_due_def by blast
  then show thesis
  proof cases
    case z with eq up(5) show thesis by (intro zero) auto
  next
    case q with eq up(5) show thesis
      by (intro quiet) (auto simp: defaultCycleResult_def split: if_splits)
  next
    case e with eq up(5) show thesis by (intro estop) (auto simp: defaultCycleResult_def)
  next
    case a with eq up(5) show thesis by (intro stop) auto
  next
    case f with eq up(5) show thesis by (intro stop) auto
  next
    case l with eq up(5) show thesis by (intro limited) auto
  next
    case m
    then have "\<not> zero_episode_active s1" "state s1 = S_kActive" "\<not> emergency_stop_latched s1"
      "authorized s1" "feedbackIsFresh now s1" "commandIsFresh now s1"
      "\<not> (last_motion_host_write_completion_ns s1 > 0
        \<and> now - last_motion_host_write_completion_ns s1 < transmit_period_ns (config s1))"
      by (simp_all add: motion_due_def)
    with eq obtain out t1 where
        "tr_writeAll ops t (latest_frame s1)
           (boundedWriteDeadline now (deadline_monotonic_ns (latest_command s1)) s1) = Some (out, t1)"
        "finishMotion ops t1 now (result_or_exception now out)
           (defaultCycleResult\<lparr>cyc_state := state s, cyc_motion_write_attempted := True\<rparr>) s1
           = Some (result, s', t')"
      by (auto split: option.splits if_splits)
    with up(5) m show thesis by (rule motion)
  qed
qed


section \<open>The writing operations and the constructor keep the invariant\<close>

lemma attemptZero_inv:
  assumes inv: "session_inv s" and now: "0 \<le> now"
    and res: "attemptZero ops t now result s = Some (result', s', t')"
  shows "session_inv s'"
  using res
proof (cases rule: attemptZero_cases)
  case (wrote out)
  then have "s' = snd (finishZero ops t' now (result_or_exception now out)
         (result\<lparr>cyc_state := state s, cyc_zero_write_attempted := True\<rparr>)
         (s\<lparr>zero_attempts := zero_attempts s + 1\<rparr>))"
    by (metis snd_conv)
  then show ?thesis by (simp add: finishZero_inv [OF inv wrote(1) now])
qed (use inv in simp_all)

lemma motion_sent_inv:
  assumes inv: "session_inv s" and "0 < d" "d \<le> c" "last_observed_monotonic_ns s \<le> c"
  shows "session_inv (s\<lparr>last_motion_host_write_completion_ns := d, last_observed_monotonic_ns := c\<rparr>)"
proof -
  have "x \<le> c" if "x \<le> last_observed_monotonic_ns s" for x using that assms(4) by simp
  then show ?thesis
    using session_invD [OF inv] assms(2,3)
    by (intro session_invI) (simp_all add: inv_parts)
qed

lemma finishMotion_inv:
  assumes inv: "session_inv s" and up: "connection_known s" and now: "0 < now"
    and res: "finishMotion ops t now r result s = Some (result', s', t')"
  shows "session_inv s'"
  using res
proof (cases rule: finishMotion_cases)
  case sent
  show ?thesis unfolding sent(5) by (rule motion_sent_inv [OF inv]) (use now in simp_all)
next
  case down
  have "configuration_valid s"
    using session_invD(4) [OF inv] up by (simp add: connection_inv_def)
  then show ?thesis
    using handleDisconnect_inv [OF core_inv_revoke_clear [OF session_inv_core [OF inv]]] down by simp
next
  case (failed res0)
  show ?thesis
    by (rule attemptZero_inv [OF _ _ failed(3)])
       (use revoke_and_stop_inv [OF inv up failed(2)] now in simp_all)
qed

lemma tick_inv:
  assumes inv: "session_inv s" and res: "tick ops t now s = Some (result, s', t')"
  shows "session_inv s'"
  using res
proof (cases rule: tick_cases)
  case (estop conn s1)
  note ent = entered_facts [OF inv estop(1)]
  show ?thesis
    unfolding estop(5) using session_invD [OF ent(1)] ent(2,4) estop(2)
    by (intro session_invI) (auto simp: inv_parts)
next
  case (zero conn s1)
  note ent = entered_facts [OF inv zero(1)]
  show ?thesis by (rule attemptZero_inv [OF ent(1) _ zero(3)]) (use ent(7) in simp)
next
  case (stop conn s1 a)
  note ent = entered_facts [OF inv stop(1)]
  show ?thesis
    by (rule attemptZero_inv [OF _ _ stop(7)])
       (use stop(6) ent(7) clear_and_stop_inv [OF ent(1-3)] in auto)
next
  case (motion conn s1 out t1)
  note ent = entered_facts [OF inv motion(1)]
  show ?thesis by (rule finishMotion_inv [OF ent(1,2,7) motion(4)])
qed (use inv entered_inv [OF inv] in \<open>simp_all add: handleClockFailure_inv down_inv\<close>)

lemma newSafetySession_inv:
  "session_inv (newSafetySession cfg present ops t)"
proof -
  obtain s where s: "newSafetySession cfg present ops t =
      (if \<not> configuration_valid s then s\<lparr>state := S_kConfigurationInvalid\<rparr>
       else snd (synchronizeConnection ops t s))"
    and f: "config s = cfg" "transport_present s = present"
      "configuration_valid s = (present \<and> safetyConfigIsValid cfg)" "state s = S_kConfigurationInvalid"
      "\<not> connection_known s" "last_observed_monotonic_ns s = 0" "\<not> authorization_active s"
      "authorized_generation s = 0" "authorization_monotonic_ns s = 0" "\<not> latest_command_valid s"
      "consecutive_fresh_commands s = 0"
      "latest_command_receipt_ns s = 0" "last_motion_host_write_completion_ns s = 0"
      "\<not> feedback_allowed_seen s" "latest_allowed_feedback_receipt_ns s = 0"
      "\<not> zero_episode_active s" "state_after_zero s = S_kConnectedInhibited"
      "length (latest_frame s) = kCommandFrameSize"
    by (rule that, rule newSafetySession_def [unfolded Let_def]) simp_all
  have invalid: "session_inv (s\<lparr>state := S_kConfigurationInvalid\<rparr>)" if "\<not> configuration_valid s"
    using f that by (intro session_invI) (simp_all add: inv_parts)
  have valid: "session_inv (snd (synchronizeConnection ops t s))" if v: "configuration_valid s"
  proof -
    let ?d = "s\<lparr>state := S_kDisconnected\<rparr>"
    have core: "core_inv ?d"
      using f v by (intro core_invI) (simp_all add: inv_parts)
    have same: "handleDisconnect s = handleDisconnect ?d"
        "handleNewConnection ops t g s = handleNewConnection ops t g ?d" for g
      by (simp_all add: handleDisconnect_def handleNewConnection_def Let_def clearMotionIntent_def
          revokeAuthorization_def v inhibited_or_estop_def)
    have "synchronizeConnection ops t s = synchronizeConnection ops t ?d"
      by (simp add: synchronizeConnection_def Let_def f(5) same [symmetric])
    moreover have "session_inv ?d"
      using core by (simp add: session_inv_def active_inv_def)
    ultimately show ?thesis using synchronizeConnection_inv [of ?d] v by simp
  qed
  show ?thesis unfolding s using invalid valid by simp
qed

end
