(* ===== verification/Safety_Runs.thy ===== *)
theory Safety_Runs
  imports Safety_Invariant
begin

text \<open>
  Runs of a safety session: what the program around the session does to it, as
  a list of events.  Between two calls the transport may change arbitrarily
  (\<open>Ev_transport\<close>: it is opened, closed, reopened or read from by its owner).
  The outcome of a \<open>tick\<close> carries the writes that reached the transport, each
  with its deadline; they are observed through \<open>logging\<close>.
\<close>

section \<open>Observing the writes\<close>

type_synonym write_log = "(u8 list \<times> int) list"

definition logging :: "'t transport_ops \<Rightarrow> ('t \<times> write_log) transport_ops" where
  "logging ops =
     \<lparr>tr_connected = (\<lambda>tl. tr_connected ops (fst tl)),
      tr_generation = (\<lambda>tl. tr_generation ops (fst tl)),
      tr_writeAll = (\<lambda>tl data deadline.
        case tr_writeAll ops (fst tl) data deadline of
          None \<Rightarrow> None
        | Some (out, t) \<Rightarrow> Some (out, (t, snd tl @ [(data, deadline)])))\<rparr>"

lemma logging_simps [simp]:
  "tr_connected (logging ops) (t, l) = tr_connected ops t"
  "tr_generation (logging ops) (t, l) = tr_generation ops t"
  by (simp_all add: logging_def)

lemma logging_write [simp]:
  "tr_writeAll (logging ops) (t, l) data deadline =
     map_option (\<lambda>(out, t'). (out, (t', l @ [(data, deadline)]))) (tr_writeAll ops t data deadline)"
  by (simp add: logging_def map_option_case split: option.split)

lemma logging_begin [simp]:
  "beginZeroEpisode (logging ops) (t, l) = beginZeroEpisode ops t"
  by (intro ext) (simp add: beginZeroEpisode_def)

lemma logging_new [simp]:
  "handleNewConnection (logging ops) (t, l) = handleNewConnection ops t"
  by (intro ext) (simp add: handleNewConnection_def Let_def)

lemma logging_sync [simp]:
  "synchronizeConnection (logging ops) (t, l) = synchronizeConnection ops t"
  by (intro ext) (simp add: synchronizeConnection_def Let_def)

lemma logging_clock [simp]:
  "handleClockFailure (logging ops) (t, l) = handleClockFailure ops t"
  by (intro ext) (simp add: handleClockFailure_def Let_def)

lemma logging_finishZero [simp]:
  "finishZero (logging ops) (t, l) = finishZero ops t"
  by (intro ext) (simp add: finishZero_def Let_def)

lemma logging_entered [simp]:
  "entered (logging ops) (t, l) = entered ops t"
  by (intro ext) (simp add: entered_def)

abbreviation erase_log ::
    "(cycle_result \<times> safety_session \<times> 't \<times> write_log) option
       \<Rightarrow> (cycle_result \<times> safety_session \<times> 't) option" where
  "erase_log \<equiv> map_option (\<lambda>(r, s, t, l). (r, s, t))"

lemma attemptZero_logging:
  "erase_log (attemptZero (logging ops) (t, l) now result s) = attemptZero ops t now result s"
  by (simp add: attemptZero_def Let_def split: option.split prod.split)

lemma finishMotion_logging:
  "erase_log (finishMotion (logging ops) (t, l) now r result s) = finishMotion ops t now r result s"
  by (simp add: finishMotion_def Let_def attemptZero_logging)

lemma tick_logging:
  "erase_log (tick (logging ops) (t, l) now s) = tick ops t now s"
  by (simp add: tick_def Let_def attemptZero_logging finishMotion_logging
      split: option.split prod.split)

section \<open>Events, outcomes and runs\<close>

datatype 't session_event =
    Ev_authorize u64 int
  | Ev_disarm int
  | Ev_requestStop int
  | Ev_submit timed_motion_command int
  | Ev_observeFeedback "u8 list" int
  | Ev_latchEmergencyStop int
  | Ev_resetEmergencyStop u64 int
  | Ev_tick int
  | Ev_transport 't

datatype session_outcome =
    Out_authorize u64 int authorization_status
  | Out_disarm bool
  | Out_requestStop bool
  | Out_submit timed_motion_command int submission_status
  | Out_observeFeedback feedback_observation_result
  | Out_latchEmergencyStop
  | Out_resetEmergencyStop u64 bool
  | Out_tick int cycle_result write_log
  | Out_transport

fun session_step ::
    "'t transport_ops \<Rightarrow> 't session_event \<Rightarrow> safety_session \<times> 't
       \<Rightarrow> (session_outcome \<times> safety_session \<times> 't) option" where
  "session_step ops (Ev_authorize token now) (s, t) =
     (let (status, s) = authorize ops t token now s in Some (Out_authorize token now status, s, t))"
| "session_step ops (Ev_disarm now) (s, t) =
     (let (ok, s) = disarm ops t now s in Some (Out_disarm ok, s, t))"
| "session_step ops (Ev_requestStop now) (s, t) =
     (let (ok, s) = requestStop ops t now s in Some (Out_requestStop ok, s, t))"
| "session_step ops (Ev_submit command now) (s, t) =
     (let (status, s) = submit ops t command now s in Some (Out_submit command now status, s, t))"
| "session_step ops (Ev_observeFeedback frame now) (s, t) =
     (let (r, s) = observeFeedback ops t frame now s in Some (Out_observeFeedback r, s, t))"
| "session_step ops (Ev_latchEmergencyStop now) (s, t) =
     Some (Out_latchEmergencyStop, latchEmergencyStop ops t now s, t)"
| "session_step ops (Ev_resetEmergencyStop token now) (s, t) =
     (let (ok, s) = resetEmergencyStop ops t token now s
      in Some (Out_resetEmergencyStop token ok, s, t))"
| "session_step ops (Ev_tick now) (s, t) =
     (case tick (logging ops) (t, []) now s of
        None \<Rightarrow> None
      | Some (r, s, t, writes) \<Rightarrow> Some (Out_tick now r writes, s, t))"
| "session_step ops (Ev_transport t') (s, t) = Some (Out_transport, s, t')"

fun session_run ::
    "'t transport_ops \<Rightarrow> 't session_event list \<Rightarrow> safety_session \<times> 't
       \<Rightarrow> (session_outcome list \<times> safety_session \<times> 't) option" where
  "session_run ops [] st = Some ([], st)"
| "session_run ops (e # es) st =
     (case session_step ops e st of
        None \<Rightarrow> None
      | Some (out, st) \<Rightarrow>
          (case session_run ops es st of
             None \<Rightarrow> None
           | Some (outs, st) \<Rightarrow> Some (out # outs, st)))"

inductive session_reachable ::
    "'t transport_ops \<Rightarrow> safety_config \<Rightarrow> safety_session \<Rightarrow> 't \<Rightarrow> bool"
  for ops cfg where
  start: "session_reachable ops cfg (newSafetySession cfg present ops t) t"
| step: "\<lbrakk>session_reachable ops cfg s t; session_step ops e (s, t) = Some (out, s', t')\<rbrakk>
    \<Longrightarrow> session_reachable ops cfg s' t'"

text \<open>The writes of an outcome list, in order.\<close>

fun outcome_writes :: "session_outcome \<Rightarrow> write_log" where
  "outcome_writes (Out_tick now r writes) = writes"
| "outcome_writes _ = []"

definition run_writes :: "session_outcome list \<Rightarrow> write_log" where
  "run_writes outs = concat (map outcome_writes outs)"

lemma run_writes_simps [simp]:
  "run_writes [] = []" "run_writes (out # outs) = outcome_writes out @ run_writes outs"
  "run_writes (as @ bs) = run_writes as @ run_writes bs"
  by (simp_all add: run_writes_def)

lemma session_run_Cons:
  "session_run ops (e # es) st = Some (outs, st'') \<longleftrightarrow>
     (\<exists>out st' outs'. session_step ops e st = Some (out, st')
        \<and> session_run ops es st' = Some (outs', st'') \<and> outs = out # outs')"
  by (auto split: option.splits)

text \<open>
  A property of the session and the transport that every step keeps, as long
  as the step's outcome is one of those looked at, holds along the run.
\<close>

lemma run_induct [consumes 2, case_names Step]:
  assumes run: "session_run ops es (s, t) = Some (outs, s', t')" and start: "I s t"
    and step: "\<And>e s t out s' t'. \<lbrakk>I s t; session_step ops e (s, t) = Some (out, s', t'); e \<in> set es;
        out \<in> set outs\<rbrakk> \<Longrightarrow> I s' t' \<and> G out"
  shows "I s' t' \<and> (\<forall>out\<in>set outs. G out)"
  using run start step
proof (induction es arbitrary: s t outs)
  case (Cons e es)
  obtain out s1 t1 outs1 where *: "session_step ops e (s, t) = Some (out, s1, t1)"
      "session_run ops es (s1, t1) = Some (outs1, s', t')" "outs = out # outs1"
    using Cons.prems(1) unfolding session_run_Cons by auto
  have "I s1 t1 \<and> G out"
    by (rule Cons.prems(3) [OF Cons.prems(2) *(1)]) (use * in simp_all)
  moreover have "I s' t' \<and> (\<forall>out\<in>set outs1. G out)"
    by (rule Cons.IH [OF *(2)]) (use calculation Cons.prems(3) *(3) in simp_all)
  ultimately show ?case using * by simp
qed simp

lemma session_step_inv:
  assumes "session_inv s" "session_step ops e (s, t) = Some (out, s', t')"
  shows "session_inv s'"
proof (cases e)
  case (Ev_tick now)
  then show ?thesis
    using assms tick_inv [OF assms(1), of "logging ops" "(t, [])" now]
    by (auto split: option.splits)
qed (use assms authorize_inv [OF assms(1)] disarm_inv [OF assms(1)] requestStop_inv [OF assms(1)]
      submit_inv [OF assms(1)] observeFeedback_inv [OF assms(1)] latchEmergencyStop_inv [OF assms(1)]
      resetEmergencyStop_inv [OF assms(1)] in \<open>auto simp: case_prod_beta\<close>)

lemma session_reachable_inv: "session_reachable ops cfg s t \<Longrightarrow> session_inv s"
  by (induction rule: session_reachable.induct) (auto simp: newSafetySession_inv session_step_inv)

section \<open>Steps that grant nothing\<close>

text \<open>
  \<open>narrows s s'\<close>: going from \<open>s\<close> to \<open>s'\<close> no permission was gained.  The
  configuration, the consumed tokens and sequence number and the emergency stop
  are as before; an authorization, a stored motion intent or the active state
  that \<open>s'\<close> has, \<open>s\<close> had already.
\<close>

definition same_frame :: "safety_session \<Rightarrow> safety_session \<Rightarrow> bool" where
  "same_frame s s' \<longleftrightarrow>
     config s' = config s \<and> configuration_valid s' = configuration_valid s
     \<and> transport_present s' = transport_present s
     \<and> highest_sequence s' = highest_sequence s
     \<and> highest_authorization_token s' = highest_authorization_token s
     \<and> highest_estop_reset_token s' = highest_estop_reset_token s
     \<and> emergency_stop_latched s' = emergency_stop_latched s"

definition no_gain :: "safety_session \<Rightarrow> safety_session \<Rightarrow> bool" where
  "no_gain s s' \<longleftrightarrow>
     (authorization_active s' \<longrightarrow> authorization_active s
        \<and> authorization_monotonic_ns s' = authorization_monotonic_ns s)
     \<and> (latest_command_valid s' \<longrightarrow> latest_command_valid s
        \<and> latest_command s' = latest_command s \<and> latest_frame s' = latest_frame s)
     \<and> (state s' = S_kActive \<longrightarrow> state s = S_kActive)"

definition narrows :: "safety_session \<Rightarrow> safety_session \<Rightarrow> bool" where
  "narrows s s' \<longleftrightarrow> same_frame s s' \<and> no_gain s s'"

text \<open>\<open>halted\<close>: nothing but a completed zero write can lead out.\<close>

definition halted :: "safety_session \<Rightarrow> bool" where
  "halted s \<longleftrightarrow> state s \<in> {S_kConfigurationInvalid, S_kDisconnected, S_kStopPending, S_kFaulted}"

lemma narrows_refl [simp]: "narrows s s"
  by (simp add: narrows_def same_frame_def no_gain_def)

lemma narrows_trans [trans]: "\<lbrakk>narrows a b; narrows b c\<rbrakk> \<Longrightarrow> narrows a c"
  by (auto simp: narrows_def same_frame_def no_gain_def)

lemmas narrows_defs = narrows_def same_frame_def no_gain_def

lemma narrows_private [simp]:
  "narrows s (clearMotionIntent s)"
  "narrows s (revokeAuthorization s)"
  "narrows s (beginZeroEpisode ops t a e s)"
  "narrows s (handleDisconnect s)"
  "narrows s (snd (observeMonotonicTime now s))"
      apply (simp_all add: narrows_defs)
    apply (simp_all add: revokeAuthorization_def beginZeroEpisode_def handleDisconnect_def Let_def
      observeMonotonicTime_def)
  done

lemma narrows_revoke_clear [simp]: "narrows s (clearMotionIntent (revokeAuthorization s))"
  by (rule narrows_trans [OF narrows_private(2) narrows_private(1)])

lemma narrows_stop [simp]: "narrows s (beginZeroEpisode ops t a e (clearMotionIntent s))"
  by (rule narrows_trans [OF narrows_private(1) narrows_private(3)])

lemma narrows_inhibit [simp]:
  "narrows s (beginZeroEpisode ops t a e (clearMotionIntent (revokeAuthorization s)))"
  by (rule narrows_trans [OF narrows_revoke_clear narrows_private(3)])

lemma narrows_reject [simp]: "narrows s (reject_and_inhibit ops t e s)"
  by (simp add: reject_and_inhibit_def)

lemma narrows_clock [simp]: "narrows s (handleClockFailure ops t s)"
  by (simp add: narrows_defs) (simp add: handleClockFailure_def Let_def beginZeroEpisode_def)

lemma narrows_new [simp]: "narrows s (handleNewConnection ops t g s)"
  by (simp add: narrows_defs) (simp add: handleNewConnection_def Let_def beginZeroEpisode_def)

lemma narrows_sync [simp]: "narrows s (snd (synchronizeConnection ops t s))"
  by (simp add: synchronizeConnection_def Let_def)

lemma narrows_feedback [simp]:
  "narrows s (s\<lparr>feedback_allowed_seen := b, latest_allowed_feedback_receipt_ns := n\<rparr>)"
  by (simp add: narrows_defs)

lemma narrows_down [simp]:
  "observeMonotonicTime now s = (ok, so) \<Longrightarrow> narrows s (handleDisconnect so)"
  using narrows_trans [OF narrows_private(5) narrows_private(4), of s now] by simp

lemma narrows_entered: "entered ops t now s conn s1 \<Longrightarrow> narrows s s1"
proof -
  assume "entered ops t now s conn s1"
  then have "s1 = snd (synchronizeConnection ops t (snd (observeMonotonicTime now s)))"
    by (simp add: entered_def)
  then show ?thesis
    using narrows_trans [OF narrows_private(5) narrows_sync] by (metis (no_types))
qed

lemma halted_private [simp]:
  "halted (clearMotionIntent s) = halted s"
  "halted (revokeAuthorization s) = halted s"
  "halted s \<Longrightarrow> halted (beginZeroEpisode ops t a e s)"
  "halted s \<Longrightarrow> halted (handleDisconnect s)"
  "halted (snd (observeMonotonicTime now s)) = halted s"
  "transport_present s \<Longrightarrow> halted (handleNewConnection ops t g s)"
  by (auto simp: halted_def beginZeroEpisode_def handleDisconnect_def handleNewConnection_def Let_def)

lemma halted_clock [simp]: "halted s \<Longrightarrow> halted (handleClockFailure ops t s)"
  by (auto simp: handleClockFailure_def Let_def halted_def beginZeroEpisode_def)

lemma halted_entered: "\<lbrakk>entered ops t now s conn s1; halted s\<rbrakk> \<Longrightarrow> halted s1"
  by (auto simp: entered_def synchronizeConnection_def Let_def split: if_splits)

lemma halted_begin:
  assumes "zero_episode_active s \<Longrightarrow> state s = S_kStopPending"
  shows "halted (beginZeroEpisode ops t a e s)"
  using assms by (auto simp: halted_def beginZeroEpisode_def)

lemma halted_stop:
  assumes "session_inv s"
  shows "halted (beginZeroEpisode ops t a e (clearMotionIntent s))"
    "halted (beginZeroEpisode ops t a e (clearMotionIntent (revokeAuthorization s)))"
    "halted (reject_and_inhibit ops t e s)"
  unfolding reject_and_inhibit_def
  using session_invD(3) [OF assms] by (intro halted_begin; simp add: episode_inv_def)+

section \<open>The effect of a tick\<close>

lemma finishZero_narrows:
  assumes "state_after_zero s \<noteq> S_kActive"
  shows "narrows s (snd (finishZero ops t now r result s))"
  using assms
  by (simp add: finishZero_def Let_def narrows_defs) (simp add: handleDisconnect_def Let_def)

lemma attemptZero_narrows:
  assumes inv: "session_inv s" and res: "attemptZero ops t now result s = Some (result', s', t')"
  shows "narrows s s'"
  using res
proof (cases rule: attemptZero_cases)
  case (wrote out)
  let ?s = "s\<lparr>zero_attempts := zero_attempts s + 1\<rparr>"
  have "state_after_zero ?s \<noteq> S_kActive"
    using session_invD(3) [OF inv] by (auto simp: episode_inv_def)
  note fin = finishZero_narrows [OF this]
  have "s' = snd (finishZero ops t' now (result_or_exception now out)
         (result\<lparr>cyc_state := state s, cyc_zero_write_attempted := True\<rparr>)
         (s\<lparr>zero_attempts := zero_attempts s + 1\<rparr>))"
    using wrote(4) by (metis snd_conv)
  moreover have "narrows s ?s"
    by (simp add: narrows_defs)
  ultimately show ?thesis
    using narrows_trans [OF _ fin] by simp
qed simp_all

lemma finishMotion_narrows:
  assumes inv: "session_inv s" and up: "connection_known s"
    and res: "finishMotion ops t now r result s = Some (result', s', t')"
  shows "narrows s s'"
  using res
proof (cases rule: finishMotion_cases)
  case (failed res0)
  show ?thesis
    using attemptZero_narrows [OF revoke_and_stop_inv [OF inv up failed(2)] failed(3)]
    by (rule narrows_trans [OF narrows_inhibit]) simp
next
  case down
  show ?thesis unfolding down(3) by (rule narrows_trans [OF narrows_revoke_clear narrows_private(4)])
next
  case sent
  then show ?thesis by (simp add: narrows_defs)
qed

lemma tick_narrows:
  assumes inv: "session_inv s" and res: "tick ops t now s = Some (result, s', t')"
  shows "narrows s s'"
  using res
proof (cases rule: tick_cases)
  case (estop conn s1)
  then have "narrows s1 s'" by (simp add: narrows_defs)
  with estop narrows_entered show ?thesis by (metis narrows_trans)
next
  case (zero conn s1)
  show ?thesis
    by (rule narrows_trans [OF narrows_entered [OF zero(1)]
          attemptZero_narrows [OF entered_inv [OF inv zero(1)] zero(3)]])
next
  case (stop conn s1 a)
  note ent = entered_facts [OF inv stop(1)]
  show ?thesis
    by (rule narrows_trans [OF narrows_entered [OF stop(1)] narrows_trans
          [OF narrows_stop attemptZero_narrows [OF clear_and_stop_inv [OF ent(1-3)] stop(7)]]])
       (use stop(6) in auto)
next
  case (motion conn s1 out t1)
  note ent = entered_facts [OF inv motion(1)]
  show ?thesis
    by (rule narrows_trans [OF narrows_entered [OF motion(1)]
          finishMotion_narrows [OF ent(1,2) motion(4)]])
qed (simp_all add: narrows_entered)

lemma attemptZero_writes:
  assumes "attemptZero (logging ops) (t, l) now result s = Some (result', s', t', l')"
  shows "l' = l \<or> zero_episode_active s \<and>
    l' = l @ [(makeZeroCommandFrame, boundedWriteDeadline now int64_max s)]"
  using assms by (cases rule: attemptZero_cases) auto

lemma finishMotion_writes:
  assumes "finishMotion (logging ops) (t, l) now r result s = Some (result', s', t', l')"
  shows "l' = l \<or> (l' = l @ [(makeZeroCommandFrame,
      boundedWriteDeadline (max now (completion_monotonic_ns r)) int64_max s)]
     \<and> \<not> (io_status r = T_kOk \<and> host_write_complete r \<and> bytes_transferred r = length (latest_frame s)))"
proof (cases "io_status r = T_kOk \<and> host_write_complete r
        \<and> bytes_transferred r = length (latest_frame s)")
  case True
  with assms show ?thesis by (auto simp: finishMotion_def Let_def)
next
  case False
  from assms show ?thesis
  proof (cases rule: finishMotion_cases)
    case (failed res0)
    then show ?thesis
      using attemptZero_writes [OF failed(3)] False by (auto simp: boundedWriteDeadline_def)
  qed auto
qed

text \<open>
  The motion write of a tick: the session was active, authorized and fresh on
  both sides, on the same connection, and not rate limited.
\<close>

lemma motion_due_same:
  assumes inv: "session_inv s" and ent: "entered ops t now s conn s1" and due: "motion_due now s1"
  shows "conn = Sync_kUnchanged" "s1 = s\<lparr>last_observed_monotonic_ns := now\<rparr>" "motion_due now s"
    "latest_command_valid s"
proof -
  note facts = entered_facts [OF inv ent]
  show conn: "conn = Sync_kUnchanged"
    using facts(11) due ent by (cases conn) (auto simp: motion_due_def entered_def)
  show s1: "s1 = s\<lparr>last_observed_monotonic_ns := now\<rparr>" by (rule facts(12) [OF conn])
  show "motion_due now s"
    using due unfolding s1
    by (simp add: motion_due_def authorized_def feedbackIsFresh_def commandIsFresh_def)
  then show "latest_command_valid s" by (simp add: motion_due_def commandIsFresh_def)
qed

lemma tick_writes:
  assumes inv: "session_inv s"
    and res: "tick (logging ops) (t, []) now s = Some (result, s', t', writes)"
  obtains (none) "writes = []"
  | (zero) "writes = [(makeZeroCommandFrame, boundedWriteDeadline now int64_max s)]"
  | (motion) out t1 where "motion_due now s"
      "entered ops t now s Sync_kUnchanged (s\<lparr>last_observed_monotonic_ns := now\<rparr>)"
      "tr_writeAll ops t (latest_frame s)
         (boundedWriteDeadline now (deadline_monotonic_ns (latest_command s)) s) = Some (out, t1)"
      "writes = [(latest_frame s, boundedWriteDeadline now (deadline_monotonic_ns (latest_command s)) s)]
       \<or> writes = [(latest_frame s, boundedWriteDeadline now (deadline_monotonic_ns (latest_command s)) s),
                   (makeZeroCommandFrame, boundedWriteDeadline
                      (max now (completion_monotonic_ns (result_or_exception now out))) int64_max s)]"
  using res
proof (cases rule: tick_cases)
  case 1: (zero conn s1)
  have "config s1 = config s" using entered_facts(13) [OF inv, of "logging ops" "(t, [])"] 1(1) by blast
  then show thesis
    using attemptZero_writes [OF 1(3)] none zero by (auto simp: boundedWriteDeadline_def)
next
  case (stop conn s1 a)
  have "config s1 = config s" using entered_facts(13) [OF inv, of "logging ops" "(t, [])"] stop(1) by blast
  then show thesis
    using attemptZero_writes [of ops t "[]"] stop(7) none zero by (force simp: boundedWriteDeadline_def)
next
  case 3: (motion conn s1 out tl)
  obtain t1 l1 where tl: "tl = (t1, l1)" by fastforce
  have ent: "entered ops t now s conn s1" using 3(1) by simp
  note same = motion_due_same [OF inv ent 3(2)]
  have dl: "boundedWriteDeadline n d s1 = boundedWriteDeadline n d s" for n d
    unfolding same(2) by (simp add: boundedWriteDeadline_def)
  have w: "tr_writeAll ops t (latest_frame s)
         (boundedWriteDeadline now (deadline_monotonic_ns (latest_command s)) s) = Some (out, t1)"
    and l1: "l1 = [(latest_frame s, boundedWriteDeadline now (deadline_monotonic_ns (latest_command s)) s)]"
    using 3(3) unfolding tl by (auto simp: dl) (simp_all add: same(2))
  have ws: "writes = l1 \<or> writes = l1 @ [(makeZeroCommandFrame,
      boundedWriteDeadline (max now (completion_monotonic_ns (result_or_exception now out))) int64_max s1)]"
    using finishMotion_writes [OF 3(4) [unfolded tl]] by blast
  show thesis
    by (rule motion [OF same(3) _ w])
       (use ent ws l1 dl in \<open>auto simp: same(1,2)\<close>)
qed (use none in simp_all)

section \<open>The effect of a submission\<close>

definition accepted_submission :: "submission_status \<Rightarrow> bool" where
  "accepted_submission st \<longleftrightarrow> st = Sub_kAccepted \<or> st = Sub_kRecoveryPending"

text \<open>Everything \<open>submit\<close> checks of a command before it becomes the motion intent.\<close>

definition submission_ok ::
    "int \<Rightarrow> timed_motion_command \<Rightarrow> safety_session \<Rightarrow> bool" where
  "submission_ok now command s \<longleftrightarrow>
     authorized s \<and> \<not> zero_episode_active s \<and> feedbackIsFresh now s
     \<and> highest_sequence s < sequence_id command
     \<and> authorization_monotonic_ns s < created_monotonic_ns command
     \<and> created_monotonic_ns command \<le> now \<and> now \<le> deadline_monotonic_ns command
     \<and> now - created_monotonic_ns command \<le> max_command_age_ns (config s)
     \<and> command_admitted (config s) command
          (enc_frame (encodeCommand (motion command) (safety_config.max_linear_speed_mps (config s))))"

text \<open>A submission that is not stored consumes at most its sequence number.\<close>

definition consumes :: "timed_motion_command \<Rightarrow> safety_session \<Rightarrow> safety_session \<Rightarrow> bool" where
  "consumes command s s' \<longleftrightarrow>
     (\<exists>q. (q = highest_sequence s \<or> highest_sequence s < q \<and> q = sequence_id command)
        \<and> narrows (s\<lparr>highest_sequence := q\<rparr>) s') \<and> (halted s \<longrightarrow> halted s')"

lemma consumesI1: "\<lbrakk>narrows s s'; halted s \<longrightarrow> halted s'\<rbrakk> \<Longrightarrow> consumes command s s'"
  by (auto simp: consumes_def)

lemma consumesI2:
  "\<lbrakk>highest_sequence s < sequence_id command; narrows (s\<lparr>highest_sequence := sequence_id command\<rparr>) s';
    halted s \<longrightarrow> halted s'\<rbrakk> \<Longrightarrow> consumes command s s'"
  unfolding consumes_def by blast

lemma store_command_fields:
  assumes "store_command command frame now s = (st, s')"
  shows "accepted_submission st" "latest_command_valid s'" "latest_command s' = command"
    "latest_frame s' = frame" "latest_command_receipt_ns s' = now"
    "highest_sequence s' = highest_sequence s"
    "config s' = config s" "authorization_active s' = authorization_active s"
    "authorization_monotonic_ns s' = authorization_monotonic_ns s"
    "highest_authorization_token s' = highest_authorization_token s"
    "highest_estop_reset_token s' = highest_estop_reset_token s"
    "emergency_stop_latched s' = emergency_stop_latched s"
    "configuration_valid s' = configuration_valid s" "transport_present s' = transport_present s"
    "state s' = (if st = Sub_kAccepted then S_kActive else S_kRecovering)"
    "st = Sub_kAccepted \<longleftrightarrow> fresh_commands_required (config s) \<le> consecutive_fresh_commands s'"
    "consecutive_fresh_commands s' = (if consecutive_fresh_commands s < fresh_commands_required (config s)
       then consecutive_fresh_commands s + 1 else consecutive_fresh_commands s)"
  using assms by (auto simp: store_command_def accepted_submission_def Let_def split: if_splits)

definition stored_as :: "timed_motion_command \<Rightarrow> int \<Rightarrow> safety_session \<Rightarrow> safety_session \<Rightarrow> bool" where
  "stored_as command now s s' \<longleftrightarrow>
     latest_command_valid s' \<and> latest_command s' = command
     \<and> latest_frame s' = enc_frame (encodeCommand (motion command)
          (safety_config.max_linear_speed_mps (config s)))
     \<and> latest_command_receipt_ns s' = now
     \<and> highest_sequence s' = sequence_id command
     \<and> authorization_active s' \<and> authorization_monotonic_ns s' = authorization_monotonic_ns s
     \<and> config s' = config s \<and> configuration_valid s' = configuration_valid s
     \<and> transport_present s' = transport_present s
     \<and> highest_authorization_token s' = highest_authorization_token s
     \<and> highest_estop_reset_token s' = highest_estop_reset_token s
     \<and> emergency_stop_latched s' = emergency_stop_latched s
     \<and> state s' \<in> {S_kActive, S_kRecovering}"

lemma submit_motion_effect:
  assumes inv: "session_inv s" and auth: "authorized s" and zero: "\<not> zero_episode_active s"
    and res: "submit_motion ops t command now s = (st, s')"
    and seq: "highest_sequence s = sequence_id command"
  shows "if accepted_submission st
         then stored_as command now s s' \<and> feedbackIsFresh now s
              \<and> enc_ok (encodeCommand (motion command) (safety_config.max_linear_speed_mps (config s)))
              \<and> isfinite (yaw_rate_radps (motion command))
              \<and> \<not> f64_less (max_abs_yaw_rate_radps (config s)) (f64_abs (yaw_rate_radps (motion command)))
              \<and> f64_eq (lateral_speed_mps (motion command)) f64_zero
              \<and> \<not> commandIsExactZero (motion command)
         else narrows s s' \<and> halted s'"
proof -
  let ?enc = "encodeCommand (motion command) (safety_config.max_linear_speed_mps (config s))"
  note a = authorizedD [OF auth]
  let ?bad = "\<not> isfinite (yaw_rate_radps (motion command))
         \<or> f64_less (max_abs_yaw_rate_radps (config s)) (f64_abs (yaw_rate_radps (motion command)))
         \<or> \<not> f64_eq (lateral_speed_mps (motion command)) f64_zero"
  note h = halted_stop [OF inv, where ops = ops and t = t]
  note step = submit_motion_def [of ops t command now s, unfolded Let_def]
  have rejected: ?thesis
    if "submit_motion ops t command now s = (st0, x)" "\<not> accepted_submission st0" "narrows s x" "halted x" for st0 x
    using that res by simp
  consider (bad) "?bad \<or> \<not> enc_ok ?enc" | (stop) "\<not> ?bad" "enc_ok ?enc" "commandIsExactZero (motion command)"
    | (quiet) "\<not> ?bad" "enc_ok ?enc" "\<not> commandIsExactZero (motion command)" "\<not> feedbackIsFresh now s"
    | (go) "\<not> ?bad" "enc_ok ?enc" "\<not> commandIsExactZero (motion command)" "feedbackIsFresh now s"
    by blast
  then show ?thesis
  proof cases
    case bad
    then have "submit_motion ops t command now s = (Sub_kEncodingRejected, reject_and_inhibit ops t now s)"
      unfolding step by auto
    then show ?thesis
      by (rule rejected) (simp_all add: h accepted_submission_def)
  next
    case stop
    then have "submit_motion ops t command now s
        = (Sub_kStopAccepted, beginZeroEpisode ops t S_kRecovering now (clearMotionIntent s))"
      unfolding step by simp
    then show ?thesis
      by (rule rejected) (simp_all add: h accepted_submission_def)
  next
    case quiet
    then have "submit_motion ops t command now s
        = (Sub_kFeedbackUnavailable, beginZeroEpisode ops t S_kRecovering now (clearMotionIntent s))"
      unfolding step by simp
    then show ?thesis
      by (rule rejected) (simp_all add: h accepted_submission_def)
  next
    case go
    then have eq: "submit_motion ops t command now s =
        (let stale = now > deadline_monotonic_ns (latest_command s)
               \<or> now - latest_command_receipt_ns s > max_command_age_ns (config s)
         in if latest_command_valid s \<and> \<not> stale
               \<and> created_monotonic_ns command \<le> created_monotonic_ns (latest_command s)
            then (Sub_kTimestampInvalid, reject_and_inhibit ops t now s)
            else store_command command (enc_frame ?enc) now
                   (if latest_command_valid s \<and> stale then clearMotionIntent s else s))"
      unfolding step by (simp add: Let_def)
    have stored: "accepted_submission st \<and> stored_as command now s s'"
      if "store_command command (enc_frame ?enc) now (if b then clearMotionIntent s else s) = (st, s')" for b
      using store_command_fields [OF that] a seq
      by (cases b) (simp_all add: stored_as_def)
    show ?thesis
    proof (cases "submit_motion ops t command now s
        = (Sub_kTimestampInvalid, reject_and_inhibit ops t now s)")
      case True
      then show ?thesis
        by (rule rejected) (simp_all add: h accepted_submission_def)
    next
      case False
      then have "accepted_submission st \<and> stored_as command now s s'"
        using res stored unfolding eq Let_def by (metis (no_types, lifting))
      with go show ?thesis by simp
    qed
  qed
qed

lemma submit_effect:
  assumes inv: "session_inv s" and res: "submit ops t command now s = (st, s')"
  shows "if accepted_submission st
         then entered ops t now s Sync_kUnchanged (s\<lparr>last_observed_monotonic_ns := now\<rparr>)
              \<and> state s \<noteq> S_kFaulted \<and> submission_ok now command s \<and> stored_as command now s s'
         else consumes command s s'"
proof (cases rule: entry_cases [where s = s and now = now and ops = ops and t = t])
  case invalid
  with res show ?thesis by (auto simp: submit_def accepted_submission_def intro: consumesI1)
next
  case clock
  with res show ?thesis by (auto simp: submit_def accepted_submission_def intro: consumesI1)
next
  case (down so)
  have "halted s \<Longrightarrow> halted (handleDisconnect so)"
    using down(2) halted_private(4) halted_private(5) by (metis snd_conv)
  with down res show ?thesis
    by (auto simp: submit_def accepted_submission_def intro: consumesI1)
next
  case (up so conn s1)
  note ent = entered_facts [OF inv up(5)]
  note nar = narrows_entered [OF up(5)]
  note halt = halted_entered [OF up(5)]
  let ?s2 = "s1\<lparr>highest_sequence := sequence_id command\<rparr>"
  have inv2: "session_inv ?s2" if "highest_sequence s1 < sequence_id command"
    using session_invD [OF ent(1)] that
    by (intro session_invI) (auto simp: inv_parts)
  have nar2: "narrows (s\<lparr>highest_sequence := sequence_id command\<rparr>) ?s2"
    using nar by (simp add: narrows_defs)
  have halt2: "halted s \<Longrightarrow> halted ?s2" using halt by (simp add: halted_def)
  have seq_eq: "highest_sequence s1 = highest_sequence s" by (rule ent(14))
  have low: "consumes command s x" if "narrows s1 x" "halted s1 \<longrightarrow> halted x" for x
    using that halt by (intro consumesI1 narrows_trans [OF nar]) auto
  have high: "consumes command s x"
    if "highest_sequence s1 < sequence_id command" "narrows ?s2 x" "halted ?s2 \<longrightarrow> halted x" for x
    using that halt2 by (intro consumesI2 narrows_trans [OF nar2]) (auto simp: seq_eq)
  show ?thesis
  proof (cases "emergency_stop_latched s1 \<or> state s1 = S_kFaulted
      \<or> sequence_id command = 0 \<or> sequence_id command \<le> highest_sequence s1")
    case True
    have "consumes command s (reject_and_inhibit ops t now s1)"
      by (rule low) (simp_all add: halted_stop [OF ent(1)])
    with True res up(1-4) low [OF narrows_refl] show ?thesis
      by (auto simp: submit_def accepted_submission_def split: if_splits)
  next
    case False
    then have seq: "highest_sequence s1 < sequence_id command" by auto
    note h2 = halted_stop [OF inv2 [OF seq], where ops = ops and t = t]
    show ?thesis
    proof (cases "submit ops t command now s = submit_motion ops t command now ?s2 \<and> authorized ?s2
        \<and> \<not> zero_episode_active ?s2 \<and> conn \<noteq> Sync_kNewGeneration
        \<and> authorization_monotonic_ns ?s2 < created_monotonic_ns command
        \<and> 0 < created_monotonic_ns command \<and> created_monotonic_ns command \<le> now
        \<and> created_monotonic_ns command < deadline_monotonic_ns command
        \<and> now \<le> deadline_monotonic_ns command
        \<and> now - created_monotonic_ns command \<le> max_command_age_ns (config s)")
      case False2: False
      let ?ts = "created_monotonic_ns command \<le> 0 \<or> now < created_monotonic_ns command
          \<or> deadline_monotonic_ns command \<le> created_monotonic_ns command"
      let ?stale = "deadline_monotonic_ns command < now
          \<or> max_command_age_ns (config s1) < now - created_monotonic_ns command"
      let ?no = "\<not> authorized ?s2 \<or> zero_episode_active s1 \<or> conn = Sync_kNewGeneration"
      note step = submit_def [of ops t command now s, unfolded Let_def up(2) prod.case up(3)]
      note go = up(1,4) False
      consider (ts) "?ts" | (stale) "\<not> ?ts" "?stale" | (no) "\<not> ?ts" "\<not> ?stale" "?no"
        | (pre) "\<not> ?ts" "\<not> ?stale" "\<not> ?no"
            "created_monotonic_ns command \<le> authorization_monotonic_ns s1"
        | (mot) "\<not> ?ts" "\<not> ?stale" "\<not> ?no"
            "\<not> created_monotonic_ns command \<le> authorization_monotonic_ns s1"
        by blast
      then have st: "\<not> accepted_submission st \<and> (\<exists>x. s' = x \<and> narrows ?s2 x \<and> (halted ?s2 \<longrightarrow> halted x))"
      proof cases
        case ts
        with go have "submit ops t command now s
            = (Sub_kTimestampInvalid, reject_and_inhibit ops t now ?s2)"
          by (simp add: step)
        with res h2 show ?thesis by (auto simp: accepted_submission_def)
      next
        case stale
        with go have "submit ops t command now s = (Sub_kStale, beginZeroEpisode ops t
            (if authorized (clearMotionIntent ?s2) then S_kRecovering else S_kConnectedInhibited)
            now (clearMotionIntent ?s2))"
          by (simp add: step)
        with res h2 show ?thesis by (auto simp: accepted_submission_def)
      next
        case no
        with go have "submit ops t command now s = (Sub_kNotAuthorized, clearMotionIntent ?s2)"
          by (simp add: step)
        with res h2 show ?thesis by (auto simp: accepted_submission_def)
      next
        case pre
        with go have "submit ops t command now s = (Sub_kPredatesAuthorization,
            beginZeroEpisode ops t S_kRecovering now (clearMotionIntent ?s2))"
          by (simp add: step)
        with res h2 show ?thesis by (auto simp: accepted_submission_def)
      next
        case mot
        with go have "submit ops t command now s = submit_motion ops t command now ?s2"
          by (simp add: step)
        with mot False2 ent(13) show ?thesis by simp
      qed
      then show ?thesis using high [OF seq] by simp
    next
      case True
      then have conn: "conn = Sync_kUnchanged" using up(4) by (cases conn) auto
      note s1 = ent(12) [OF conn]
      have "submit_motion ops t command now ?s2 = (st, s')" using True res by simp
      from submit_motion_effect [OF inv2 [OF seq] _ _ this]
      have eff: "if accepted_submission st
         then stored_as command now ?s2 s' \<and> feedbackIsFresh now ?s2
              \<and> enc_ok (encodeCommand (motion command) (safety_config.max_linear_speed_mps (config ?s2)))
              \<and> isfinite (yaw_rate_radps (motion command))
              \<and> \<not> f64_less (max_abs_yaw_rate_radps (config ?s2)) (f64_abs (yaw_rate_radps (motion command)))
              \<and> f64_eq (lateral_speed_mps (motion command)) f64_zero
              \<and> \<not> commandIsExactZero (motion command)
         else narrows ?s2 s' \<and> halted s'"
        using True by simp
      show ?thesis
      proof (cases "accepted_submission st")
        case acc: True
        have "0 < sequence_id command" using seq by (meson le_less_trans word_zero_le)
        then have "submission_ok now command s" "stored_as command now s s'"
          using eff acc True seq unfolding s1
          by (auto simp: submission_ok_def command_admitted_def stored_as_def authorized_def
              feedbackIsFresh_def Let_def)
        with acc up(5) conn s1 False show ?thesis by simp
      next
        case rej: False
        with eff high [OF seq] show ?thesis by simp
      qed
    qed
  qed
qed

end
