(* ===== verification/Safety_Effects.thy ===== *)
theory Safety_Effects
  imports Safety_Runs
begin

text \<open>
  What each operation of the session can change: an authorization is gained
  only by a granted \<open>authorize\<close>, a motion intent only by an accepted \<open>submit\<close>, the
  emergency stop is left only by a successful reset, and the halted states only
  by a completed zero write; every other step narrows.
\<close>

section \<open>The effect of the other operations\<close>

lemma down_halted:
  "\<lbrakk>observeMonotonicTime now s = (ok, so); halted s\<rbrakk> \<Longrightarrow> halted (handleDisconnect so)"
  using halted_private(4,5) by (metis snd_conv)

lemma authorize_granted:
  assumes inv: "session_inv s" and res: "authorize ops t token now s = (Auth_kAuthorized, s')"
  shows "entered ops t now s Sync_kUnchanged (s\<lparr>last_observed_monotonic_ns := now\<rparr>)"
    and "\<not> emergency_stop_latched s" "\<not> zero_episode_active s" "state s \<noteq> S_kFaulted"
    and "highest_authorization_token s < token" "feedbackIsFresh now s"
    and "s' = clearMotionIntent (s\<lparr>last_observed_monotonic_ns := now,
           highest_authorization_token := token, authorization_active := True,
           authorized_generation := connection_generation s,
           authorization_monotonic_ns := now\<rparr>)\<lparr>state := S_kRecovering\<rparr>"
proof -
  obtain so conn s1 where up: "configuration_valid s" "observeMonotonicTime now s = (True, so)"
      "synchronizeConnection ops t so = (conn, s1)" "conn \<noteq> Sync_kDisconnected"
      "entered ops t now s conn s1"
    by (cases rule: entry_cases [where s = s and now = now and ops = ops and t = t])
       (use res in \<open>auto simp: authorize_def\<close>)
  note ent = entered_facts [OF inv up(5)]
  note res' = res [unfolded authorize_def Let_def up(2) prod.case up(3)]
  have conn: "conn = Sync_kUnchanged"
    using res' up(1,4) by (cases conn) (simp_all split: if_splits)
  note s1 = ent(12) [OF conn]
  have fresh: "feedbackIsFresh now (s\<lparr>last_observed_monotonic_ns := now\<rparr>) = feedbackIsFresh now s"
    by (simp add: feedbackIsFresh_def)
  show "entered ops t now s Sync_kUnchanged (s\<lparr>last_observed_monotonic_ns := now\<rparr>)"
    using up(5) conn s1 by simp
  show "\<not> emergency_stop_latched s" "\<not> zero_episode_active s" "state s \<noteq> S_kFaulted"
    "highest_authorization_token s < token" "feedbackIsFresh now s"
    "s' = clearMotionIntent (s\<lparr>last_observed_monotonic_ns := now,
           highest_authorization_token := token, authorization_active := True,
           authorized_generation := connection_generation s,
           authorization_monotonic_ns := now\<rparr>)\<lparr>state := S_kRecovering\<rparr>"
    using res' up(1) fresh unfolding s1 conn by (simp_all add: not_le split: if_splits)
qed

lemma authorize_denied:
  assumes res: "authorize ops t token now s = (status, s')"
    and denied: "status \<noteq> Auth_kAuthorized"
  shows "narrows s s' \<and> (halted s \<longrightarrow> halted s')"
proof (cases rule: entry_cases [where s = s and now = now and ops = ops and t = t])
  case (up so conn s1)
  note nar = narrows_entered [OF up(5)]
  have "s' = s1"
    using res denied up(1,4) unfolding authorize_def Let_def up(2) prod.case up(3)
    by (simp split: if_splits)
  with nar halted_entered [OF up(5)] show ?thesis by simp
qed (use res down_halted in \<open>auto simp: authorize_def\<close>)

lemma disarm_effect:
  assumes inv: "session_inv s" and res: "disarm ops t now s = (ok, s')"
  shows "narrows s s' \<and> (halted s \<longrightarrow> halted s')"
proof (cases rule: entry_cases [where s = s and now = now and ops = ops and t = t])
  case (up so conn s1)
  note nar = narrows_entered [OF up(5)] and h = halted_stop [OF entered_inv [OF inv up(5)]]
  note tr = narrows_trans [OF nar]
  have "s' = s1 \<or> s' = beginZeroEpisode ops t
      (inhibited_or_estop (clearMotionIntent (revokeAuthorization s1))) now
      (clearMotionIntent (revokeAuthorization s1))"
    using res up(1,4) unfolding disarm_def Let_def up(2) prod.case up(3)
    by (auto split: if_splits)
  with tr h nar halted_entered [OF up(5)] show ?thesis by auto
qed (use res down_halted in \<open>auto simp: disarm_def\<close>)

lemma requestStop_effect:
  assumes inv: "session_inv s" and res: "requestStop ops t now s = (ok, s')"
  shows "narrows s s' \<and> (halted s \<longrightarrow> halted s')"
proof (cases rule: entry_cases [where s = s and now = now and ops = ops and t = t])
  case (up so conn s1)
  note nar = narrows_entered [OF up(5)] and h = halted_stop [OF entered_inv [OF inv up(5)]]
  note tr = narrows_trans [OF nar]
  have "s' = s1 \<or> (\<exists>a. s' = beginZeroEpisode ops t a now (clearMotionIntent s1))"
    using res up(1,4) unfolding requestStop_def Let_def up(2) prod.case up(3)
    by (auto split: if_splits)
  with tr h nar halted_entered [OF up(5)] show ?thesis by auto
qed (use res down_halted in \<open>auto simp: requestStop_def\<close>)

lemma observeFeedback_effect:
  assumes inv: "session_inv s" and res: "observeFeedback ops t frame now s = (r, s')"
  shows "narrows s s' \<and> (halted s \<longrightarrow> halted s')"
proof (cases rule: entry_cases [where s = s and now = now and ops = ops and t = t])
  case (up so conn s1)
  note nar = narrows_entered [OF up(5)]
  let ?f = "\<lambda>b n. s1\<lparr>feedback_allowed_seen := b, latest_allowed_feedback_receipt_ns := n\<rparr>"
  have tr: "narrows s x" if "narrows (?f b n) x" for b n x
    by (rule narrows_trans [OF nar narrows_trans [OF narrows_feedback that]])
  have same: "halted (?f b n) = halted s1" for b n by (simp add: halted_def)
  have h: "halted s \<Longrightarrow> halted (beginZeroEpisode ops t a e (clearMotionIntent (revokeAuthorization (?f b n))))"
    for a e b n
    using halted_entered [OF up(5)] same by simp
  let ?stop = "clearMotionIntent (revokeAuthorization (?f False 0))"
  have "s' = s1 \<or> s' = ?f True now \<or> s' = beginZeroEpisode ops t (inhibited_or_estop ?stop) now ?stop"
    using res up(1,4) unfolding observeFeedback_def Let_def up(2) prod.case up(3)
    by (simp split: if_splits)
  moreover have "narrows s s1 \<and> (halted s \<longrightarrow> halted s1)"
    using nar halted_entered [OF up(5)] by blast
  moreover have "narrows s (?f True now) \<and> (halted s \<longrightarrow> halted (?f True now))"
    by (intro conjI impI tr [OF narrows_refl]) (simp add: same halted_entered [OF up(5)])
  moreover have "narrows s (beginZeroEpisode ops t a now ?stop)
      \<and> (halted s \<longrightarrow> halted (beginZeroEpisode ops t a now ?stop))" for a
    by (intro conjI impI tr [OF narrows_inhibit] h)
  ultimately show ?thesis by (elim disjE) simp_all
qed (use res down_halted in \<open>auto simp: observeFeedback_def\<close>)

lemma resetEmergencyStop_refused:
  assumes inv: "session_inv s" and res: "resetEmergencyStop ops t token now s = (False, s')"
  shows "narrows s s' \<and> (halted s \<longrightarrow> halted s')"
proof (cases rule: entry_cases [where s = s and now = now and ops = ops and t = t])
  case (up so conn s1)
  note nar = narrows_entered [OF up(5)]
  have "s' = s1 \<or> s' = s"
    using res up(1,4) unfolding resetEmergencyStop_def Let_def up(2) prod.case up(3)
    by (auto split: if_splits)
  with nar halted_entered [OF up(5)] show ?thesis by auto
qed (use res down_halted in \<open>auto simp: resetEmergencyStop_def split: if_splits\<close>)

lemma resetEmergencyStop_done:
  assumes inv: "session_inv s" and res: "resetEmergencyStop ops t token now s = (True, s')"
  shows "entered ops t now s Sync_kUnchanged (s\<lparr>last_observed_monotonic_ns := now\<rparr>)"
    "emergency_stop_latched s" "\<not> zero_episode_active s" "state s \<noteq> S_kFaulted"
    "highest_estop_reset_token s < token" "feedbackIsFresh now s"
    "s' = clearMotionIntent (revokeAuthorization (s\<lparr>last_observed_monotonic_ns := now,
            highest_estop_reset_token := token, emergency_stop_latched := False\<rparr>))
            \<lparr>state := S_kConnectedInhibited\<rparr>"
proof -
  obtain so conn s1 where up: "configuration_valid s" "observeMonotonicTime now s = (True, so)"
      "synchronizeConnection ops t so = (conn, s1)" "conn \<noteq> Sync_kDisconnected"
      "entered ops t now s conn s1"
    by (cases rule: entry_cases [where s = s and now = now and ops = ops and t = t])
       (use res in \<open>auto simp: resetEmergencyStop_def split: if_splits\<close>)
  note ent = entered_facts [OF inv up(5)]
  note res' = res [unfolded resetEmergencyStop_def Let_def up(2) prod.case up(3)]
  have conn: "conn = Sync_kUnchanged"
    using res' up(1,4) by (cases conn) (simp_all split: if_splits)
  note s1 = ent(12) [OF conn]
  have fresh: "feedbackIsFresh now (s\<lparr>last_observed_monotonic_ns := now\<rparr>) = feedbackIsFresh now s"
    by (simp add: feedbackIsFresh_def)
  show "entered ops t now s Sync_kUnchanged (s\<lparr>last_observed_monotonic_ns := now\<rparr>)"
    using up(5) conn s1 by simp
  show "emergency_stop_latched s" "\<not> zero_episode_active s" "state s \<noteq> S_kFaulted"
    "highest_estop_reset_token s < token" "feedbackIsFresh now s"
    "s' = clearMotionIntent (revokeAuthorization (s\<lparr>last_observed_monotonic_ns := now,
            highest_estop_reset_token := token, emergency_stop_latched := False\<rparr>))
            \<lparr>state := S_kConnectedInhibited\<rparr>"
    using res' up(1) fresh unfolding s1 conn by (simp_all add: not_le split: if_splits)
qed

text \<open>Latching: as narrowing from the session with the latch set.\<close>

lemma latchEmergencyStop_effect:
  assumes inv: "session_inv s"
  shows "narrows (s\<lparr>emergency_stop_latched := True\<rparr>) (latchEmergencyStop ops t now s)
    \<and> (halted s \<longrightarrow> halted (latchEmergencyStop ops t now s))
    \<and> \<not> authorization_active (latchEmergencyStop ops t now s)
    \<and> \<not> latest_command_valid (latchEmergencyStop ops t now s)"
proof -
  let ?l = "latched_session s"
  let ?so = "snd (observeMonotonicTime now ?l)"
  let ?s1 = "snd (synchronizeConnection ops t ?so)"
  have l: "narrows (s\<lparr>emergency_stop_latched := True\<rparr>) ?l" "halted ?l = halted s"
    by (simp_all add: narrows_defs halted_def)
  have n1: "narrows ?l ?s1"
    by (rule narrows_trans [OF narrows_private(5) narrows_sync])
  have h1: "halted s \<Longrightarrow> halted ?s1"
    using l(2) by (auto simp: synchronizeConnection_def Let_def)
  have cases: "latchEmergencyStop ops t now s \<in> {?l, ?s1}
      \<or> (\<exists>a e. latchEmergencyStop ops t now s = beginZeroEpisode ops t a e ?s1)"
  proof (cases "configuration_valid s")
    case False
    then have "?l\<lparr>state := S_kConfigurationInvalid\<rparr> = ?l"
      using session_invD(4) [OF inv] by (simp add: connection_inv_def)
    with False show ?thesis by (simp add: latchEmergencyStop_split Let_def)
  next
    case True
    then show ?thesis by (auto simp: latchEmergencyStop_split Let_def)
  qed
  then have n: "narrows ?l (latchEmergencyStop ops t now s)"
    using n1 narrows_trans [OF n1 narrows_private(3)] by auto
  moreover have "halted s \<longrightarrow> halted (latchEmergencyStop ops t now s)"
    using cases l(2) h1 by auto
  moreover have "\<not> authorization_active ?l" "\<not> latest_command_valid ?l" by simp_all
  ultimately show ?thesis
    using narrows_trans [OF l(1) n] by (simp add: narrows_defs)
qed

text \<open>A tick leaves the halted states only by completing a zero write.\<close>

lemma state_handleDisconnect:
  "state (handleDisconnect s) = (if configuration_valid s then S_kDisconnected else state s)"
  by (simp add: handleDisconnect_def Let_def)

lemma finishZero_cases:
  fixes s r
  defines "s0 \<equiv> s\<lparr>last_observed_monotonic_ns :=
                     max (last_observed_monotonic_ns s) (completion_monotonic_ns r)\<rparr>"
    and "sent \<equiv> io_status r = T_kOk \<and> host_write_complete r
                  \<and> bytes_transferred r = length makeZeroCommandFrame"
  assumes res: "finishZero ops t now r result s = (result', s')"
  obtains (down) "io_status r = T_kDisconnected \<or> \<not> tr_connected ops t" "s' = handleDisconnect s0"
      "cyc_action result' = Cyc_kDisconnected"
  | (complete) "io_status r = T_kOk" "host_write_complete r"
      "bytes_transferred r = length makeZeroCommandFrame" "tr_connected ops t"
      "s' = s0\<lparr>zero_episode_active := False, zero_attempts := 0, next_zero_attempt_ns := 0,
               state := (if emergency_stop_latched s then S_kEmergencyStopLatched
                         else state_after_zero s)\<rparr>"
      "cyc_action result' = Cyc_kZeroHostWriteComplete"
  | (exhausted) "\<not> sent" "tr_connected ops t" "maximum_zero_attempts (config s) \<le> zero_attempts s"
      "s' = s0\<lparr>zero_episode_active := False, state := S_kFaulted\<rparr>"
      "cyc_action result' = Cyc_kZeroRetriesExhausted" "io_status r \<noteq> T_kDisconnected"
  | (retry) "\<not> sent" "tr_connected ops t" "zero_attempts s < maximum_zero_attempts (config s)"
      "s' = s0\<lparr>next_zero_attempt_ns := saturatingAdd (max now (completion_monotonic_ns r))
                                           (zero_retry_interval_ns (config s))\<rparr>"
      "cyc_action result' = Cyc_kZeroHostWriteFailed" "io_status r \<noteq> T_kDisconnected"
proof -
  have clk: "(if last_observed_monotonic_ns s < completion_monotonic_ns r
        then s\<lparr>last_observed_monotonic_ns := completion_monotonic_ns r\<rparr> else s) = s0"
    by (simp add: max_def s0_def)
  have f: "zero_attempts s0 = zero_attempts s" "config s0 = config s"
    "emergency_stop_latched s0 = emergency_stop_latched s" "state_after_zero s0 = state_after_zero s"
    by (simp_all add: s0_def)
  note eq = res [unfolded finishZero_def Let_def clk f]
  consider (d) "io_status r = T_kDisconnected \<or> \<not> tr_connected ops t"
    | (c) "\<not> (io_status r = T_kDisconnected \<or> \<not> tr_connected ops t)" sent
    | (e) "\<not> (io_status r = T_kDisconnected \<or> \<not> tr_connected ops t)" "\<not> sent"
        "maximum_zero_attempts (config s) \<le> zero_attempts s"
    | (y) "\<not> (io_status r = T_kDisconnected \<or> \<not> tr_connected ops t)" "\<not> sent"
        "\<not> maximum_zero_attempts (config s) \<le> zero_attempts s"
    by blast
  then show thesis
  proof cases
    case d
    with eq show thesis by (intro down) auto
  next
    case c
    with eq f show thesis by (intro complete) (auto simp: sent_def)
  next
    case e
    with eq show thesis by (intro exhausted) (auto simp: sent_def)
  next
    case y
    with eq show thesis by (intro retry) (auto simp: sent_def)
  qed
qed

lemma finishZero_halted:
  assumes h: "halted s" and res: "finishZero ops t now r result s = (result', s')"
    and no: "cyc_action result' \<noteq> Cyc_kZeroHostWriteComplete"
  shows "halted s'"
  using res
  by (cases rule: finishZero_cases)
     (use h no in \<open>auto simp: halted_def state_handleDisconnect\<close>)

lemma attemptZero_halted:
  assumes "halted s" "attemptZero ops t now result s = Some (result', s', t')"
    "cyc_action result' \<noteq> Cyc_kZeroHostWriteComplete"
  shows "halted s'"
  using assms(2)
proof (cases rule: attemptZero_cases)
  case (wrote out)
  show ?thesis
    by (rule finishZero_halted [OF _ wrote(4) [symmetric] assms(3)])
       (use assms(1) in \<open>simp add: halted_def\<close>)
qed (use assms(1) in simp_all)

lemma tick_halted:
  assumes inv: "session_inv s" and h: "halted s" and res: "tick ops t now s = Some (result, s', t')"
    and no: "cyc_action result \<noteq> Cyc_kZeroHostWriteComplete"
  shows "halted s'"
  using res
proof (cases rule: tick_cases)
  case (down so)
  then show ?thesis using down_halted h by simp
next
  case (quiet conn s1)
  then show ?thesis using halted_entered h by simp
next
  case (estop conn s1)
  have "halted s1" by (rule halted_entered [OF estop(1) h])
  with estop entered_facts [OF inv estop(1)] session_invD(3,4) [OF entered_inv [OF inv estop(1)]]
  have False by (auto simp: halted_def episode_inv_def connection_inv_def)
  then show ?thesis ..
next
  case (zero conn s1)
  show ?thesis by (rule attemptZero_halted [OF halted_entered [OF zero(1) h] zero(3) no])
next
  case (stop conn s1 a)
  then show ?thesis using halted_entered [OF stop(1) h] by (simp add: halted_def)
next
  case (limited conn s1)
  then show ?thesis using halted_entered [OF limited(1) h] by simp
next
  case (motion conn s1 out t1)
  then show ?thesis using halted_entered [OF motion(1) h] by (simp add: halted_def motion_due_def)
qed (use h in simp_all)

section \<open>The effect of a step of a run\<close>

text \<open>The kinds of step; the first four are the ones that can grant something.\<close>

datatype step_kind = Granted | Stored | Consumed | Reset | Latched | Ticked | Other

fun outcome_kind :: "session_outcome \<Rightarrow> step_kind" where
  "outcome_kind (Out_authorize token now status) = (if status = Auth_kAuthorized then Granted else Other)"
| "outcome_kind (Out_submit command now status) =
     (if accepted_submission status then Stored else Consumed)"
| "outcome_kind (Out_resetEmergencyStop token ok) = (if ok then Reset else Other)"
| "outcome_kind Out_latchEmergencyStop = Latched"
| "outcome_kind (Out_tick now r writes) = Ticked"
| "outcome_kind _ = Other"

lemma session_step_other:
  assumes inv: "session_inv s" and step: "session_step ops e (s, t) = Some (out, s', t')"
    and kind: "outcome_kind out = Other"
  shows "narrows s s'" "halted s \<longrightarrow> halted s'" "outcome_writes out = []"
proof -
  have "narrows s s' \<and> (halted s \<longrightarrow> halted s') \<and> outcome_writes out = []"
  proof (cases e)
    case (Ev_authorize token now)
    then obtain st where "authorize ops t token now s = (st, s')" "out = Out_authorize token now st"
      using step by (auto split: prod.splits)
    then show ?thesis using authorize_denied [of ops t token now s st s'] kind by (simp split: if_splits)
  next
    case (Ev_disarm now)
    then obtain ok where "disarm ops t now s = (ok, s')" "out = Out_disarm ok"
      using step by (auto split: prod.splits)
    then show ?thesis using disarm_effect [OF inv, of ops t now ok s'] by simp
  next
    case (Ev_requestStop now)
    then obtain ok where "requestStop ops t now s = (ok, s')" "out = Out_requestStop ok"
      using step by (auto split: prod.splits)
    then show ?thesis using requestStop_effect [OF inv, of ops t now ok s'] by simp
  next
    case (Ev_submit command now)
    then show ?thesis using step kind by (auto split: prod.splits if_splits)
  next
    case (Ev_observeFeedback frame now)
    then obtain r where "observeFeedback ops t frame now s = (r, s')" "out = Out_observeFeedback r"
      using step by (auto split: prod.splits)
    then show ?thesis using observeFeedback_effect [OF inv, of ops t frame now r s'] by simp
  next
    case (Ev_latchEmergencyStop now)
    then show ?thesis using step kind by auto
  next
    case (Ev_resetEmergencyStop token now)
    then obtain ok where "resetEmergencyStop ops t token now s = (ok, s')"
        "out = Out_resetEmergencyStop token ok"
      using step by (auto split: prod.splits)
    then show ?thesis
      using resetEmergencyStop_refused [OF inv, of ops t token now s'] kind by (cases ok) simp_all
  next
    case (Ev_tick now)
    then show ?thesis using step kind by (auto split: option.splits)
  next
    case (Ev_transport t2)
    then show ?thesis using step by simp
  qed
  then show "narrows s s'" "halted s \<longrightarrow> halted s'" "outcome_writes out = []" by simp_all
qed

lemma session_step_tick:
  assumes "session_step ops e (s, t) = Some (Out_tick now r writes, s', t')"
  shows "tick (logging ops) (t, []) now s = Some (r, s', t', writes)"
  using assms by (cases e) (auto split: option.splits prod.splits)

lemma session_step_submit:
  assumes "session_step ops e (s, t) = Some (Out_submit command now st, s', t')"
  shows "submit ops t command now s = (st, s')" "t' = t"
  using assms by (cases e; auto split: option.splits prod.splits)+

lemma session_step_authorize:
  assumes "session_step ops e (s, t) = Some (Out_authorize token now st, s', t')"
  shows "authorize ops t token now s = (st, s')" "t' = t"
  using assms by (cases e; auto split: option.splits prod.splits)+

lemma session_step_reset:
  assumes "session_step ops e (s, t) = Some (Out_resetEmergencyStop token ok, s', t')"
  shows "\<exists>now. resetEmergencyStop ops t token now s = (ok, s')"
  using assms by (cases e) (auto split: option.splits prod.splits)

lemma session_step_latch:
  assumes "session_step ops e (s, t) = Some (Out_latchEmergencyStop, s', t')"
  shows "\<exists>now. s' = latchEmergencyStop ops t now s"
  using assms by (cases e) (auto split: option.splits prod.splits)

lemma outcome_kind_cases:
  "outcome_kind out = Granted \<Longrightarrow> \<exists>token now. out = Out_authorize token now Auth_kAuthorized"
  "outcome_kind out = Stored \<Longrightarrow> \<exists>command now st. out = Out_submit command now st \<and> accepted_submission st"
  "outcome_kind out = Consumed \<Longrightarrow> \<exists>command now st. out = Out_submit command now st \<and> \<not> accepted_submission st"
  "outcome_kind out = Reset \<Longrightarrow> \<exists>token. out = Out_resetEmergencyStop token True"
  "outcome_kind out = Latched \<Longrightarrow> out = Out_latchEmergencyStop"
  "outcome_kind out = Ticked \<Longrightarrow> \<exists>now r writes. out = Out_tick now r writes"
  by (cases out; auto split: if_splits)+

text \<open>Only ticks write.\<close>

lemma outcome_writes_tick:
  "outcome_kind out \<noteq> Ticked \<Longrightarrow> outcome_writes out = []"
  by (cases out) auto

lemma tick_step_narrows:
  assumes "session_inv s" "session_step ops e (s, t) = Some (Out_tick now r writes, s', t')"
  shows "narrows s s'"
  using tick_narrows [OF assms(1) session_step_tick [OF assms(2)]] by simp

lemma stored_effect:
  assumes "session_inv s" "session_step ops e (s, t) = Some (Out_submit command now st, s', t')"
    "accepted_submission st"
  shows "entered ops t now s Sync_kUnchanged (s\<lparr>last_observed_monotonic_ns := now\<rparr>)"
    "state s \<noteq> S_kFaulted" "submission_ok now command s" "stored_as command now s s'"
  using submit_effect [OF assms(1) session_step_submit(1) [OF assms(2)]] assms(3) by simp_all

lemma consumed_effect:
  assumes "session_inv s" "session_step ops e (s, t) = Some (Out_submit command now st, s', t')"
    "\<not> accepted_submission st"
  shows "consumes command s s'"
  using submit_effect [OF assms(1) session_step_submit(1) [OF assms(2)]] assms(3) by simp

end
