(* ===== verification/Safety_Samples.thy ===== *)
theory Safety_Samples
  imports Safety_Effects
begin

text \<open>
  A concrete transport and a concrete run, at which the properties of the
  safety session are applied: a transport whose state is its generation (0 when
  closed) and a script of write outcomes (success once the script is used up).
\<close>

type_synonym scripted = "u64 \<times> io_result call_outcome list"

definition write_ok :: "u8 list \<Rightarrow> io_result" where
  "write_ok data =
     \<lparr>io_status = T_kOk, bytes_transferred = length data, os_error = 0, host_write_complete = True,
      outcome_uncertain = False, completion_monotonic_ns = 0\<rparr>"

definition write_timeout :: io_result where
  "write_timeout = defaultIoResult\<lparr>io_status := T_kDeadlineExceeded, outcome_uncertain := True\<rparr>"

definition scripted_ops :: "scripted transport_ops" where
  "scripted_ops =
     \<lparr>tr_connected = (\<lambda>t. fst t \<noteq> 0), tr_generation = fst,
      tr_writeAll = (\<lambda>t data deadline.
        case snd t of [] \<Rightarrow> Some (Returned (write_ok data), t)
        | out # outs \<Rightarrow> Some (out, (fst t, outs)))\<rparr>"

lemma scripted_simps [simp]:
  "tr_connected scripted_ops (g, outs) = (g \<noteq> 0)"
  "tr_generation scripted_ops (g, outs) = g"
  "tr_writeAll scripted_ops (g, []) data deadline = Some (Returned (write_ok data), (g, []))"
  "tr_writeAll scripted_ops (g, out # outs) data deadline = Some (out, (g, outs))"
  by (simp_all add: scripted_ops_def)

lemma write_ok_simps [simp]:
  "io_status (write_ok data) = T_kOk" "host_write_complete (write_ok data)"
  "bytes_transferred (write_ok data) = length data" "completion_monotonic_ns (write_ok data) = 0"
  "\<not> outcome_uncertain (write_ok data)"
  by (simp_all add: write_ok_def)

definition sample_config :: safety_config where
  "sample_config =
     \<lparr>max_linear_speed_mps = f64_of_int 2, max_abs_yaw_rate_radps = f64_of_int 1,
      max_command_age_ns = 100000000, feedback_timeout_ns = 150000000,
      transmit_period_ns = 20000000, write_timeout_ns = 10000000,
      zero_retry_interval_ns = 20000000, maximum_zero_attempts = 3, fresh_commands_required = 2\<rparr>"

definition drive_command :: motion_command where
  "drive_command =
     \<lparr>linear_speed_mps = f64_decimal 125 2, lateral_speed_mps = f64_zero,
      yaw_rate_radps = f64_decimal 5 1\<rparr>"

definition drive_frame :: "u8 list" where
  "drive_frame = [0x7B, 0, 0, 0x04, 0xE2, 0, 0, 0x01, 0xF4, 0x68, 0x7D]"

lemma drive_command_encodes [simp]:
  "encodeCommand drive_command (f64_of_int 2) = \<lparr>enc_frame = drive_frame, enc_error = Enc_kNone\<rparr>"
  by (simp add: encodeCommand_def drive_command_def isValidMaxLinearSpeed_def quantizeWireValue_def
      motion_constants_F f64_eval buildCommandFrame_eq frame_consts drive_frame_def)

definition sample_timed :: "u64 \<Rightarrow> int \<Rightarrow> timed_motion_command" where
  "sample_timed q created =
     \<lparr>sequence_id = q, created_monotonic_ns = created,
      deadline_monotonic_ns = created + 50000000, motion = drive_command\<rparr>"

lemma sample_config_valid [simp]: "safetyConfigIsValid sample_config"
  by (simp add: safetyConfigIsValid_def sample_config_def isValidMaxLinearSpeed_def f64_eval
      kMaximumDurationNs_def)

lemma sample_config_simps [simp]:
  "safety_config.max_linear_speed_mps sample_config = f64_of_int 2"
  "max_abs_yaw_rate_radps sample_config = f64_of_int 1"
  "max_command_age_ns sample_config = 100000000" "feedback_timeout_ns sample_config = 150000000"
  "transmit_period_ns sample_config = 20000000" "write_timeout_ns sample_config = 10000000"
  "zero_retry_interval_ns sample_config = 20000000" "maximum_zero_attempts sample_config = 3"
  "fresh_commands_required sample_config = 2"
  by (simp_all add: sample_config_def)

lemma sample_timed_simps [simp]:
  "sequence_id (sample_timed q c) = q" "created_monotonic_ns (sample_timed q c) = c"
  "deadline_monotonic_ns (sample_timed q c) = c + 50000000" "motion (sample_timed q c) = drive_command"
  by (simp_all add: sample_timed_def)

lemma drive_command_limits [simp]:
  "isfinite (yaw_rate_radps drive_command)"
  "\<not> f64_less (f64_of_int 1) (f64_abs (yaw_rate_radps drive_command))"
  "f64_eq (lateral_speed_mps drive_command) f64_zero"
  "\<not> commandIsExactZero drive_command"
  by (simp_all add: drive_command_def commandIsExactZero_def f64_eval)

lemma sample_feedback_allows [simp]:
  "dec_ok (decodeFeedbackFrame (Some sample_feedback))"
  "control_allowed (dec_feedback (decodeFeedbackFrame (Some sample_feedback)))"
  by (simp add: sample_feedback_ok)
     (simp add: decode_ok_fields [OF sample_feedback_ok] decodeFields_def, simp add: sample_feedback_def)


lemmas session_exec =
  newSafetySession_def synchronizeConnection_def handleNewConnection_def handleDisconnect_def
  handleClockFailure_def beginZeroEpisode_def clearMotionIntent_def revokeAuthorization_def
  inhibited_or_estop_def observeMonotonicTime_def authorized_def feedbackIsFresh_def
  commandIsFresh_def tick_def attemptZero_def finishZero_def finishMotion_def authorize_def
  disarm_def requestStop_def submit_def submit_motion_def store_command_def reject_and_inhibit_def
  observeFeedback_def latchEmergencyStop_def resetEmergencyStop_def result_or_exception_def
  boundedWriteDeadline_def saturatingAdd_def int64_max_def enc_ok_def Let_def

definition sample_start :: "safety_session \<times> scripted" where
  "sample_start = (newSafetySession sample_config True scripted_ops (1, []), (1, []))"

definition bring_up :: "scripted session_event list" where
  "bring_up =
     [Ev_tick 1000, Ev_observeFeedback sample_feedback 2000, Ev_authorize 7 3000,
      Ev_submit (sample_timed 1 4000) 5000, Ev_submit (sample_timed 2 5500) 6000]"

definition zero_done :: cycle_result where
  "zero_done = defaultCycleResult
     \<lparr>cyc_zero_write_attempted := True, cyc_zero_attempts := 1, cyc_zero_host_write_complete := True,
      cyc_transport_status := T_kOk, cyc_action := Cyc_kZeroHostWriteComplete,
      cyc_state := S_kConnectedInhibited\<rparr>"

definition bring_up_outs :: "session_outcome list" where
  "bring_up_outs =
     [Out_tick 1000 zero_done [(makeZeroCommandFrame, 10001000)],
      Out_observeFeedback
        \<lparr>obs_status = Obs_kAcceptedControlAllowed, obs_valid_frame = True, obs_control_allowed = True\<rparr>,
      Out_authorize 7 3000 Auth_kAuthorized,
      Out_submit (sample_timed 1 4000) 5000 Sub_kRecoveryPending,
      Out_submit (sample_timed 2 5500) 6000 Sub_kAccepted]"

definition sample_active :: safety_session where
  "sample_active =
     \<lparr>config = sample_config, transport_present = True, configuration_valid = True,
      state = S_kActive, connection_known = True, connection_generation = 1,
      last_observed_monotonic_ns = 6000, authorization_active = True,
      highest_authorization_token = 7, authorized_generation = 1, authorization_monotonic_ns = 3000,
      highest_sequence = 2, consecutive_fresh_commands = 2, latest_command_valid = True,
      latest_command = sample_timed 2 5500, latest_frame = drive_frame,
      latest_command_receipt_ns = 6000, last_motion_host_write_completion_ns = 0,
      feedback_allowed_seen = True, latest_allowed_feedback_receipt_ns = 2000,
      zero_episode_active = False, state_after_zero = S_kConnectedInhibited, zero_attempts = 0,
      next_zero_attempt_ns = 0, emergency_stop_latched = False, emergency_stop_latch_generation = 0,
      highest_estop_reset_token = 0\<rparr>"

lemma word_two_one [simp]: "\<not> (2::u32) \<le> 1" "\<not> (2::u64) \<le> 1"
  by (simp_all add: word_le_nat_alt)

lemma bring_up_run:
  "session_run scripted_ops bring_up sample_start = Some (bring_up_outs, sample_active, (1, []))"
  by (simp add: bring_up_def sample_start_def bring_up_outs_def sample_active_def zero_done_def
      session_exec kCommandFrameSize_def)

lemma run_reachable:
  "\<lbrakk>session_reachable ops cfg s t; session_run ops es (s, t) = Some (outs, s', t')\<rbrakk>
     \<Longrightarrow> session_reachable ops cfg s' t'"
proof (induction es arbitrary: s t outs)
  case (Cons e es)
  then obtain out s1 t1 outs1 where "session_step ops e (s, t) = Some (out, s1, t1)"
      "session_run ops es (s1, t1) = Some (outs1, s', t')"
    unfolding session_run_Cons by auto
  with Cons show ?case by (blast intro: session_reachable.step)
qed simp

lemma sample_start_reachable: "session_reachable scripted_ops sample_config (fst sample_start) (1, [])"
  unfolding sample_start_def fst_conv by (rule session_reachable.start)

lemma sample_active_reachable: "session_reachable scripted_ops sample_config sample_active t"
proof -
  have run: "session_run scripted_ops bring_up (fst sample_start, (1, []))
      = Some (bring_up_outs, sample_active, (1, []))"
    using bring_up_run by (simp add: sample_start_def)
  have "session_step scripted_ops (Ev_transport t) (sample_active, (1, []))
      = Some (Out_transport, sample_active, t)" by simp
  then show ?thesis
    by (rule session_reachable.step [OF run_reachable [OF sample_start_reachable run]])
qed

lemma sample_active_inv: "session_inv sample_active"
  by (rule session_reachable_inv [OF sample_active_reachable])

end
