(* ===== verification/Safety_Properties.thy ===== *)
theory Safety_Properties
  imports Safety_Samples
begin

text \<open>
  The safety properties of the session, each applied to the bring-up run of
  \<open>Safety_Samples\<close> where it has a hypothesis.
\<close>

section \<open>What is written\<close>

lemma run_inv:
  assumes "session_run ops es (s, t) = Some (outs, s', t')" "session_inv s"
  shows "session_inv s'"
proof -
  have "session_inv s' \<and> (\<forall>out\<in>set outs. True)"
    using assms by (rule run_induct) (blast intro: session_step_inv)
  then show ?thesis ..
qed

lemma session_step_cases:
  assumes inv: "session_inv s" and step: "session_step ops e (s, t) = Some (out, s', t')"
  obtains (granted) token now where "out = Out_authorize token now Auth_kAuthorized"
      "authorize ops t token now s = (Auth_kAuthorized, s')" "t' = t"
      "\<not> emergency_stop_latched s" "\<not> zero_episode_active s" "state s \<noteq> S_kFaulted"
      "entered ops t now s Sync_kUnchanged (s\<lparr>last_observed_monotonic_ns := now\<rparr>)"
      "highest_authorization_token s < token"
      "s' = clearMotionIntent (s\<lparr>last_observed_monotonic_ns := now,
           highest_authorization_token := token, authorization_active := True,
           authorized_generation := connection_generation s,
           authorization_monotonic_ns := now\<rparr>)\<lparr>state := S_kRecovering\<rparr>"
  | (stored) command now st where "out = Out_submit command now st" "accepted_submission st"
      "entered ops t now s Sync_kUnchanged (s\<lparr>last_observed_monotonic_ns := now\<rparr>)" "t' = t"
      "state s \<noteq> S_kFaulted" "submission_ok now command s" "stored_as command now s s'"
  | (consumed) command now st q where "out = Out_submit command now st" "\<not> accepted_submission st"
      "q = highest_sequence s \<or> highest_sequence s < q \<and> q = sequence_id command"
      "narrows (s\<lparr>highest_sequence := q\<rparr>) s'" "halted s \<longrightarrow> halted s'" "t' = t"
  | (reset) token now where "out = Out_resetEmergencyStop token True"
      "resetEmergencyStop ops t token now s = (True, s')"
      "emergency_stop_latched s" "\<not> zero_episode_active s" "state s \<noteq> S_kFaulted"
      "entered ops t now s Sync_kUnchanged (s\<lparr>last_observed_monotonic_ns := now\<rparr>)"
      "highest_estop_reset_token s < token" "feedbackIsFresh now s"
      "s' = clearMotionIntent (revokeAuthorization (s\<lparr>last_observed_monotonic_ns := now,
            highest_estop_reset_token := token, emergency_stop_latched := False\<rparr>))
            \<lparr>state := S_kConnectedInhibited\<rparr>"
  | (latched) now where "out = Out_latchEmergencyStop" "s' = latchEmergencyStop ops t now s"
      "narrows (s\<lparr>emergency_stop_latched := True\<rparr>) s'" "halted s \<longrightarrow> halted s'"
      "\<not> authorization_active s'" "\<not> latest_command_valid s'"
  | (ticked) now r writes where "out = Out_tick now r writes"
      "tick (logging ops) (t, []) now s = Some (r, s', t', writes)" "narrows s s'"
  | (other) "outcome_kind out = Other" "narrows s s'" "halted s \<longrightarrow> halted s'" "outcome_writes out = []"
proof (cases "outcome_kind out")
  case Granted
  then obtain token now where o: "out = Out_authorize token now Auth_kAuthorized"
    using outcome_kind_cases(1) by blast
  note a = session_step_authorize [OF step [unfolded o]]
  show thesis by (rule granted [OF o a]) (rule authorize_granted [OF inv a(1)])+
next
  case Stored
  then obtain command now st where o: "out = Out_submit command now st" "accepted_submission st"
    using outcome_kind_cases(2) by blast
  show thesis
    by (rule stored [OF o _ session_step_submit(2) [OF step [unfolded o(1)]]])
       (rule stored_effect [OF inv step [unfolded o(1)] o(2)])+
next
  case Consumed
  then obtain command now st where o: "out = Out_submit command now st" "\<not> accepted_submission st"
    using outcome_kind_cases(3) by blast
  obtain q where q: "q = highest_sequence s \<or> highest_sequence s < q \<and> q = sequence_id command"
      "narrows (s\<lparr>highest_sequence := q\<rparr>) s'" "halted s \<longrightarrow> halted s'"
    using consumed_effect [OF inv step [unfolded o(1)] o(2)] unfolding consumes_def by blast
  show thesis by (rule consumed [OF o q session_step_submit(2) [OF step [unfolded o(1)]]])
next
  case Reset
  then obtain token where o: "out = Out_resetEmergencyStop token True"
    using outcome_kind_cases(4) by blast
  obtain now where r: "resetEmergencyStop ops t token now s = (True, s')"
    using session_step_reset [OF step [unfolded o]] by blast
  show thesis by (rule reset [OF o r]) (rule resetEmergencyStop_done [OF inv r])+
next
  case Latched
  then have o: "out = Out_latchEmergencyStop" using outcome_kind_cases(5) by blast
  obtain now where l: "s' = latchEmergencyStop ops t now s"
    using session_step_latch [OF step [unfolded o]] by blast
  show thesis
    by (rule latched [OF o l]) (simp_all add: l latchEmergencyStop_effect [OF inv])
next
  case Ticked
  then obtain now r writes where o: "out = Out_tick now r writes"
    using outcome_kind_cases(6) by blast
  show thesis
    by (rule ticked [OF o session_step_tick [OF step [unfolded o]] tick_step_narrows [OF inv step [unfolded o]]])
next
  case Other
  show thesis by (rule other [OF Other session_step_other [OF inv step Other]])
qed

text \<open>The intent a session holds was accepted in its run.\<close>

definition accepted_in :: "session_outcome list \<Rightarrow> timed_motion_command \<Rightarrow> bool" where
  "accepted_in outs command \<longleftrightarrow>
     (\<exists>now st. Out_submit command now st \<in> set outs \<and> accepted_submission st)"

lemma no_gain_intent:
  assumes "narrows s s'" "latest_command_valid s \<longrightarrow> P (latest_command s)"
  shows "latest_command_valid s' \<longrightarrow> P (latest_command s')"
  using assms by (auto simp: narrows_defs)

lemma step_intent:
  assumes inv: "session_inv s" and step: "session_step ops e (s, t) = Some (out, s', t')"
    and out: "out \<in> set outs"
    and intent: "latest_command_valid s \<longrightarrow> accepted_in outs (latest_command s)"
  shows "latest_command_valid s' \<longrightarrow> accepted_in outs (latest_command s')"
  using inv step
proof (cases rule: session_step_cases)
  case (stored command now st)
  then show ?thesis using out by (auto simp: stored_as_def accepted_in_def)
next
  case (consumed command now st q)
  show ?thesis by (rule no_gain_intent [OF consumed(4)]) (use intent in simp)
next
  case (ticked now r writes)
  show ?thesis by (rule no_gain_intent [OF ticked(3)]) (rule intent)
next
  case other
  show ?thesis by (rule no_gain_intent [OF other(2)]) (rule intent)
qed simp_all

lemma step_config:
  assumes inv: "session_inv s" and step: "session_step ops e (s, t) = Some (out, s', t')"
  shows "config s' = config s"
  using inv step
  by (cases rule: session_step_cases) (simp_all add: stored_as_def narrows_defs)

lemma newSafetySession_fields [simp]:
  "config (newSafetySession cfg present ops t) = cfg"
  "\<not> latest_command_valid (newSafetySession cfg present ops t)"
  "\<not> authorization_active (newSafetySession cfg present ops t)"
  "highest_sequence (newSafetySession cfg present ops t) = 0"
  "highest_authorization_token (newSafetySession cfg present ops t) = 0"
  "highest_estop_reset_token (newSafetySession cfg present ops t) = 0"
  "\<not> emergency_stop_latched (newSafetySession cfg present ops t)"
proof -
  have "\<not> latest_command_valid (snd (synchronizeConnection ops t s))"
    "\<not> authorization_active (snd (synchronizeConnection ops t s))"
    if "\<not> latest_command_valid s" "\<not> authorization_active s" for s
    using that by (simp_all add: synchronizeConnection_def Let_def)
  then show "\<not> latest_command_valid (newSafetySession cfg present ops t)"
    "\<not> authorization_active (newSafetySession cfg present ops t)"
    by (simp_all add: newSafetySession_def Let_def)
qed (simp_all add: newSafetySession_def Let_def)

lemma run_intent:
  assumes run: "session_run ops es (newSafetySession cfg present ops t0, t0) = Some (outs, s, t)"
  shows "session_inv s" "config s = cfg"
    "latest_command_valid s \<longrightarrow> accepted_in outs (latest_command s)"
proof -
  let ?I = "\<lambda>s t. session_inv s \<and> config s = cfg
      \<and> (latest_command_valid s \<longrightarrow> accepted_in outs (latest_command s))"
  have "?I s t \<and> (\<forall>out\<in>set outs. True)"
    using run
  proof (rule run_induct [where I = ?I])
    fix e s t out s' t'
    assume "?I s t" "session_step ops e (s, t) = Some (out, s', t')" "out \<in> set outs"
    then show "?I s' t' \<and> True"
      using session_step_inv step_intent step_config by (metis (no_types, lifting))
  qed (simp add: newSafetySession_inv)
  then show "session_inv s" "config s = cfg"
    "latest_command_valid s \<longrightarrow> accepted_in outs (latest_command s)" by simp_all
qed

lemma sample_motion_tick:
  "\<exists>r s'. tick (logging scripted_ops) ((1, []), []) 7000 sample_active
      = Some (r, s', (1, []), [(drive_frame, 10007000)])"
  by (simp add: sample_active_def session_exec drive_frame_def)

lemma tick_frames_admitted:
  assumes run: "session_run ops es (newSafetySession cfg present ops t0, t0) = Some (outs, s, t)"
    and tick: "tick (logging ops) (t, []) now s = Some (result, s', t', writes)"
    and written: "(frame, deadline) \<in> set writes"
  shows "frame = makeZeroCommandFrame
    \<or> (\<exists>command. accepted_in outs command \<and> command_admitted cfg command frame
         \<and> deadline \<le> deadline_monotonic_ns command)"
proof -
  note facts = run_intent [OF run]
  from facts(1) tick show ?thesis
  proof (cases rule: tick_writes)
    case (motion out t1)
    then have valid: "latest_command_valid s" by (simp add: motion_due_def commandIsFresh_def)
    then have "command_admitted cfg (latest_command s) (latest_frame s)"
      using session_invD(1) [OF facts(1)] facts(2) by (simp add: intent_inv_def)
    moreover have "boundedWriteDeadline now (deadline_monotonic_ns (latest_command s)) s
        \<le> deadline_monotonic_ns (latest_command s)"
      by (simp add: boundedWriteDeadline_def)
    ultimately show ?thesis
      using motion(4) written facts(3) valid by auto
  qed (use written in auto)
qed

text \<open>
  C1: A tick writes nothing but frames that stop the vehicle and frames of commands that were
  accepted earlier in the same run: after any sequence of operations and transport changes
  since the session was created, each frame that a tick writes either is the all-zero command
  frame, or is the encoding of a command that an earlier \<open>submit\<close> accepted, within the
  configured speed and yaw limits, without lateral motion and not all zero.
\<close>

theorem tick_writes_only_admitted:
  assumes run: "session_run ops es (newSafetySession cfg present ops t0, t0) = Some (outs, s, t)"
    and tick: "tick (logging ops) (t, []) now s = Some (result, s', t', writes)"
    and written: "(frame, deadline) \<in> set writes"
  shows "frame = makeZeroCommandFrame
    \<or> (\<exists>command. accepted_in outs command \<and> command_admitted cfg command frame
         \<and> deadline \<le> deadline_monotonic_ns command)"
  by (rule tick_frames_admitted [OF assms])

theorem tick_writes_only_admitted_witness:
  "drive_frame = makeZeroCommandFrame
    \<or> (\<exists>command. accepted_in bring_up_outs command
        \<and> command_admitted sample_config command drive_frame
        \<and> (10007000::int) \<le> deadline_monotonic_ns command)"
proof -
  obtain r s' where "tick (logging scripted_ops) ((1, []), []) 7000 sample_active
      = Some (r, s', (1, []), [(drive_frame, 10007000)])"
    using sample_motion_tick by blast
  from tick_writes_only_admitted [OF bring_up_run [unfolded sample_start_def] this]
  show ?thesis by simp
qed

text \<open>
  C2: A motion frame reaches the transport only under the full set of permissions: the session
  is active and authorized on the current connection generation without emergency stop or
  pending zero, control-allowing feedback and the command are within their age limits, the
  command was created after the authorization, its deadline has not passed, the transmit period
  has elapsed since the last completed motion write, and the write deadline is within both the
  write timeout and the command's own deadline.
\<close>

theorem motion_write_conditions:
  assumes reach: "session_reachable ops cfg s t"
    and tick: "tick (logging ops) (t, []) now s = Some (result, s', t', writes)"
    and written: "(frame, deadline) \<in> set writes" and motion: "frame \<noteq> makeZeroCommandFrame"
  shows "state s = S_kActive \<and> authorized s \<and> tr_connected ops t
    \<and> authorized_generation s = tr_generation ops t
    \<and> 0 < latest_allowed_feedback_receipt_ns s
    \<and> now - latest_allowed_feedback_receipt_ns s \<le> feedback_timeout_ns (config s)
    \<and> authorization_monotonic_ns s < created_monotonic_ns (latest_command s)
    \<and> created_monotonic_ns (latest_command s) \<le> now
    \<and> now \<le> deadline_monotonic_ns (latest_command s)
    \<and> now - created_monotonic_ns (latest_command s) \<le> max_command_age_ns (config s)
    \<and> (last_motion_host_write_completion_ns s = 0
       \<or> last_motion_host_write_completion_ns s + transmit_period_ns (config s) \<le> now)
    \<and> deadline = min (saturatingAdd now (write_timeout_ns (config s)))
                     (deadline_monotonic_ns (latest_command s))"
  using session_reachable_inv [OF reach] tick
proof (cases rule: tick_writes)
  case (motion out t1)
  note inv = session_reachable_inv [OF reach]
  note ent = entered_facts [OF inv motion(2)]
  have due: "state s = S_kActive" "authorized s" "feedbackIsFresh now s" "commandIsFresh now s"
    "\<not> (last_motion_host_write_completion_ns s > 0
        \<and> now - last_motion_host_write_completion_ns s < transmit_period_ns (config s))"
    using motion(1) by (simp_all add: motion_due_def)
  have "latest_command_valid s" using due(4) by (simp add: commandIsFresh_def)
  then have "authorization_monotonic_ns s < created_monotonic_ns (latest_command s)"
    using session_invD(1) [OF inv] by (simp add: intent_inv_def)
  moreover have "0 \<le> last_motion_host_write_completion_ns s"
    using session_invD(5) [OF inv] by (simp add: clock_inv_def)
  moreover have "authorized_generation s = tr_generation ops t"
    using authorizedD(5) [OF due(2)] ent(9) by simp
  moreover have "deadline = boundedWriteDeadline now (deadline_monotonic_ns (latest_command s)) s"
    using motion(4) written assms(4) by auto
  ultimately show ?thesis
    using due ent(3)
    by (auto simp: feedbackIsFresh_def commandIsFresh_def boundedWriteDeadline_def)
qed (use written motion in auto)

lemma drive_frame_zero: "drive_frame \<noteq> makeZeroCommandFrame"
proof
  assume "drive_frame = makeZeroCommandFrame"
  then have "drive_frame ! 3 = makeZeroCommandFrame ! 3" by simp
  then show False
    by (simp add: drive_frame_def makeZeroCommandFrame_def buildCommandFrame_eq frame_consts)
qed

theorem motion_write_conditions_witness:
  "authorization_monotonic_ns sample_active < created_monotonic_ns (latest_command sample_active)"
proof -
  obtain r s' where "tick (logging scripted_ops) ((1, []), []) 7000 sample_active
      = Some (r, s', (1, []), [(drive_frame, 10007000)])"
    using sample_motion_tick by blast
  from motion_write_conditions [OF sample_active_reachable this, of drive_frame 10007000]
  show ?thesis by (simp add: drive_frame_zero)
qed

section \<open>Sequence numbers and tokens\<close>

definition accepted_sequences :: "session_outcome list \<Rightarrow> u64 list" where
  "accepted_sequences outs =
     concat (map (\<lambda>out. case out of
         Out_submit command now st \<Rightarrow> if accepted_submission st then [sequence_id command] else []
       | _ \<Rightarrow> []) outs)"

definition granted_tokens :: "session_outcome list \<Rightarrow> u64 list" where
  "granted_tokens outs =
     concat (map (\<lambda>out. case out of
         Out_authorize token now st \<Rightarrow> if st = Auth_kAuthorized then [token] else []
       | _ \<Rightarrow> []) outs)"

definition reset_tokens :: "session_outcome list \<Rightarrow> u64 list" where
  "reset_tokens outs =
     concat (map (\<lambda>out. case out of
         Out_resetEmergencyStop token ok \<Rightarrow> if ok then [token] else []
       | _ \<Rightarrow> []) outs)"

lemma run_increasing:
  assumes run: "session_run ops es (s, t) = Some (outs, s', t')" and inv: "session_inv s"
    and step: "\<And>e s t out s' t'. \<lbrakk>session_inv s; session_step ops e (s, t) = Some (out, s', t')\<rbrakk>
        \<Longrightarrow> counter s \<le> counter s' \<and> (values_of out = []
              \<or> (\<exists>v. values_of out = [v] \<and> counter s < v \<and> counter s' = v))"
  shows "sorted_wrt (<) (concat (map values_of outs)) \<and> counter s \<le> (counter s' :: u64)
    \<and> (\<forall>v\<in>set (concat (map values_of outs)). counter s < v \<and> v \<le> counter s')"
  using run inv
proof (induction es arbitrary: s t outs)
  case (Cons e es)
  obtain out s1 t1 outs1 where *: "session_step ops e (s, t) = Some (out, s1, t1)"
      "session_run ops es (s1, t1) = Some (outs1, s', t')" "outs = out # outs1"
    using Cons.prems(1) unfolding session_run_Cons by auto
  note ih = Cons.IH [OF *(2) session_step_inv [OF Cons.prems(2) *(1)]]
  from step [OF Cons.prems(2) *(1)] show ?case
  proof (elim conjE disjE exE)
    assume "values_of out = []" "counter s \<le> counter s1"
    with ih *(3) show ?thesis by (auto intro: order_le_less_trans)
  next
    fix v assume v: "values_of out = [v]" "counter s < v" "counter s1 = v" "counter s \<le> counter s1"
    with ih *(3) show ?thesis by (auto intro: order_less_trans order_less_imp_le)
  qed
qed simp


lemma step_sequence:
  assumes "session_inv s" "session_step ops e (s, t) = Some (out, s', t')"
  shows "highest_sequence s \<le> highest_sequence s' \<and> (accepted_sequences [out] = []
     \<or> (\<exists>v. accepted_sequences [out] = [v] \<and> highest_sequence s < v \<and> highest_sequence s' = v))"
  using assms
proof (cases rule: session_step_cases)
  case (stored command now st)
  then show ?thesis by (auto simp: accepted_sequences_def submission_ok_def stored_as_def)
next
  case (consumed command now st q)
  then show ?thesis by (auto simp: accepted_sequences_def narrows_defs)
next
  case other
  then have "accepted_sequences [out] = []"
    by (cases out) (auto simp: accepted_sequences_def split: if_splits)
  with other show ?thesis by (simp add: narrows_defs)
qed (auto simp: accepted_sequences_def narrows_defs)

lemma step_grant:
  assumes "session_inv s" "session_step ops e (s, t) = Some (out, s', t')"
  shows "highest_authorization_token s \<le> highest_authorization_token s' \<and> (granted_tokens [out] = []
     \<or> (\<exists>v. granted_tokens [out] = [v] \<and> highest_authorization_token s < v
            \<and> highest_authorization_token s' = v))"
  using assms
proof (cases rule: session_step_cases)
  case other
  then have "granted_tokens [out] = []"
    by (cases out) (auto simp: granted_tokens_def split: if_splits)
  with other show ?thesis by (simp add: narrows_defs)
qed (auto simp: granted_tokens_def narrows_defs stored_as_def)

lemma step_reset:
  assumes "session_inv s" "session_step ops e (s, t) = Some (out, s', t')"
  shows "highest_estop_reset_token s \<le> highest_estop_reset_token s' \<and> (reset_tokens [out] = []
     \<or> (\<exists>v. reset_tokens [out] = [v] \<and> highest_estop_reset_token s < v
            \<and> highest_estop_reset_token s' = v))"
  using assms
proof (cases rule: session_step_cases)
  case other
  then have "reset_tokens [out] = []"
    by (cases out) (auto simp: reset_tokens_def split: if_splits)
  with other show ?thesis by (simp add: narrows_defs)
qed (auto simp: reset_tokens_def narrows_defs stored_as_def)

lemma run_lists:
  "accepted_sequences outs = concat (map (\<lambda>out. accepted_sequences [out]) outs)"
  "granted_tokens outs = concat (map (\<lambda>out. granted_tokens [out]) outs)"
  "reset_tokens outs = concat (map (\<lambda>out. reset_tokens [out]) outs)"
  by (simp_all add: accepted_sequences_def granted_tokens_def reset_tokens_def)

text \<open>
  C7: No command can be replayed: over any run of a session, across disconnects, new
  connections, authorizations and emergency stops, the sequence numbers of the commands it
  accepts are strictly increasing.
\<close>

theorem accepted_sequences_increase:
  assumes reach: "session_reachable ops cfg s t"
    and run: "session_run ops es (s, t) = Some (outs, s', t')"
  shows "sorted_wrt (<) (accepted_sequences outs)
    \<and> (\<forall>q\<in>set (accepted_sequences outs). highest_sequence s < q \<and> q \<le> highest_sequence s')"
proof -
  have "sorted_wrt (<) (concat (map (\<lambda>out. accepted_sequences [out]) outs))
      \<and> highest_sequence s \<le> highest_sequence s'
      \<and> (\<forall>v\<in>set (concat (map (\<lambda>out. accepted_sequences [out]) outs)).
            highest_sequence s < v \<and> v \<le> highest_sequence s')"
    by (rule run_increasing [OF run session_reachable_inv [OF reach]]) (rule step_sequence)
  then show ?thesis by (simp add: run_lists(1) [symmetric])
qed

theorem accepted_sequences_increase_witness:
  "sorted_wrt (<) [1, 2 :: u64]"
proof -
  have "accepted_sequences bring_up_outs = [1, 2]"
    by (simp add: accepted_sequences_def bring_up_outs_def accepted_submission_def)
  with accepted_sequences_increase [OF sample_start_reachable, of bring_up] bring_up_run
  show ?thesis by (simp add: sample_start_def)
qed

text \<open>
  C8: An authorization token and an emergency-stop reset token each work at most once: over any
  run, the tokens of the granted authorizations are strictly increasing, and so are the tokens
  of the successful resets.
\<close>

theorem tokens_increase:
  assumes reach: "session_reachable ops cfg s t"
    and run: "session_run ops es (s, t) = Some (outs, s', t')"
  shows "sorted_wrt (<) (granted_tokens outs) \<and> sorted_wrt (<) (reset_tokens outs)
    \<and> (\<forall>token\<in>set (granted_tokens outs). highest_authorization_token s < token)
    \<and> (\<forall>token\<in>set (reset_tokens outs). highest_estop_reset_token s < token)"
proof -
  note incr = run_increasing [OF run session_reachable_inv [OF reach]]
  have "sorted_wrt (<) (concat (map (\<lambda>out. granted_tokens [out]) outs))
      \<and> highest_authorization_token s \<le> highest_authorization_token s'
      \<and> (\<forall>v\<in>set (concat (map (\<lambda>out. granted_tokens [out]) outs)).
            highest_authorization_token s < v \<and> v \<le> highest_authorization_token s')"
    by (rule incr) (rule step_grant)
  moreover have "sorted_wrt (<) (concat (map (\<lambda>out. reset_tokens [out]) outs))
      \<and> highest_estop_reset_token s \<le> highest_estop_reset_token s'
      \<and> (\<forall>v\<in>set (concat (map (\<lambda>out. reset_tokens [out]) outs)).
            highest_estop_reset_token s < v \<and> v \<le> highest_estop_reset_token s')"
    by (rule incr) (rule step_reset)
  ultimately show ?thesis by (simp add: run_lists(2,3) [symmetric])
qed

theorem tokens_increase_witness:
  "(0::u64) < 7"
proof -
  have "granted_tokens bring_up_outs = [7]" by (simp add: granted_tokens_def bring_up_outs_def)
  moreover have "highest_authorization_token (fst sample_start) = 0" by (simp add: sample_start_def)
  ultimately show ?thesis
    using tokens_increase [OF sample_start_reachable, of bring_up] bring_up_run
    by (simp add: sample_start_def)
qed

section \<open>Permissions\<close>

definition sample_zeroed :: safety_session where
  "sample_zeroed = (fst sample_start)
     \<lparr>state := S_kConnectedInhibited, last_observed_monotonic_ns := 1000,
      zero_episode_active := False, zero_attempts := 0, next_zero_attempt_ns := 0\<rparr>"

lemma first_tick:
  "session_run scripted_ops [Ev_tick 1000] (fst sample_start, (1, []))
     = Some ([Out_tick 1000 zero_done [(makeZeroCommandFrame, 10001000)]], sample_zeroed, (1, []))"
  by (simp add: sample_start_def sample_zeroed_def zero_done_def session_exec kCommandFrameSize_def)

text \<open>A run that keeps a condition under which ticks write only zeros.\<close>

definition only_zeros :: "session_outcome \<Rightarrow> bool" where
  "only_zeros out \<longleftrightarrow> (\<forall>(frame, deadline)\<in>set (outcome_writes out). frame = makeZeroCommandFrame)"

lemma unauthorized_tick_zeros:
  assumes "session_inv s" "\<not> authorized s \<or> state s \<noteq> S_kActive"
    and "tick (logging ops) (t, []) now s = Some (r, s', t', writes)"
  shows "only_zeros (Out_tick now r writes)"
  using assms(1,3)
  by (cases rule: tick_writes) (use assms(2) in \<open>auto simp: only_zeros_def motion_due_def\<close>)

lemma run_only_zeros:
  assumes run: "session_run ops es (s, t) = Some (outs, s', t')" and start: "session_inv s" "I s"
    and blocked: "\<And>s. \<lbrakk>session_inv s; I s\<rbrakk> \<Longrightarrow> \<not> authorized s \<or> state s \<noteq> S_kActive"
    and step: "\<And>e s t out s' t'. \<lbrakk>session_inv s; I s; out \<in> set outs;
        session_step ops e (s, t) = Some (out, s', t')\<rbrakk> \<Longrightarrow> I s'"
  shows "I s' \<and> (\<forall>out\<in>set outs. only_zeros out)"
proof -
  let ?I = "\<lambda>s (t::'a). session_inv s \<and> I s"
  have "?I s' t' \<and> (\<forall>out\<in>set outs. only_zeros out)"
    using run
  proof (rule run_induct [where I = ?I])
    fix e s t out s' t'
    assume a: "session_inv s \<and> I s" "session_step ops e (s, t) = Some (out, s', t')" "out \<in> set outs"
    have "only_zeros out"
    proof (cases "outcome_kind out = Ticked")
      case True
      then obtain now r writes where o: "out = Out_tick now r writes"
        using outcome_kind_cases(6) by blast
      show ?thesis
        unfolding o
        by (rule unauthorized_tick_zeros [OF _ _ session_step_tick [OF a(2) [unfolded o]]])
           (use blocked a(1) in auto)
    next
      case False
      then show ?thesis by (simp add: only_zeros_def outcome_writes_tick)
    qed
    moreover have "session_inv s'" "I s'"
      using session_step_inv [OF _ a(2)] step [OF _ _ a(3) a(2)] a(1) by simp_all
    ultimately show "(session_inv s' \<and> I s') \<and> only_zeros out" by simp
  qed (use start in simp)
  then show ?thesis by simp
qed

text \<open>
  C6: Motion needs an authorization: from any reachable state that holds none, as long as no
  \<open>authorize\<close> call is granted, every frame that is written is the zero frame, whatever else
  happens.
\<close>

theorem no_motion_without_authorization:
  assumes reach: "session_reachable ops cfg s t" and none: "\<not> authorization_active s"
    and run: "session_run ops es (s, t) = Some (outs, s', t')"
    and denied: "granted_tokens outs = []"
  shows "\<forall>(frame, deadline)\<in>set (run_writes outs). frame = makeZeroCommandFrame"
proof -
  have "\<not> authorization_active s' \<and> (\<forall>out\<in>set outs. only_zeros out)"
    using run session_reachable_inv [OF reach] none
  proof (rule run_only_zeros [where I = "\<lambda>s. \<not> authorization_active s"])
    fix e s t out s' t'
    assume *: "session_inv s" "\<not> authorization_active s" "out \<in> set outs"
      "session_step ops e (s, t) = Some (out, s', t')"
    from *(1,4) show "\<not> authorization_active s'"
    proof (cases rule: session_step_cases)
      case (granted token now)
      with denied *(3) show ?thesis by (auto simp: granted_tokens_def split: if_splits)
    next
      case (stored command now st)
      with *(2) show ?thesis by (simp add: submission_ok_def authorized_def)
    qed (use *(2) in \<open>auto simp: narrows_defs\<close>)
  qed (simp add: authorized_def)
  then show ?thesis by (auto simp: only_zeros_def run_writes_def)
qed

theorem no_motion_without_authorization_witness:
  "list_all (\<lambda>w. fst w = makeZeroCommandFrame)
     (run_writes [Out_tick 1000 zero_done [(makeZeroCommandFrame, 10001000)]])"
proof -
  have "\<not> authorization_active (fst sample_start)" by (simp add: sample_start_def)
  from no_motion_without_authorization [OF sample_start_reachable this first_tick]
  show ?thesis by (simp add: granted_tokens_def)
qed

text \<open>
  C4: The emergency stop dominates: from any reachable state in which it is latched, as long as
  no reset succeeds, it stays latched, no authorization is granted, no command is accepted, and
  every frame that is written is the zero frame.
\<close>

theorem emergency_stop_dominates:
  assumes reach: "session_reachable ops cfg s t" and latched: "emergency_stop_latched s"
    and run: "session_run ops es (s, t) = Some (outs, s', t')"
    and no_reset: "reset_tokens outs = []"
  shows "emergency_stop_latched s' \<and> granted_tokens outs = [] \<and> accepted_sequences outs = []
    \<and> (\<forall>(frame, deadline)\<in>set (run_writes outs). frame = makeZeroCommandFrame)"
proof -
  have step: "emergency_stop_latched s' \<and> granted_tokens [out] = [] \<and> accepted_sequences [out] = []"
    if "session_inv s" "emergency_stop_latched s" "out \<in> set outs"
      "session_step ops e (s, t) = Some (out, s', t')" for e s t out s' t'
    using that(1,4)
  proof (cases rule: session_step_cases)
    case (stored command now st)
    with that(2) show ?thesis by (simp add: submission_ok_def authorized_def)
  next
    case (reset token now)
    with no_reset that(3) show ?thesis by (auto simp: reset_tokens_def split: if_splits)
  next
    case other
    then have "granted_tokens [out] = [] \<and> accepted_sequences [out] = []"
      by (cases out) (auto simp: granted_tokens_def accepted_sequences_def split: if_splits)
    with other that(2) show ?thesis by (simp add: narrows_defs)
  qed (use that(2) in \<open>auto simp: narrows_defs granted_tokens_def accepted_sequences_def\<close>)
  have "emergency_stop_latched s' \<and> (\<forall>out\<in>set outs. only_zeros out)"
    using run session_reachable_inv [OF reach] latched
  proof (rule run_only_zeros [where I = emergency_stop_latched])
    fix e s t out s' t'
    assume "session_inv s" "emergency_stop_latched s" "out \<in> set outs"
      "session_step ops e (s, t) = Some (out, s', t')"
    from step [OF this] show "emergency_stop_latched s'" ..
  qed (simp add: authorized_def)
  moreover have "(session_inv s' \<and> emergency_stop_latched s')
      \<and> (\<forall>out\<in>set outs. granted_tokens [out] = [] \<and> accepted_sequences [out] = [])"
    using run conjI [OF session_reachable_inv [OF reach] latched]
  proof (rule run_induct [where I = "\<lambda>s t. session_inv s \<and> emergency_stop_latched s"])
    fix e s t out s' t'
    assume *: "session_inv s \<and> emergency_stop_latched s" "out \<in> set outs"
      "session_step ops e (s, t) = Some (out, s', t')"
    from step [OF _ _ *(2,3)] session_step_inv [OF _ *(3)] *(1)
    show "(session_inv s' \<and> emergency_stop_latched s')
        \<and> granted_tokens [out] = [] \<and> accepted_sequences [out] = []" by simp
  qed
  ultimately show ?thesis
    unfolding run_lists(1,2) [of outs] by (auto simp: only_zeros_def run_writes_def)
qed

lemma sample_latch_run:
  "\<exists>s' r1 r2. session_run scripted_ops [Ev_latchEmergencyStop 7000, Ev_tick 8000,
        Ev_authorize 8 9000, Ev_tick 10000] (sample_active, (1, []))
     = Some ([Out_latchEmergencyStop, Out_tick 8000 r1 [(makeZeroCommandFrame, 10008000)],
              Out_authorize 8 9000 Auth_kEmergencyStopLatched, Out_tick 10000 r2 []], s', (1, []))"
  by (simp add: sample_active_def session_exec kCommandFrameSize_def uint64_max_def)

text \<open>
  C5: Every connection starts with zero: in a state that is disconnected, invalid, faulted or
  still waiting for its zero write, and until a \<open>tick\<close> reports a completed zero write, no
  authorization is granted, no command accepted, no reset succeeds and only zero frames are
  written, even across further disconnects and new connections.
\<close>

theorem zero_before_motion:
  assumes reach: "session_reachable ops cfg s t" and halted: "halted s"
    and run: "session_run ops es (s, t) = Some (outs, s', t')"
    and no_zero: "\<forall>now r writes. Out_tick now r writes \<in> set outs
                    \<longrightarrow> cyc_action r \<noteq> Cyc_kZeroHostWriteComplete"
  shows "halted s' \<and> granted_tokens outs = [] \<and> accepted_sequences outs = [] \<and> reset_tokens outs = []
    \<and> (\<forall>(frame, deadline)\<in>set (run_writes outs). frame = makeZeroCommandFrame)"
proof -
  have not_entered: False
    if "session_inv s" "halted s" "entered ops t now s Sync_kUnchanged (s\<lparr>last_observed_monotonic_ns := now\<rparr>)"
      "\<not> zero_episode_active s" "state s \<noteq> S_kFaulted" for s now t
    using entered_known [OF that(1,3)] session_invD(3,4) [OF that(1)] that(2,4,5)
    by (auto simp: halted_def episode_inv_def connection_inv_def)
  have step: "halted s' \<and> granted_tokens [out] = [] \<and> accepted_sequences [out] = []
      \<and> reset_tokens [out] = []"
    if "session_inv s" "halted s" "out \<in> set outs"
      "session_step ops e (s, t) = Some (out, s', t')" for e s t out s' t'
    using that(1,4)
  proof (cases rule: session_step_cases)
    case (granted token now)
    then show ?thesis using not_entered [OF that(1,2)] by blast
  next
    case (stored command now st)
    then show ?thesis using not_entered [OF that(1,2) stored(3)] by (simp add: submission_ok_def)
  next
    case (reset token now)
    then show ?thesis using not_entered [OF that(1,2)] by blast
  next
    case (ticked now r writes)
    have "halted s'"
      using tick_halted [OF that(1,2) ticked(2)] no_zero that(3) ticked(1) by blast
    with ticked(1) show ?thesis
      by (simp add: granted_tokens_def accepted_sequences_def reset_tokens_def)
  next
    case other
    then have "granted_tokens [out] = [] \<and> accepted_sequences [out] = [] \<and> reset_tokens [out] = []"
      by (cases out)
         (auto simp: granted_tokens_def accepted_sequences_def reset_tokens_def split: if_splits)
    with other that(2) show ?thesis by simp
  qed (use that(2) in \<open>auto simp: granted_tokens_def accepted_sequences_def reset_tokens_def\<close>)
  have "halted s' \<and> (\<forall>out\<in>set outs. only_zeros out)"
    using run session_reachable_inv [OF reach] halted
  proof (rule run_only_zeros [where I = halted])
    fix e s t out s' t'
    assume "session_inv s" "halted s" "out \<in> set outs"
      "session_step ops e (s, t) = Some (out, s', t')"
    from step [OF this] show "halted s'" ..
  qed (auto simp: halted_def)
  moreover have "(session_inv s' \<and> halted s')
      \<and> (\<forall>out\<in>set outs. granted_tokens [out] = [] \<and> accepted_sequences [out] = []
            \<and> reset_tokens [out] = [])"
    using run conjI [OF session_reachable_inv [OF reach] halted]
  proof (rule run_induct [where I = "\<lambda>s t. session_inv s \<and> halted s"])
    fix e s t out s' t'
    assume *: "session_inv s \<and> halted s" "out \<in> set outs"
      "session_step ops e (s, t) = Some (out, s', t')"
    from step [OF _ _ *(2,3)] session_step_inv [OF _ *(3)] *(1)
    show "(session_inv s' \<and> halted s')
        \<and> granted_tokens [out] = [] \<and> accepted_sequences [out] = [] \<and> reset_tokens [out] = []"
      by simp
  qed
  ultimately show ?thesis
    unfolding run_lists [of outs] by (auto simp: only_zeros_def run_writes_def)
qed


lemma newSafetySession_halted: "halted (newSafetySession cfg present ops t)"
proof -
  have "halted (snd (synchronizeConnection ops t s))"
    if "halted s" "\<not> connection_known s" for s
    using that by (auto simp: synchronizeConnection_def Let_def)
  then show ?thesis by (simp add: newSafetySession_def Let_def) (simp add: halted_def)
qed

lemma word_three_one [simp]: "\<not> (3::u32) \<le> 1" "\<not> (3::u32) \<le> 2"
  by (simp_all add: word_le_nat_alt)

lemma sample_blocked_run:
  "\<exists>s' r1 r2. session_run scripted_ops [Ev_transport (1, [Returned write_timeout]), Ev_tick 1000,
        Ev_observeFeedback sample_feedback 2000, Ev_authorize 7 3000, Ev_tick 4000] (fst sample_start, (1, []))
     = Some ([Out_transport, Out_tick 1000 r1 [(makeZeroCommandFrame, 10001000)],
              Out_observeFeedback \<lparr>obs_status = Obs_kAcceptedControlAllowed, obs_valid_frame = True,
                obs_control_allowed = True\<rparr>,
              Out_authorize 7 3000 Auth_kInitialZeroPending, Out_tick 4000 r2 []], s', (1, []))
      \<and> cyc_action r1 = Cyc_kZeroHostWriteFailed \<and> cyc_action r2 = Cyc_kZeroRetryPending"
  by (simp add: sample_start_def session_exec kCommandFrameSize_def write_timeout_def
      defaultIoResult_def)

theorem zero_before_motion_witness:
  "\<exists>outs. halted (fst sample_start) \<and> length outs = 5 \<and> granted_tokens outs = []"
proof -
  obtain s' r1 r2 where run: "session_run scripted_ops [Ev_transport (1, [Returned write_timeout]),
        Ev_tick 1000, Ev_observeFeedback sample_feedback 2000, Ev_authorize 7 3000, Ev_tick 4000]
        (fst sample_start, (1, []))
     = Some ([Out_transport, Out_tick 1000 r1 [(makeZeroCommandFrame, 10001000)],
              Out_observeFeedback \<lparr>obs_status = Obs_kAcceptedControlAllowed, obs_valid_frame = True,
                obs_control_allowed = True\<rparr>,
              Out_authorize 7 3000 Auth_kInitialZeroPending, Out_tick 4000 r2 []], s', (1, []))"
    "cyc_action r1 = Cyc_kZeroHostWriteFailed" "cyc_action r2 = Cyc_kZeroRetryPending"
    using sample_blocked_run by blast
  have h: "halted (fst sample_start)" by (simp add: sample_start_def newSafetySession_halted)
  show ?thesis
    using zero_before_motion [OF sample_start_reachable h run(1)] run(2,3) h
    by (intro exI [where x = "[Out_transport, Out_tick 1000 r1 [(makeZeroCommandFrame, 10001000)],
              Out_observeFeedback \<lparr>obs_status = Obs_kAcceptedControlAllowed, obs_valid_frame = True,
                obs_control_allowed = True\<rparr>,
              Out_authorize 7 3000 Auth_kInitialZeroPending, Out_tick 4000 r2 []]"]) simp
qed

theorem emergency_stop_dominates_witness:
  "\<exists>(s' :: safety_session) outs. length outs = 3 \<and> emergency_stop_latched s' \<and> granted_tokens outs = []"
proof -
  let ?s = "latchEmergencyStop scripted_ops (1, []) 7000 sample_active"
  have step: "session_step scripted_ops (Ev_latchEmergencyStop 7000) (sample_active, (1, []))
      = Some (Out_latchEmergencyStop, ?s, (1, []))" by simp
  have reach: "session_reachable scripted_ops sample_config ?s (1, [])"
    by (rule session_reachable.step [OF sample_active_reachable step])
  have latched: "emergency_stop_latched ?s"
    using latchEmergencyStop_effect [OF sample_active_inv, of scripted_ops "(1, [])" 7000]
    by (simp add: narrows_defs)
  obtain s' r1 r2 where "session_run scripted_ops [Ev_tick 8000, Ev_authorize 8 9000, Ev_tick 10000] (?s, (1, []))
     = Some ([Out_tick 8000 r1 [(makeZeroCommandFrame, 10008000)],
              Out_authorize 8 9000 Auth_kEmergencyStopLatched, Out_tick 10000 r2 []], s', (1, []))"
    using sample_latch_run by (auto simp: session_run_Cons simp del: session_run.simps(2))
  from emergency_stop_dominates [OF reach latched this] show ?thesis
    by (intro exI [where x = s'] exI [where x = "[Out_tick 8000 r1 [(makeZeroCommandFrame, 10008000)],
              Out_authorize 8 9000 Auth_kEmergencyStopLatched, Out_tick 10000 r2 []]"])
       (simp add: reset_tokens_def)
qed

text \<open>
  C13: The first tick on a new connection generation writes exactly the zero frame, with the
  write timeout as its deadline, and leaves no authorization.
\<close>

theorem new_connection_writes_zero:
  assumes reach: "session_reachable ops cfg s t" and valid: "configuration_valid s"
    and up: "tr_connected ops t" "tr_generation ops t \<noteq> 0"
    and new: "\<not> connection_known s \<or> tr_generation ops t \<noteq> connection_generation s"
    and clock: "0 < now" "last_observed_monotonic_ns s \<le> now"
    and tick: "tick (logging ops) (t, []) now s = Some (result, s', t', writes)"
  shows "writes = [(makeZeroCommandFrame, min (saturatingAdd now (write_timeout_ns (config s))) int64_max)]
    \<and> \<not> authorization_active s' \<and> \<not> cyc_motion_write_attempted result"
proof -
  note inv = session_reachable_inv [OF reach]
  have present: "transport_present s"
    using session_invD(4) [OF inv] valid by (simp add: connection_inv_def)
  have ok: "fst (observeMonotonicTime now s)" using clock by (simp add: observeMonotonicTime_def)
  let ?so = "snd (observeMonotonicTime now s)"
  let ?s1 = "handleNewConnection ops t (tr_generation ops t) ?so"
  have gen: "connection_generation ?so = connection_generation s"
    by (simp add: observeMonotonicTime_def)
  have ent: "entered ops t now s Sync_kNewGeneration ?s1"
    using valid ok up new present gen
    by (auto simp: entered_def synchronizeConnection_def Let_def)
  note facts = entered_facts [OF inv ent]
  have z: "zero_episode_active ?s1" "next_zero_attempt_ns ?s1 = 0" "\<not> authorization_active ?s1"
    using facts(11) by simp_all
  have sync: "synchronizeConnection ops t ?so = (Sync_kNewGeneration, ?s1)"
    using ent by (simp add: entered_def)
  have obs: "observeMonotonicTime now s = (True, ?so)"
    using ok by (metis prod.collapse)
  have "tick (logging ops) (t, []) now s
      = attemptZero (logging ops) (t, []) now (defaultCycleResult\<lparr>cyc_state := state s\<rparr>) ?s1"
    unfolding tick_def Let_def
    by (subst obs, subst (2) obs) (simp add: valid sync z)
  then have att: "attemptZero (logging ops) (t, []) now (defaultCycleResult\<lparr>cyc_state := state s\<rparr>) ?s1
      = Some (result, s', t', writes)" using tick by simp
  have "narrows ?s1 s'" by (rule attemptZero_narrows [OF facts(1) att])
  with z have "\<not> authorization_active s'" by (auto simp: narrows_defs)
  moreover have "writes = [(makeZeroCommandFrame,
      min (saturatingAdd now (write_timeout_ns (config s))) int64_max)] \<and> \<not> cyc_motion_write_attempted result"
    using att
  proof (cases rule: attemptZero_cases)
    case (wrote out)
    have "cyc_motion_write_attempted (fst (finishZero (logging ops) (t', writes) now (result_or_exception now out)
        r0 s0)) = cyc_motion_write_attempted r0" for r0 s0
      by (simp add: finishZero_def Let_def)
    then have "\<not> cyc_motion_write_attempted result"
      using arg_cong [OF wrote(4), of "\<lambda>p. cyc_motion_write_attempted (fst p)"]
      by (simp add: defaultCycleResult_def)
    moreover have "boundedWriteDeadline now int64_max ?s1
        = min (saturatingAdd now (write_timeout_ns (config s))) int64_max"
      by (simp add: boundedWriteDeadline_def)
    ultimately show ?thesis
      using wrote(3) by auto
  qed (use z clock in simp_all)
  ultimately show ?thesis by simp
qed


lemma sample_reconnect_tick:
  "\<exists>r s'. tick (logging scripted_ops) ((2, []), []) 7000 sample_active
      = Some (r, s', (2, []), [(makeZeroCommandFrame, 10007000)])
    \<and> state s' = S_kConnectedInhibited"
  by (simp add: sample_active_def session_exec)

theorem new_connection_writes_zero_witness:
  "\<exists>s' :: safety_session. state s' = S_kConnectedInhibited \<and> \<not> authorization_active s'"
proof -
  obtain r s' where tick: "tick (logging scripted_ops) ((2, []), []) 7000 sample_active
      = Some (r, s', (2, []), [(makeZeroCommandFrame, 10007000)])"
    and st: "state s' = S_kConnectedInhibited"
    using sample_reconnect_tick by blast
  have "configuration_valid sample_active" "connection_generation sample_active = 1"
    "last_observed_monotonic_ns sample_active = 6000"
    by (simp_all add: sample_active_def)
  with new_connection_writes_zero [OF sample_active_reachable _ _ _ _ _ _ tick] st show ?thesis
    by auto
qed

end
