(* ===== verification/Safety_Response.thy ===== *)
theory Safety_Response
  imports Safety_Properties
begin

text \<open>
  How the session reacts: to stale inputs, failed writes, exhausted retries, a
  failing clock and a withdrawn permission; that its operations return, never
  overflow, and lead to motion when everything is in order.
\<close>

section \<open>Stopping in the same cycle\<close>

text \<open>A latched session is never active.\<close>

lemma latch_not_active:
  assumes inv: "session_inv s"
  shows "state (latchEmergencyStop ops t now s) \<noteq> S_kActive"
proof (cases "configuration_valid s")
  case False
  then show ?thesis by (simp add: latchEmergencyStop_split Let_def)
next
  case valid: True
  let ?so = "snd (observeMonotonicTime now (latched_session s))"
  let ?s1 = "snd (synchronizeConnection ops t ?so)"
  have inv1: "session_inv ?s1"
    by (rule synchronizeConnection_inv [OF observe_inv [OF latched_session_inv [OF inv]]])
       (simp add: valid)
  have episode: "zero_episode_active ?s1 \<Longrightarrow> state ?s1 = S_kStopPending"
    using session_invD(3) [OF inv1] by (simp add: episode_inv_def)
  have down: "state ?s1 = S_kDisconnected"
    if "fst (synchronizeConnection ops t ?so) = Sync_kDisconnected"
    using that valid
    by (auto simp: synchronizeConnection_def Let_def state_handleDisconnect split: if_splits)
  have stopped: "state (beginZeroEpisode ops t a e ?s1) \<noteq> S_kActive" for a e
    using halted_begin [OF episode, of ops t a e] by (auto simp: halted_def)
  have "latchEmergencyStop ops t now s = ?s1 \<and> state ?s1 \<noteq> S_kActive
      \<or> (\<exists>a e. latchEmergencyStop ops t now s = beginZeroEpisode ops t a e ?s1)"
    using down unfolding latchEmergencyStop_split Let_def by (simp add: valid) blast
  with stopped show ?thesis by metis
qed

lemma active_not_latched:
  assumes "session_reachable ops cfg s t" "state s = S_kActive"
  shows "\<not> emergency_stop_latched s"
  using assms
proof (induction rule: session_reachable.induct)
  case (start present t)
  show ?case by simp
next
  case (step s t e out s' t')
  have inv: "session_inv s" by (rule session_reachable_inv [OF step(1)])
  from inv step(2) show ?case
  proof (cases rule: session_step_cases)
    case (stored command now st)
    then show ?thesis by (simp add: submission_ok_def authorized_def stored_as_def)
  next
    case (latched now)
    then show ?thesis using latch_not_active [OF inv, of ops t now] step.prems by simp
  qed (use step in \<open>auto simp: narrows_defs\<close>)
qed

lemma begin_after_clear:
  assumes inv: "session_inv s" and ent: "entered ops t now s conn s1"
    and active: "state s1 = S_kActive"
  shows "beginZeroEpisode ops t a now (clearMotionIntent s1) =
     (clearMotionIntent s1)\<lparr>zero_episode_active := True, state_after_zero := a, zero_attempts := 0,
        next_zero_attempt_ns := now, state := S_kStopPending\<rparr>"
proof -
  note f = entered_facts [OF inv ent]
  have "\<not> zero_episode_active s1"
    using session_invD(3) [OF f(1)] active by (simp add: episode_inv_def)
  with f active show ?thesis
    by (subst beginZeroEpisode_fresh) auto
qed

text \<open>
  C9: The watchdog acts in the cycle that notices: if the session is active on its connection
  and either the control-allowing feedback or the command has exceeded its age or deadline (or
  the authorization is gone), the very next \<open>tick\<close> writes exactly the zero frame, drops the
  motion intent and leaves the active state.
\<close>

theorem watchdog_stops_in_same_tick:
  assumes reach: "session_reachable ops cfg s t" and active: "state s = S_kActive"
    and up: "tr_connected ops t" "tr_generation ops t = connection_generation s"
    and clock: "0 < now" "last_observed_monotonic_ns s \<le> now"
    and expired: "\<not> authorized s \<or> \<not> feedbackIsFresh now s \<or> \<not> commandIsFresh now s"
    and tick: "tick (logging ops) (t, []) now s = Some (result, s', t', writes)"
  shows "writes = [(makeZeroCommandFrame, min (saturatingAdd now (write_timeout_ns (config s))) int64_max)]
    \<and> state s' \<noteq> S_kActive \<and> \<not> latest_command_valid s'"
proof -
  note inv = session_reachable_inv [OF reach]
  have known: "connection_known s" "configuration_valid s" "transport_present s"
    "connection_generation s \<noteq> 0" "\<not> zero_episode_active s"
    using session_invD(3,4) [OF inv] active by (auto simp: connection_inv_def episode_inv_def)
  let ?s1 = "s\<lparr>last_observed_monotonic_ns := now\<rparr>"
  have obs: "observeMonotonicTime now s = (True, ?s1)"
    using clock by (auto simp: observeMonotonicTime_def)
  have ent: "entered ops t now s Sync_kUnchanged ?s1"
    using known up by (simp add: entered_def obs synchronizeConnection_def Let_def)
  have ent': "\<lbrakk>entered ops t now s conn s1\<rbrakk> \<Longrightarrow> s1 = ?s1" for conn s1
    using ent by (simp add: entered_def)
  have fresh: "feedbackIsFresh now ?s1 = feedbackIsFresh now s" "commandIsFresh now ?s1 = commandIsFresh now s"
    "authorized ?s1 = authorized s"
    by (simp_all add: feedbackIsFresh_def commandIsFresh_def authorized_def)
  from tick show ?thesis
  proof (cases rule: tick_cases)
    case (stop conn s1 a)
    then have s1: "s1 = ?s1" using ent' by simp
    have act1: "state ?s1 = S_kActive" using active by simp
    note start = begin_after_clear [OF inv ent act1, of a]
    have inv1: "session_inv (beginZeroEpisode ops t a now (clearMotionIntent ?s1))"
      using clear_and_stop_inv [OF entered_facts(1-3) [OF inv ent], of a now] stop(6) by auto
    let ?b = "beginZeroEpisode ops t a now (clearMotionIntent ?s1)"
    have att: "attemptZero (logging ops) (t, []) now (defaultCycleResult\<lparr>cyc_state := state s\<rparr>) ?b
        = Some (result, s', t', writes)" using stop(7) s1 by simp
    have nar: "narrows ?b s'" by (rule attemptZero_narrows [OF inv1 att])
    have "state s' \<noteq> S_kActive" "\<not> latest_command_valid s'"
      using nar unfolding start by (auto simp: narrows_defs)
    moreover have "writes = [(makeZeroCommandFrame,
        min (saturatingAdd now (write_timeout_ns (config s))) int64_max)]"
      using att
      by (cases rule: attemptZero_cases) (auto simp: start boundedWriteDeadline_def)
    ultimately show ?thesis by simp
  next
    case (zero conn s1)
    then have "s1 = ?s1" using ent' by simp
    with zero(2) known show ?thesis by simp
  next
    case (quiet conn s1)
    then have "s1 = ?s1" using ent' by simp
    with quiet active show ?thesis by simp
  next
    case (estop conn s1)
    then have "s1 = ?s1" using ent' by simp
    with estop active active_not_latched [OF reach] show ?thesis by simp
  next
    case (limited conn s1)
    then have "s1 = ?s1" using ent' by simp
    with limited expired fresh show ?thesis by simp
  next
    case (motion conn s1 out t1)
    then have "s1 = ?s1" using ent' by simp
    with motion(2) expired fresh show ?thesis by (simp add: motion_due_def)
  next
    case (down so)
    then show ?thesis using ent obs by (simp add: entered_def)
  qed (use known obs in simp_all)
qed

lemma sample_stale_tick:
  "\<exists>r s'. tick (logging scripted_ops) ((1, []), []) 200000000 sample_active
      = Some (r, s', (1, []), [(makeZeroCommandFrame, 210000000)])
    \<and> state s' = S_kRecovering"
  by (simp add: sample_active_def session_exec)

theorem watchdog_stops_in_same_tick_witness:
  "\<exists>s' :: safety_session. state s' = S_kRecovering \<and> \<not> latest_command_valid s'"
proof -
  obtain r s' where tick: "tick (logging scripted_ops) ((1, []), []) 200000000 sample_active
      = Some (r, s', (1, []), [(makeZeroCommandFrame, 210000000)])"
    and st: "state s' = S_kRecovering"
    using sample_stale_tick by blast
  have "state sample_active = S_kActive" "connection_generation sample_active = 1"
    "last_observed_monotonic_ns sample_active = 6000" "\<not> feedbackIsFresh 200000000 sample_active"
    by (simp_all add: sample_active_def feedbackIsFresh_def)
  with watchdog_stops_in_same_tick [OF sample_active_reachable _ _ _ _ _ _ tick] st show ?thesis
    by auto
qed

text \<open>
  C10: A failed motion write is never retried as motion: when \<open>tick\<close> attempted a motion write
  that was not a complete, certain success of the whole frame, the authorization and the motion
  intent are gone when \<open>tick\<close> returns and the session is not active; and if the transport still
  reports a connection, the zero frame was written in the same tick right after the motion
  frame.
\<close>

theorem failed_motion_write_stops:
  assumes reach: "session_reachable ops cfg s t"
    and tick: "tick (logging ops) (t, []) now s = Some (result, s', t', writes)"
    and attempted: "writes \<noteq> []" "fst (hd writes) \<noteq> makeZeroCommandFrame"
    and outcome: "tr_writeAll ops t (fst (hd writes)) (snd (hd writes)) = Some (out, t1)"
    and failed: "\<not> (io_status (result_or_exception now out) = T_kOk
                    \<and> host_write_complete (result_or_exception now out)
                    \<and> bytes_transferred (result_or_exception now out) = kCommandFrameSize)"
  shows "\<not> authorization_active s' \<and> \<not> latest_command_valid s' \<and> state s' \<noteq> S_kActive
    \<and> (io_status (result_or_exception now out) \<noteq> T_kDisconnected \<and> tr_connected ops t1
         \<longrightarrow> map fst writes = [fst (hd writes), makeZeroCommandFrame])"
proof -
  note inv = session_reachable_inv [OF reach]
  let ?r = "result_or_exception now out"
  from tick show ?thesis
  proof (cases rule: tick_cases)
    case (zero conn s1)
    then show ?thesis
      using attemptZero_writes [OF zero(3)] attempted by auto
  next
    case (stop conn s1 a)
    then show ?thesis
      using attemptZero_writes [OF stop(7)] attempted by auto
  next
    case (motion conn s1 out2 tl)
    have ent: "entered ops t now s conn s1" using motion(1) by simp
    note same = motion_due_same [OF inv ent motion(2)]
    note ent_facts = entered_facts [OF inv ent]
    let ?d = "boundedWriteDeadline now (deadline_monotonic_ns (latest_command s1)) s1"
    obtain t2 where w2: "tr_writeAll ops t (latest_frame s1) ?d = Some (out2, t2)"
      and tl: "tl = (t2, [(latest_frame s1, ?d)])"
      using motion(3) by auto
    have len: "length (latest_frame s1) = kCommandFrameSize"
      using session_invD(5) [OF ent_facts(1)] by (simp add: clock_inv_def)
    have hd: "hd writes = (latest_frame s1, ?d)"
      using finishMotion_writes [OF motion(4) [unfolded tl]] by auto
    then have out: "out2 = out" "t2 = t1" using outcome w2 by simp_all
    have start: "beginZeroEpisode ops t1 S_kConnectedInhibited z (clearMotionIntent (revokeAuthorization s1))
        = clearMotionIntent (revokeAuthorization s1)\<lparr>zero_episode_active := True,
            state_after_zero := S_kConnectedInhibited, zero_attempts := 0,
            next_zero_attempt_ns := max 0 z, state := S_kStopPending\<rparr>"
      if "tr_connected ops t1" for z
      using that ent_facts(2,5) motion(2)
      by (subst beginZeroEpisode_fresh) (auto simp: motion_due_def)
    from motion(4) show ?thesis
    proof (cases rule: finishMotion_cases)
      case sent
      then show ?thesis using failed len out by simp
    next
      case down
      then show ?thesis
        using ent_facts(4) out tl by (auto simp: state_handleDisconnect)
    next
      case (failed res0)
      let ?z = "max now (completion_monotonic_ns ?r)"
      let ?b = "beginZeroEpisode ops t1 S_kConnectedInhibited ?z (clearMotionIntent (revokeAuthorization s1))"
      have conn1: "tr_connected ops t1" using failed(2) tl out by simp
      have att: "attemptZero (logging ops) (t1, [(latest_frame s1, ?d)]) ?z res0 ?b
          = Some (result, s', t', writes)"
        using failed(3) tl out by simp
      have nar: "narrows ?b s'"
        by (rule attemptZero_narrows [OF _ att], rule revoke_and_stop_inv)
           (use ent_facts conn1 in simp_all)
      have "\<not> authorization_active s'" "\<not> latest_command_valid s'" "state s' \<noteq> S_kActive"
        using nar unfolding start [OF conn1] by (auto simp: narrows_defs)
      moreover have "map fst writes = [fst (hd writes), makeZeroCommandFrame]"
        using att
        by (cases rule: attemptZero_cases) (use ent_facts(7) in \<open>auto simp: start [OF conn1]\<close>)
      ultimately show ?thesis by simp
    qed
  qed (use attempted in simp_all)
qed

lemma sample_failing_tick:
  "\<exists>r s'. tick (logging scripted_ops) ((1, [Returned write_timeout]), []) 7000 sample_active
      = Some (r, s', (1, []), [(drive_frame, 10007000), (makeZeroCommandFrame, 10007000)])
    \<and> state s' = S_kConnectedInhibited"
  by (simp add: sample_active_def session_exec drive_frame_def write_timeout_def defaultIoResult_def)

theorem failed_motion_write_stops_witness:
  "\<exists>s' :: safety_session. state s' = S_kConnectedInhibited \<and> \<not> authorization_active s'"
proof -
  obtain r s' where tick: "tick (logging scripted_ops) ((1, [Returned write_timeout]), []) 7000 sample_active
      = Some (r, s', (1, []), [(drive_frame, 10007000), (makeZeroCommandFrame, 10007000)])"
    and st: "state s' = S_kConnectedInhibited"
    using sample_failing_tick by blast
  have "\<not> authorization_active s'"
    using failed_motion_write_stops [OF sample_active_reachable tick, of "Returned write_timeout" "(1, [])"]
    by (simp add: drive_frame_zero result_or_exception_def write_timeout_def defaultIoResult_def)
  with st show ?thesis by blast
qed

section \<open>The zero-retry budget and the fault\<close>

text \<open>Faulted, on a transport that still shows the same connection.\<close>

definition faulted_on :: "'t transport_ops \<Rightarrow> 't \<Rightarrow> safety_session \<Rightarrow> bool" where
  "faulted_on ops t s \<longleftrightarrow>
     configuration_valid s \<and> transport_present s \<and> state s = S_kFaulted \<and> connection_known s
     \<and> \<not> zero_episode_active s \<and> connection_generation s \<noteq> 0
     \<and> tr_connected ops t \<and> tr_generation ops t = connection_generation s"

lemma faulted_private [simp]:
  "faulted_on ops t (clearMotionIntent s) = faulted_on ops t s"
  "faulted_on ops t (revokeAuthorization s) = faulted_on ops t s"
  "faulted_on ops t (s\<lparr>feedback_allowed_seen := b, latest_allowed_feedback_receipt_ns := n\<rparr>)
     = faulted_on ops t s"
  "faulted_on ops t s \<Longrightarrow> beginZeroEpisode ops t a e s = s"
  "faulted_on ops t s \<Longrightarrow> synchronizeConnection ops t s = (Sync_kUnchanged, s)"
  "faulted_on ops t s \<Longrightarrow> faulted_on ops t (snd (observeMonotonicTime now s))"
  "faulted_on ops t s \<Longrightarrow> faulted_on ops t (latched_session s)"
  by (simp_all add: faulted_on_def beginZeroEpisode_def synchronizeConnection_def
      observeMonotonicTime_def latched_session_def Let_def)

lemma faulted_clock [simp]:
  "faulted_on ops t s \<Longrightarrow> faulted_on ops t (handleClockFailure ops t s)"
  by (simp add: handleClockFailure_def Let_def)

lemma faultedD:
  assumes "faulted_on ops t s"
  shows "configuration_valid s" "state s = S_kFaulted" "\<not> zero_episode_active s"
  using assms by (simp_all add: faulted_on_def)

lemma faulted_operations:
  assumes f: "faulted_on ops t s"
  shows "faulted_on ops t (snd (authorize ops t token now s))"
    "faulted_on ops t (snd (disarm ops t now s))"
    "faulted_on ops t (snd (requestStop ops t now s))"
    "faulted_on ops t (snd (submit ops t command now s))"
    "faulted_on ops t (snd (observeFeedback ops t frame now s))"
    "faulted_on ops t (latchEmergencyStop ops t now s)"
    "faulted_on ops t (snd (resetEmergencyStop ops t token now s))"
proof -
  obtain ok so where o: "observeMonotonicTime now s = (ok, so)" by fastforce
  have so: "faulted_on ops t so" using faulted_private(6) [OF f, of now] o by simp
  have s1: "configuration_valid s" using f by (simp add: faulted_on_def)
  note facts = faultedD [OF so]
  note defs = o so s1 facts f Let_def
  show "faulted_on ops t (snd (authorize ops t token now s))"
    by (simp add: authorize_def defs)
  show "faulted_on ops t (snd (disarm ops t now s))"
    by (simp add: disarm_def defs)
  show "faulted_on ops t (snd (requestStop ops t now s))"
    by (simp add: requestStop_def defs)
  show "faulted_on ops t (snd (submit ops t command now s))"
    by (simp add: submit_def defs)
  show "faulted_on ops t (snd (observeFeedback ops t frame now s))"
    by (simp add: observeFeedback_def defs)
  show "faulted_on ops t (snd (resetEmergencyStop ops t token now s))"
    by (simp add: resetEmergencyStop_def defs)
  obtain ok2 so2 where o2: "observeMonotonicTime now (latched_session s) = (ok2, so2)" by fastforce
  have so2: "faulted_on ops t so2"
    using faulted_private(6) [OF faulted_private(7) [OF f], of now] o2 by simp
  show "faulted_on ops t (latchEmergencyStop ops t now s)"
    by (simp add: latchEmergencyStop_split Let_def o2 so2 s1 faultedD [OF so2])
qed

lemma faulted_tick:
  assumes f: "faulted_on ops t s" and tick: "tick (logging ops) (t, l) now s = Some (r, s', t', l')"
  shows "faulted_on ops t s'" "t' = t" "l' = l"
proof -
  obtain ok so where o: "observeMonotonicTime now s = (ok, so)" by fastforce
  have so: "faulted_on ops t so" using faulted_private(6) [OF f, of now] o by simp
  have "faulted_on ops t s' \<and> t' = t \<and> l' = l"
    using tick f so faultedD [OF f] faultedD [OF so]
    by (auto simp: tick_def Let_def o split: if_splits)
  then show "faulted_on ops t s'" "t' = t" "l' = l" by simp_all
qed

text \<open>
  C12: An exhausted zero-retry budget is final for the connection: a faulted session, as long as
  the transport keeps showing the same connection generation, stays faulted through any
  operations, writes nothing at all, grants no authorization, accepts no command and resets no
  emergency stop.
\<close>

theorem fault_is_final_for_the_connection:
  assumes reach: "session_reachable ops cfg s t" and faulted: "state s = S_kFaulted"
    and same: "tr_connected ops t" "tr_generation ops t = connection_generation s"
    and run: "session_run ops es (s, t) = Some (outs, s', t')"
    and stays: "\<forall>t2. Ev_transport t2 \<in> set es \<longrightarrow>
        tr_connected ops t2 \<and> tr_generation ops t2 = connection_generation s"
  shows "state s' = S_kFaulted \<and> run_writes outs = [] \<and> granted_tokens outs = []
    \<and> accepted_sequences outs = [] \<and> reset_tokens outs = []"
proof -
  note inv = session_reachable_inv [OF reach]
  have start: "faulted_on ops t s"
    using session_invD(3,4) [OF inv] faulted same
    by (auto simp: faulted_on_def episode_inv_def connection_inv_def)
  let ?I = "\<lambda>s2 t2. session_inv s2 \<and> faulted_on ops t2 s2
      \<and> connection_generation s2 = connection_generation s"
  let ?G = "\<lambda>out. outcome_writes out = [] \<and> granted_tokens [out] = []
      \<and> accepted_sequences [out] = [] \<and> reset_tokens [out] = []"
  have "?I s' t' \<and> (\<forall>out\<in>set outs. ?G out)"
    using run
  proof (rule run_induct [where I = ?I])
    fix e s2 t2 out s3 t3
    assume I: "?I s2 t2" and step: "session_step ops e (s2, t2) = Some (out, s3, t3)"
      and e: "e \<in> set es"
    have inv2: "session_inv s2" and f2: "faulted_on ops t2 s2"
      and g2: "connection_generation s2 = connection_generation s" using I by simp_all
    have f3: "faulted_on ops t3 s3 \<and> outcome_writes out = []"
    proof (cases e)
      case (Ev_tick now)
      then obtain r w where tk: "tick (logging ops) (t2, []) now s2 = Some (r, s3, t3, w)"
          "out = Out_tick now r w"
        using step by (auto split: option.splits)
      show ?thesis using faulted_tick [OF f2 tk(1)] tk(2) by simp
    next
      case (Ev_transport t4)
      then show ?thesis
        using step f2 g2 stays e by (auto simp: faulted_on_def)
    qed (use step faulted_operations [OF f2] in \<open>auto simp: case_prod_beta\<close>)
    have gen: "connection_generation s3 = connection_generation s"
    proof -
      have "tr_generation ops t3 = connection_generation s"
      proof (cases e)
        case (Ev_tick now)
        then obtain r w where "tick (logging ops) (t2, []) now s2 = Some (r, s3, t3, w)"
          using step by (auto split: option.splits)
        then have "t3 = t2" by (rule faulted_tick(2) [OF f2])
        then show ?thesis using f2 g2 by (simp add: faulted_on_def)
      next
        case (Ev_transport t4)
        then show ?thesis using step stays e by auto
      qed (use step f2 g2 in \<open>auto simp: case_prod_beta faulted_on_def\<close>)
      then show ?thesis using f3 by (simp add: faulted_on_def)
    qed
    have "granted_tokens [out] = [] \<and> accepted_sequences [out] = [] \<and> reset_tokens [out] = []"
      using inv2 step
    proof (cases rule: session_step_cases)
      case other
      then show ?thesis
        by (cases out) (auto simp: granted_tokens_def accepted_sequences_def reset_tokens_def
            split: if_splits)
    qed (use f2 in \<open>auto simp: faulted_on_def granted_tokens_def accepted_sequences_def reset_tokens_def\<close>)
    then show "?I s3 t3 \<and> ?G out"
      using session_step_inv [OF inv2 step] f3 gen by simp
  qed (use inv start in simp)
  then show ?thesis
    unfolding run_lists [of outs] by (simp add: faulted_on_def run_writes_def)
qed

definition fault_events :: "scripted session_event list" where
  "fault_events =
     [Ev_transport (1, [Returned write_timeout, Threw, Returned write_timeout]),
      Ev_tick 1000, Ev_tick 30000000, Ev_tick 60000000]"

lemma sample_fault_run:
  "\<exists>outs s'. session_run scripted_ops fault_events (fst sample_start, (1, [])) = Some (outs, s', (1, []))
     \<and> state s' = S_kFaulted \<and> connection_generation s' = 1"
  by (simp add: fault_events_def sample_start_def session_exec kCommandFrameSize_def write_timeout_def
      exceptionIoResult_def defaultIoResult_def)

lemma sample_faulted_exists:
  "\<exists>s'. session_reachable scripted_ops sample_config s' (1, []) \<and> state s' = S_kFaulted
     \<and> connection_generation s' = 1"
  using sample_fault_run run_reachable [OF sample_start_reachable] by blast

theorem fault_is_final_for_the_connection_witness:
  "\<exists>s t :: scripted. state (s :: safety_session) = S_kFaulted
     \<and> (\<exists>outs s' t'. session_run scripted_ops [Ev_requestStop 70000000] (s, t) = Some (outs, s', t')
          \<and> state s' = S_kFaulted)"
proof -
  obtain s where reach: "session_reachable scripted_ops sample_config s (1, [])"
    and s: "state s = S_kFaulted" "connection_generation s = 1"
    using sample_faulted_exists by blast
  have run: "session_run scripted_ops [Ev_requestStop 70000000] (s, (1, []))
      = Some ([Out_requestStop (fst (requestStop scripted_ops (1, []) 70000000 s))],
              snd (requestStop scripted_ops (1, []) 70000000 s), (1, []))"
    by (simp add: case_prod_beta)
  have "state (snd (requestStop scripted_ops (1, []) 70000000 s)) = S_kFaulted"
    using fault_is_final_for_the_connection [OF reach s(1) _ _ run] s(2) by simp
  with run s(1) show ?thesis by blast
qed

text \<open>A tick on an unchanged connection during a zero episode is the zero attempt.\<close>

lemma tick_zero_episode:
  assumes inv: "session_inv s" and zero: "zero_episode_active s"
    and up: "tr_connected ops t" "tr_generation ops t = connection_generation s"
    and clock: "0 < now" "last_observed_monotonic_ns s \<le> now"
  shows "tick ops t now s = attemptZero ops t now (defaultCycleResult\<lparr>cyc_state := state s\<rparr>)
           (s\<lparr>last_observed_monotonic_ns := now\<rparr>)"
proof -
  have known: "connection_known s" "configuration_valid s" "transport_present s"
    "connection_generation s \<noteq> 0"
    using session_invD(3,4) [OF inv] zero by (auto simp: connection_inv_def episode_inv_def)
  have obs: "observeMonotonicTime now s = (True, s\<lparr>last_observed_monotonic_ns := now\<rparr>)"
    using clock by (auto simp: observeMonotonicTime_def)
  have sync: "synchronizeConnection ops t (s\<lparr>last_observed_monotonic_ns := now\<rparr>)
      = (Sync_kUnchanged, s\<lparr>last_observed_monotonic_ns := now\<rparr>)"
    using known up by (simp add: synchronizeConnection_def Let_def)
  show ?thesis
    unfolding tick_def Let_def by (simp add: known obs sync zero)
qed

text \<open>
  C11: What one zero attempt does: when a zero write is due on a live connection, \<open>tick\<close> makes
  exactly one write attempt and, by its outcome, either ends disconnected, or completes the
  episode and enters the pending state (the emergency stop if latched), or faults when the
  retry budget is used up, or stays stopping with the attempt counted and the next one
  scheduled one retry interval later.
\<close>

theorem zero_attempt_outcome:
  assumes reach: "session_reachable ops cfg s t" and zero: "zero_episode_active s"
    and up: "tr_connected ops t" "tr_generation ops t = connection_generation s"
    and clock: "0 < now" "last_observed_monotonic_ns s \<le> now"
    and due: "next_zero_attempt_ns s \<le> now"
    and wr: "tr_writeAll ops t makeZeroCommandFrame (boundedWriteDeadline now int64_max s)
                  = Some (out, t1)"
  shows "\<exists>result s'. tick ops t now s = Some (result, s', t1)
    \<and> (let r = result_or_exception now out
       in if io_status r = T_kDisconnected \<or> \<not> tr_connected ops t1
          then state s' = S_kDisconnected \<and> \<not> zero_episode_active s' \<and> cyc_action result = Cyc_kDisconnected
          else if io_status r = T_kOk \<and> host_write_complete r \<and> bytes_transferred r = kCommandFrameSize
          then state s' = (if emergency_stop_latched s then S_kEmergencyStopLatched else state_after_zero s)
               \<and> \<not> zero_episode_active s' \<and> cyc_action result = Cyc_kZeroHostWriteComplete
          else if unat (zero_attempts s) + 1 = unat (maximum_zero_attempts (config s))
          then state s' = S_kFaulted \<and> \<not> zero_episode_active s' \<and> cyc_action result = Cyc_kZeroRetriesExhausted
          else state s' = S_kStopPending \<and> zero_episode_active s'
               \<and> unat (zero_attempts s') = unat (zero_attempts s) + 1
               \<and> next_zero_attempt_ns s' = saturatingAdd (max now (completion_monotonic_ns r))
                                              (zero_retry_interval_ns (config s))
               \<and> cyc_action result = Cyc_kZeroHostWriteFailed)"
proof -
  note inv = session_reachable_inv [OF reach]
  let ?r = "result_or_exception now out"
  let ?s1 = "s\<lparr>last_observed_monotonic_ns := now, zero_attempts := zero_attempts s + 1\<rparr>"
  let ?res = "defaultCycleResult\<lparr>cyc_state := state s, cyc_zero_write_attempted := True\<rparr>"
  have stop: "state s = S_kStopPending" "configuration_valid s"
    "zero_attempts s < maximum_zero_attempts (config s)"
    using session_invD(3,4) [OF inv] zero by (auto simp: connection_inv_def episode_inv_def)
  have inc: "unat (zero_attempts s + 1) = unat (zero_attempts s) + 1"
  proof -
    have "unat (zero_attempts s) < unat (maximum_zero_attempts (config s))"
      using stop(3) by (simp add: word_less_nat_alt)
    moreover have "unat (maximum_zero_attempts (config s)) < 2 ^ 32"
      using unsigned_less [where w = "maximum_zero_attempts (config s)" and 'a = nat] by simp
    ultimately show ?thesis by (simp add: unat_word_ariths)
  qed
  have lenz: "length makeZeroCommandFrame = kCommandFrameSize"
    by (simp add: makeZeroCommandFrame_def)
  obtain result s' where fin: "finishZero ops t1 now ?r ?res ?s1 = (result, s')" by fastforce
  have att: "tick ops t now s = Some (result, s', t1)"
    unfolding tick_zero_episode [OF inv zero up clock] attemptZero_def Let_def
    using zero due wr fin by (simp add: boundedWriteDeadline_def)
  have limit: "maximum_zero_attempts (config s) \<le> zero_attempts s + 1
      \<longleftrightarrow> unat (zero_attempts s) + 1 = unat (maximum_zero_attempts (config s))"
    using stop(3) inc by (auto simp: word_le_nat_alt word_less_nat_alt)
  from fin show ?thesis
    by (intro exI [where x = result] exI [where x = s'], cases rule: finishZero_cases)
       (use att stop zero limit inc lenz in \<open>auto simp: Let_def state_handleDisconnect not_less\<close>)
qed


theorem zero_attempt_outcome_witness:
  "\<exists>s'. state (s' :: safety_session) = S_kStopPending \<and> unat (zero_attempts s') = 1"
proof -
  let ?s = "fst sample_start"
  have s: "zero_episode_active ?s" "connection_generation ?s = 1" "last_observed_monotonic_ns ?s = 0"
    "next_zero_attempt_ns ?s = 0" "zero_attempts ?s = 0" "config ?s = sample_config"
    by (simp_all add: sample_start_def session_exec)
  have step: "session_step scripted_ops (Ev_transport (1, [Returned write_timeout])) (?s, (1, []))
      = Some (Out_transport, ?s, (1, [Returned write_timeout]))" by simp
  note reach = session_reachable.step [OF sample_start_reachable step]
  have wr: "tr_writeAll scripted_ops (1, [Returned write_timeout]) makeZeroCommandFrame
      (boundedWriteDeadline 1000 int64_max ?s) = Some (Returned write_timeout, (1, []))" by simp
  obtain s' :: safety_session where "state s' = S_kStopPending" "unat (zero_attempts s') = 1"
    using zero_attempt_outcome [OF reach s(1) _ _ _ _ _ wr] s
    by (auto simp: result_or_exception_def write_timeout_def defaultIoResult_def Let_def)
  then show ?thesis by blast
qed

section \<open>Withdrawn permissions\<close>

text \<open>
  C29: Whatever withdraws a permission takes the authorization away at once: after a disarm, after
  latching the emergency stop, after a valid feedback frame with the inhibit bit, and after any
  operation called with a clock value that is not positive or runs backwards or while the
  transport is disconnected, the session is not authorized.
\<close>

theorem withdrawal_revokes:
  shows "\<not> authorized (snd (disarm ops t now s)) \<and> \<not> authorized (latchEmergencyStop ops t now s)
    \<and> (dec_ok (decodeFeedbackFrame (Some frame))
        \<and> \<not> control_allowed (dec_feedback (decodeFeedbackFrame (Some frame)))
        \<longrightarrow> \<not> authorized (snd (observeFeedback ops t frame now s)))
    \<and> (\<not> fst (observeMonotonicTime now s) \<or> \<not> tr_connected ops t
        \<longrightarrow> \<not> authorized (snd (authorize ops t token now s))
          \<and> \<not> authorized (snd (requestStop ops t now s))
          \<and> \<not> authorized (snd (submit ops t command now s))
          \<and> \<not> authorized (snd (observeFeedback ops t frame now s))
          \<and> (\<forall>result s' t'. tick ops t now s = Some (result, s', t') \<longrightarrow> \<not> authorized s'))"
proof -
  have dead: "\<not> authorized x" if "\<not> authorization_active x \<or> \<not> configuration_valid x \<or> state x = S_kFaulted" for x
    using that by (auto simp: authorized_def)
  obtain ok so where o: "observeMonotonicTime now s = (ok, so)" by fastforce
  obtain conn s1 where c: "synchronizeConnection ops t so = (conn, s1)" by fastforce
  have down: "\<not> authorization_active s1" if "conn = Sync_kDisconnected"
    using c that by (auto simp: synchronizeConnection_def Let_def split: if_splits)
  have off: "conn = Sync_kDisconnected" if "\<not> tr_connected ops t"
    using c that by (auto simp: synchronizeConnection_def)
  have same: "so = s" if "\<not> ok" using o that by (auto simp: observeMonotonicTime_def split: if_splits)
  have "\<not> authorized (snd (disarm ops t now s))"
    using down by (intro dead) (auto simp: disarm_def o c Let_def)
  moreover have "\<not> authorized (latchEmergencyStop ops t now s)"
  proof (rule dead)
    have "\<not> authorization_active (snd (synchronizeConnection ops t (snd (observeMonotonicTime now x))))"
      if "\<not> authorization_active x" for x
      using that by (simp add: synchronizeConnection_def observeMonotonicTime_def Let_def)
    then show "\<not> authorization_active (latchEmergencyStop ops t now s)
        \<or> \<not> configuration_valid (latchEmergencyStop ops t now s)
        \<or> state (latchEmergencyStop ops t now s) = S_kFaulted"
      by (simp add: latchEmergencyStop_split Let_def)
  qed
  moreover have "\<not> authorized (snd (observeFeedback ops t frame now s))"
    if "dec_ok (decodeFeedbackFrame (Some frame))"
      "\<not> control_allowed (dec_feedback (decodeFeedbackFrame (Some frame)))"
    using down that by (intro dead) (auto simp: observeFeedback_def o c Let_def)
  moreover have "\<not> authorized (snd (authorize ops t token now s))
          \<and> \<not> authorized (snd (requestStop ops t now s))
          \<and> \<not> authorized (snd (submit ops t command now s))
          \<and> \<not> authorized (snd (observeFeedback ops t frame now s))"
    if "\<not> ok \<or> conn = Sync_kDisconnected"
    using down that
    by (intro conjI dead)
       (auto simp: authorize_def requestStop_def submit_def observeFeedback_def o c Let_def)
  moreover have "\<not> authorized s'"
    if "\<not> ok \<or> conn = Sync_kDisconnected" "tick ops t now s = Some (result, s', t')" for result s' t'
    using down that by (intro dead) (auto simp: tick_def o c Let_def split: if_splits)
  ultimately show ?thesis using off o by auto
qed

definition inhibiting_feedback :: "u8 list" where
  "inhibiting_feedback = sample_feedback[1 := 1, 22 := xorRange (sample_feedback[1 := 1]) 22]"

lemma inhibiting_feedback_ok:
  "dec_ok (decodeFeedbackFrame (Some inhibiting_feedback))
   \<and> \<not> control_allowed (dec_feedback (decodeFeedbackFrame (Some inhibiting_feedback)))"
proof -
  have ok: "dec_ok (decodeFeedbackFrame (Some inhibiting_feedback))"
    by (simp add: decode_ok_iff inhibiting_feedback_def sample_feedback_def frame_consts xorRange_def)
  have "inhibiting_feedback ! 1 = 1" by (simp add: inhibiting_feedback_def sample_feedback_def)
  with ok show ?thesis
    by (simp add: decode_ok_fields [OF ok] decodeFields_def del: One_nat_def)
qed

theorem withdrawal_revokes_witness:
  "authorized sample_active
   \<and> \<not> authorized (snd (observeFeedback scripted_ops (1, []) inhibiting_feedback 7000 sample_active))
   \<and> \<not> authorized (snd (requestStop scripted_ops (1, []) 5999 sample_active))"
proof -
  have "authorized sample_active" by (simp add: authorized_def sample_active_def)
  moreover have "\<not> fst (observeMonotonicTime 5999 sample_active)"
    by (simp add: observeMonotonicTime_def sample_active_def)
  ultimately show ?thesis
    using inhibiting_feedback_ok
      withdrawal_revokes [of scripted_ops "(1, [])" 7000 sample_active inhibiting_feedback]
      withdrawal_revokes [of scripted_ops "(1, [])" 5999 sample_active inhibiting_feedback]
    by blast
qed

section \<open>Returning and staying in range\<close>

lemma attemptZero_returns:
  assumes "\<And>t data deadline. tr_writeAll ops t data deadline \<noteq> None"
  shows "attemptZero ops t now result s \<noteq> None"
  by (simp add: attemptZero_def Let_def assms split: option.split prod.split del: not_None_eq)

lemma finishMotion_returns:
  assumes "\<And>t data deadline. tr_writeAll ops t data deadline \<noteq> None"
  shows "finishMotion ops t now r result s \<noteq> None"
  using attemptZero_returns [OF assms] by (simp add: finishMotion_def Let_def del: not_None_eq)

lemma tick_returns:
  assumes total: "\<And>t data deadline. tr_writeAll ops t data deadline \<noteq> None"
  shows "tick ops t now s \<noteq> None"
proof -
  note att = attemptZero_returns [OF total] and fin = finishMotion_returns [OF total]
  show ?thesis
    unfolding tick_def Let_def
    by (simp add: total att fin split: prod.split option.split del: not_None_eq)
qed





lemma sample_active_bounds:
  "last_observed_monotonic_ns sample_active = 6000" "latest_command_valid sample_active"
  "latest_command_receipt_ns sample_active = 6000" "configuration_valid sample_active"
  by (simp_all add: sample_active_def)


section \<open>When a submission is accepted\<close>

lemma submit_reduces:
  assumes inv: "session_inv s"
    and ent: "entered ops t now s Sync_kUnchanged (s\<lparr>last_observed_monotonic_ns := now\<rparr>)"
    and ok: "submission_ok now command s"
  shows "submit ops t command now s = submit_motion ops t command now
           (s\<lparr>last_observed_monotonic_ns := now, highest_sequence := sequence_id command\<rparr>)"
proof -
  let ?s1 = "s\<lparr>last_observed_monotonic_ns := now\<rparr>"
  let ?s2 = "s\<lparr>last_observed_monotonic_ns := now, highest_sequence := sequence_id command\<rparr>"
  obtain so where o: "observeMonotonicTime now s = (True, so)"
    using ent by (cases "observeMonotonicTime now s") (auto simp: entered_def)
  have so: "so = ?s1"
    using observe_ok(1) [OF o] session_invD(5) [OF inv] by (simp add: clock_inv_def)
  have e: "configuration_valid s" "observeMonotonicTime now s = (True, ?s1)"
    "synchronizeConnection ops t ?s1 = (Sync_kUnchanged, ?s1)"
    using ent o so by (simp_all add: entered_def)
  have c: "\<not> emergency_stop_latched s" "authorized ?s2" "\<not> zero_episode_active s"
    "state s \<noteq> S_kFaulted"
    "sequence_id command \<noteq> 0" "\<not> sequence_id command \<le> highest_sequence s"
    "\<not> created_monotonic_ns command \<le> 0" "\<not> now < created_monotonic_ns command"
    "\<not> deadline_monotonic_ns command \<le> created_monotonic_ns command"
    "\<not> deadline_monotonic_ns command < now"
    "\<not> max_command_age_ns (config s) < now - created_monotonic_ns command"
    "\<not> created_monotonic_ns command \<le> authorization_monotonic_ns s"
    using ok by (auto simp: submission_ok_def command_admitted_def authorized_def)
  show ?thesis
    unfolding submit_def [of ops t command now s] Let_def e(2) prod.case e(3)
    by (simp add: e(1) c)
qed

text \<open>\<open>submit_motion\<close> on a command that passed every check but the replacement rule.\<close>

lemma submit_motion_admitted:
  assumes ok: "submission_ok now command s"
    and same: "config s2 = config s" "feedbackIsFresh now s2 = feedbackIsFresh now s"
  shows "accepted_submission (fst (submit_motion ops t command now s2)) \<longleftrightarrow>
    \<not> (latest_command_valid s2 \<and> now \<le> deadline_monotonic_ns (latest_command s2)
        \<and> now - latest_command_receipt_ns s2 \<le> max_command_age_ns (config s)
        \<and> created_monotonic_ns command \<le> created_monotonic_ns (latest_command s2))"
proof -
  have c: "isfinite (yaw_rate_radps (motion command))"
    "\<not> f64_less (max_abs_yaw_rate_radps (config s)) (f64_abs (yaw_rate_radps (motion command)))"
    "f64_eq (lateral_speed_mps (motion command)) f64_zero"
    "enc_ok (encodeCommand (motion command) (safety_config.max_linear_speed_mps (config s)))"
    "\<not> commandIsExactZero (motion command)" "feedbackIsFresh now s"
    using ok by (simp_all add: submission_ok_def command_admitted_def Let_def)
  have stored: "accepted_submission (fst (store_command command f now x))" for f x
    using store_command_fields(1) [of command f now x] by (metis prod.collapse)
  have no: "\<not> accepted_submission Sub_kTimestampInvalid" by (simp add: accepted_submission_def)
  show ?thesis
    unfolding submit_motion_def Let_def same by (simp add: c stored no not_less not_le)
qed

text \<open>
  C30: Exactly when \<open>submit\<close> accepts a command as motion intent: on an unchanged live connection,
  at a time that passed the clock check, with a fresh sequence number, an authorization that
  predates the command, control-allowing feedback in age, the command itself in age and before
  its deadline, its motion encodable within the limits and not zero, and created after the
  command that it replaces unless that one is stale; every other command is rejected.
\<close>

theorem submit_accepts_iff:
  assumes reach: "session_reachable ops cfg s t"
  shows "accepted_submission (fst (submit ops t command now s)) \<longleftrightarrow>
    0 < now \<and> last_observed_monotonic_ns s \<le> now
    \<and> tr_connected ops t \<and> tr_generation ops t = connection_generation s
    \<and> submission_ok now command s
    \<and> (latest_command_valid s
        \<and> now \<le> deadline_monotonic_ns (latest_command s)
        \<and> now - latest_command_receipt_ns s \<le> max_command_age_ns (config s)
       \<longrightarrow> created_monotonic_ns (latest_command s) < created_monotonic_ns command)"
    (is "?acc \<longleftrightarrow> ?rhs")
proof -
  note inv = session_reachable_inv [OF reach]
  let ?s1 = "s\<lparr>last_observed_monotonic_ns := now\<rparr>"
  let ?s2 = "s\<lparr>last_observed_monotonic_ns := now, highest_sequence := sequence_id command\<rparr>"
  have fresh: "feedbackIsFresh now ?s2 = feedbackIsFresh now s" by (simp add: feedbackIsFresh_def)
  have final: "?acc \<longleftrightarrow> \<not> (latest_command_valid s \<and> now \<le> deadline_monotonic_ns (latest_command s)
        \<and> now - latest_command_receipt_ns s \<le> max_command_age_ns (config s)
        \<and> created_monotonic_ns command \<le> created_monotonic_ns (latest_command s))"
    if "entered ops t now s Sync_kUnchanged ?s1" "submission_ok now command s"
    using submit_motion_admitted [OF that(2) _ fresh, of ops t] submit_reduces [OF inv that] by simp
  show ?thesis
  proof
    assume acc: ?acc
    obtain st s' where sub: "submit ops t command now s = (st, s')" by fastforce
    with acc have "accepted_submission st" by simp
    then have eff: "entered ops t now s Sync_kUnchanged ?s1" "submission_ok now command s"
      using submit_effect [OF inv sub] by simp_all
    note ent = entered_facts [OF inv eff(1)]
    show ?rhs
      using final [OF eff] acc eff(2) ent(3,7,8,9) by auto
  next
    assume rhs: ?rhs
    then have a: "authorized s" "submission_ok now command s" by (simp_all add: submission_ok_def)
    note ad = authorizedD [OF a(1)]
    have known: "configuration_valid s" "transport_present s" "connection_generation s \<noteq> 0"
      using a(1) ad(4) session_invD(4) [OF inv] by (simp_all add: connection_inv_def authorized_def)
    have obs: "observeMonotonicTime now s = (True, ?s1)"
      using rhs by (auto simp: observeMonotonicTime_def)
    have "entered ops t now s Sync_kUnchanged ?s1"
      using rhs known ad(4) by (simp add: entered_def obs synchronizeConnection_def Let_def)
    from final [OF this a(2)] rhs show ?acc by auto
  qed
qed

theorem submit_accepts_iff_witness:
  "\<not> accepted_submission (fst (submit scripted_ops (1, []) (sample_timed 2 6500) 7000 sample_active))"
  using submit_accepts_iff [OF sample_active_reachable, of "(1, [])" "sample_timed 2 6500" 7000]
  by (simp add: submission_ok_def sample_active_def)

section \<open>The state invariant\<close>

text \<open>
  C28: Every reachable session is well formed: it is stopping exactly while a zero episode is open
  and its retry count is below the budget; it is connected only with a valid configuration and a
  nonzero generation; an authorization exists only on the current generation and never under
  emergency stop; a stored motion intent passed every admission check, is younger than the
  authorization and older than the clock; the active state with an authorization has an intent
  and enough consecutive commands, and is never latched.
\<close>

theorem reachable_session_well_formed:
  assumes reach: "session_reachable ops cfg s t"
  shows "(zero_episode_active s \<longleftrightarrow> state s = S_kStopPending)
    \<and> (zero_episode_active s \<longrightarrow> zero_attempts s < maximum_zero_attempts (config s))
    \<and> (connection_known s \<longrightarrow> connection_generation s \<noteq> 0 \<and> safetyConfigIsValid (config s)
          \<and> transport_present s)
    \<and> (authorization_active s \<longrightarrow> authorized_generation s = connection_generation s
          \<and> \<not> emergency_stop_latched s \<and> 0 < authorization_monotonic_ns s)
    \<and> (latest_command_valid s \<longrightarrow>
          command_admitted (config s) (latest_command s) (latest_frame s)
          \<and> authorization_monotonic_ns s < created_monotonic_ns (latest_command s)
          \<and> created_monotonic_ns (latest_command s) \<le> latest_command_receipt_ns s
          \<and> latest_command_receipt_ns s \<le> last_observed_monotonic_ns s
          \<and> sequence_id (latest_command s) \<le> highest_sequence s)
    \<and> (state s = S_kActive \<and> authorization_active s \<longrightarrow> latest_command_valid s
          \<and> fresh_commands_required (config s) \<le> consecutive_fresh_commands s)
    \<and> (state s = S_kActive \<longrightarrow> \<not> emergency_stop_latched s)"
  using session_invD [OF session_reachable_inv [OF reach]] active_not_latched [OF reach]
  unfolding intent_inv_def authorization_inv_def episode_inv_def connection_inv_def active_inv_def
  by blast

theorem reachable_session_well_formed_witness:
  "state sample_active = S_kActive \<and> latest_command_valid sample_active
   \<and> authorization_monotonic_ns sample_active < created_monotonic_ns (latest_command sample_active)"
proof -
  have "state sample_active = S_kActive" "latest_command_valid sample_active"
    by (simp_all add: sample_active_def)
  with reachable_session_well_formed [OF sample_active_reachable] show ?thesis by blast
qed

end
