(* ===== verification/Session_On_Transport.thy ===== *)
theory Session_On_Transport
  imports Safety_Effects
begin

text \<open>
  The safety session over a transport that keeps its contract: what the session
  may conclude about its ticks from the laws of \<open>ITransport\<close> alone.  The lemmas
  are proved in the locale of the interface, and in \<open>wired_transport\<close>, which adds
  what a write does to the bytes that leave the host.
\<close>

locale wired_transport = transport_contract ops good
  for ops :: "'t transport_ops" and good :: "'t \<Rightarrow> bool" +
  fixes wire :: "'t \<Rightarrow> u8 list"
  assumes write_wire:
      "\<lbrakk>good t; tr_writeAll ops t data deadline = Some (out, t')\<rbrakk> \<Longrightarrow>
         \<exists>n. wire t' = wire t @ take n data \<and> (\<forall>r. out = Returned r \<longrightarrow> n = bytes_transferred r)"

definition sent_parts :: "write_log \<Rightarrow> u8 list list \<Rightarrow> bool" where
  "sent_parts writes parts \<longleftrightarrow> list_all2 (\<lambda>w part. \<exists>n. part = take n (fst w)) writes parts"

lemma sent_parts_simps [simp]:
  "sent_parts [] parts \<longleftrightarrow> parts = []"
  "sent_parts (w # ws) parts \<longleftrightarrow>
     (\<exists>n ps. parts = take n (fst w) # ps \<and> sent_parts ws ps)"
  by (auto simp: sent_parts_def list_all2_Cons1)

lemma sent_parts_append:
  "\<lbrakk>sent_parts ws ps; sent_parts vs qs\<rbrakk> \<Longrightarrow> sent_parts (ws @ vs) (ps @ qs)"
  by (simp add: sent_parts_def list_all2_appendI)

text \<open>What a tick that reports a completed motion write has done.\<close>

lemma result_or_exception_ok:
  "io_status (result_or_exception now out) = T_kOk \<Longrightarrow> out = Returned (result_or_exception now out)"
  by (cases out) (auto simp: result_or_exception_def exceptionIoResult_def defaultIoResult_def)

lemma attemptZero_motion:
  assumes "attemptZero ops t now result s = Some (result', s', t')"
    and "cyc_action result' = Cyc_kMotionHostWriteComplete"
  shows "cyc_action result = Cyc_kMotionHostWriteComplete"
  using assms(1)
proof (cases rule: attemptZero_cases)
  case (wrote out)
  from wrote(4) [symmetric] show ?thesis by (cases rule: finishZero_cases) (use assms(2) in auto)
qed (use assms(2) in auto)

lemma finishMotion_motion:
  assumes res: "finishMotion ops t now r result s = Some (result', s', t')"
    and "cyc_action result' = Cyc_kMotionHostWriteComplete" "cyc_action result = Cyc_kNoAction"
  shows "io_status r = T_kOk \<and> bytes_transferred r = length (latest_frame s)
    \<and> last_motion_host_write_completion_ns s'
        = (if completion_monotonic_ns r > 0 then completion_monotonic_ns r else now)"
proof (cases "io_status r = T_kOk \<and> host_write_complete r
        \<and> bytes_transferred r = length (latest_frame s)")
  case True
  with res show ?thesis by (auto simp: finishMotion_def Let_def)
next
  case False
  with assms have "attemptZero ops t (max now (completion_monotonic_ns r))
      (result\<lparr>cyc_transport_status := io_status r, cyc_motion_host_write_complete := host_write_complete r,
              cyc_outcome_uncertain := outcome_uncertain r\<rparr>)
      (beginZeroEpisode ops t S_kConnectedInhibited (max now (completion_monotonic_ns r))
        (clearMotionIntent (revokeAuthorization s))) = Some (result', s', t')"
    by (auto simp: finishMotion_def Let_def split: if_splits)
  from attemptZero_motion [OF this assms(2)] assms(3) show ?thesis by simp
qed

lemma tick_motion_complete:
  assumes inv: "session_inv s" and res: "tick ops t now s = Some (result, s', t')"
    and sent: "cyc_action result = Cyc_kMotionHostWriteComplete"
  shows "\<exists>r t1. motion_due now s \<and> io_status r = T_kOk
    \<and> tr_writeAll ops t (latest_frame s)
        (boundedWriteDeadline now (deadline_monotonic_ns (latest_command s)) s) = Some (Returned r, t1)
    \<and> last_motion_host_write_completion_ns s'
        = (if completion_monotonic_ns r > 0 then completion_monotonic_ns r else now)"
  using res
proof (cases rule: tick_cases)
  case (zero conn s1)
  from attemptZero_motion [OF zero(3) sent] show ?thesis by (simp add: defaultCycleResult_def)
next
  case (stop conn s1 a)
  from attemptZero_motion [OF stop(7) sent] show ?thesis by (simp add: defaultCycleResult_def)
next
  case (motion conn s1 out t1)
  note same = motion_due_same [OF inv motion(1,2)]
  have "boundedWriteDeadline n d s1 = boundedWriteDeadline n d s" for n d
    unfolding same(2) by (simp add: boundedWriteDeadline_def)
  moreover have "latest_frame s1 = latest_frame s" "latest_command s1 = latest_command s"
    unfolding same(2) by simp_all
  moreover have "io_status (result_or_exception now out) = T_kOk"
    and "last_motion_host_write_completion_ns s'
      = (if completion_monotonic_ns (result_or_exception now out) > 0
         then completion_monotonic_ns (result_or_exception now out) else now)"
    using finishMotion_motion [OF motion(4) sent] by (simp_all add: defaultCycleResult_def)
  ultimately show ?thesis
    using same(3) motion(3) result_or_exception_ok [of now out] by metis
qed (use sent in simp_all)

context transport_contract
begin

text \<open>No operation of a tick reopens the transport or leaves its good states.\<close>

definition follows :: "'t \<Rightarrow> 't \<Rightarrow> bool" where
  "follows t t' \<longleftrightarrow> good t' \<and> tr_generation ops t' = tr_generation ops t
     \<and> (tr_connected ops t' \<longrightarrow> tr_connected ops t)"

lemma follows_refl: "good t \<Longrightarrow> follows t t"
  by (simp add: follows_def)

lemma follows_trans: "\<lbrakk>follows a b; follows b c\<rbrakk> \<Longrightarrow> follows a c"
  by (simp add: follows_def)

lemma write_follows:
  "\<lbrakk>good t; tr_writeAll ops t data deadline = Some (out, t')\<rbrakk> \<Longrightarrow> follows t t'"
  using write_good write_generation write_no_reconnect by (fastforce simp: follows_def)

lemma attemptZero_follows:
  assumes "attemptZero ops t now result s = Some (result', s', t')" and "good t"
  shows "follows t t'"
  using assms(1) by (cases rule: attemptZero_cases) (use assms(2) follows_refl write_follows in auto)

lemma finishMotion_follows:
  assumes "finishMotion ops t now r result s = Some (result', s', t')" and "good t"
  shows "follows t t'"
  using assms(1) by (cases rule: finishMotion_cases) (use assms(2) follows_refl attemptZero_follows in auto)

lemma tick_follows:
  assumes "tick ops t now s = Some (result, s', t')" and "good t"
  shows "follows t t'"
  using assms(1)
proof (cases rule: tick_cases)
  case (motion conn s1 out t1)
  have "follows t t1" by (rule write_follows [OF assms(2) motion(3)])
  moreover have "follows t1 t'"
    using finishMotion_follows [OF motion(4)] calculation by (simp add: follows_def)
  ultimately show ?thesis by (rule follows_trans)
qed (use assms(2) follows_refl attemptZero_follows in auto)

text \<open>A completed motion write ended within the write timeout and the command's deadline.\<close>

lemma tick_motion_in_time:
  assumes inv: "session_inv s" and "good t"
    and tick: "tick ops t now s = Some (result, s', t')"
    and sent: "cyc_action result = Cyc_kMotionHostWriteComplete"
  shows "last_motion_host_write_completion_ns s' \<le> deadline_monotonic_ns (latest_command s)
    \<and> last_motion_host_write_completion_ns s' \<le> max now (saturatingAdd now (write_timeout_ns (config s)))"
  using tick_motion_complete [OF inv tick sent]
proof (elim exE conjE)
  fix r t1
  assume due: "motion_due now s" and r: "io_status r = T_kOk"
    and w: "tr_writeAll ops t (latest_frame s)
      (boundedWriteDeadline now (deadline_monotonic_ns (latest_command s)) s) = Some (Returned r, t1)"
    and s': "last_motion_host_write_completion_ns s'
      = (if completion_monotonic_ns r > 0 then completion_monotonic_ns r else now)"
  have "completion_monotonic_ns r \<le> boundedWriteDeadline now (deadline_monotonic_ns (latest_command s)) s"
    using write_success [OF \<open>good t\<close> w r] by simp
  moreover have "now \<le> deadline_monotonic_ns (latest_command s)"
    using due by (simp add: motion_due_def commandIsFresh_def)
  ultimately show ?thesis
    unfolding s' by (auto simp: boundedWriteDeadline_def)
qed

end

context wired_transport
begin

lemma attemptZero_wire:
  assumes "attemptZero (logging ops) (t, l) now result s = Some (result', s', t', l')" and "good t"
  shows "\<exists>writes parts. l' = l @ writes \<and> sent_parts writes parts \<and> wire t' = wire t @ concat parts"
  using assms(1)
proof (cases rule: attemptZero_cases)
  case (wrote out)
  then obtain t1 where w: "tr_writeAll ops t makeZeroCommandFrame (boundedWriteDeadline now int64_max s) = Some (out, t')"
    "l' = l @ [(makeZeroCommandFrame, boundedWriteDeadline now int64_max s)]"
    by auto
  obtain n where "wire t' = wire t @ take n makeZeroCommandFrame"
    using write_wire [OF assms(2) w(1)] by blast
  with w(2) show ?thesis
    by (intro exI [of _ "[(makeZeroCommandFrame, boundedWriteDeadline now int64_max s)]"]
        exI [of _ "[take n makeZeroCommandFrame]"]) auto
qed (auto intro!: exI [of _ "[]"])

lemma finishMotion_wire:
  assumes "finishMotion (logging ops) (t, l) now r result s = Some (result', s', t', l')" and "good t"
  shows "\<exists>writes parts. l' = l @ writes \<and> sent_parts writes parts \<and> wire t' = wire t @ concat parts"
  using assms(1)
proof (cases rule: finishMotion_cases)
  case (failed res0)
  then show ?thesis using attemptZero_wire [OF failed(3) assms(2)] by simp
qed (auto intro!: exI [of _ "[]"])

lemma tick_wire:
  assumes "tick (logging ops) (t, l) now s = Some (result, s', t', l')" and "good t"
  shows "\<exists>writes parts. l' = l @ writes \<and> sent_parts writes parts \<and> wire t' = wire t @ concat parts"
  using assms(1)
proof (cases rule: tick_cases)
  case (zero conn s1)
  then show ?thesis using attemptZero_wire [OF zero(3) assms(2)] by simp
next
  case (stop conn s1 a)
  then show ?thesis using attemptZero_wire [OF stop(7) assms(2)] by simp
next
  case (motion conn s1 out tl)
  obtain t1 l1 where tl: "tl = (t1, l1)" by fastforce
  define w where "w = (latest_frame s1, boundedWriteDeadline now (deadline_monotonic_ns (latest_command s1)) s1)"
  have wr: "tr_writeAll ops t (fst w) (snd w) = Some (out, t1)" "l1 = l @ [w]"
    using motion(3) unfolding tl w_def by auto
  obtain n where n: "wire t1 = wire t @ take n (fst w)"
    using write_wire [OF assms(2) wr(1)] by blast
  obtain writes parts where "l' = l1 @ writes" "sent_parts writes parts" "wire t' = wire t1 @ concat parts"
    using finishMotion_wire [OF motion(4) [unfolded tl]] write_good [OF assms(2) wr(1)] by blast
  with n wr(2) show ?thesis
    by (intro exI [of _ "w # writes"] exI [of _ "take n (fst w) # parts"]) auto
qed (auto intro!: exI [of _ "[]"])

end

end
