(* ===== verification/Loops.thy ===== *)
theory Loops
  imports Prelude
begin

text \<open>
  The \<open>for (;;)\<close>, \<open>while\<close> and \<open>do ... while\<close> loops of the program.  The body of a
  loop is a definition of its own: it either returns from the loop or continues
  with a new loop state, or never comes back (\<open>None\<close>, a call inside it that does
  not return).  \<open>run_loop\<close> repeats it; a loop that runs forever is \<open>None\<close>.  The
  rules are those of partial and of total correctness.
\<close>

datatype ('s, 'r) loop_step = Continue 's | Return 'r

partial_function (option) run_loop :: "('s \<Rightarrow> ('s, 'r) loop_step option) \<Rightarrow> 's \<Rightarrow> 'r option" where
  "run_loop body s =
     (case body s of
        None \<Rightarrow> None
      | Some step \<Rightarrow> (case step of Return r \<Rightarrow> Some r | Continue s' \<Rightarrow> run_loop body s'))"

lemma run_loop_Return: "body s = Some (Return r) \<Longrightarrow> run_loop body s = Some r"
  by (subst run_loop.simps) simp

lemma run_loop_Continue: "body s = Some (Continue s') \<Longrightarrow> run_loop body s = run_loop body s'"
  by (subst run_loop.simps) simp

lemma run_loop_None: "body s = None \<Longrightarrow> run_loop body s = None"
  by (subst run_loop.simps) simp

text \<open>Partial correctness: an invariant of the loop state, established on entry.\<close>

lemma run_loop_rule:
  assumes "run_loop body s = Some r" and "I s"
    and "\<And>s s'. I s \<Longrightarrow> body s = Some (Continue s') \<Longrightarrow> I s'"
    and "\<And>s r. I s \<Longrightarrow> body s = Some (Return r) \<Longrightarrow> Q r"
  shows "Q r"
  using assms
proof (induction body s r rule: run_loop.raw_induct [rotated, consumes 1, case_names step])
  case (step loop body s r)
  from step.hyps consider "body s = Some (Return r)"
    | s' where "body s = Some (Continue s')" "loop body s' = Some r"
    by (auto split: option.splits loop_step.splits)
  then show ?case
  proof cases
    case 1
    with step.prems show ?thesis by blast
  next
    case 2
    from step.prems(1,2) 2(1) have "I s'"
      by blast
    with step.IH [OF 2(2)] step.prems(2,3) show ?thesis by blast
  qed
qed

text \<open>Total correctness: the body returns and a measure of the loop state decreases.\<close>

lemma run_loop_terminates:
  fixes m :: "'s \<Rightarrow> nat"
  assumes "I s"
    and total: "\<And>s. I s \<Longrightarrow> body s \<noteq> None"
    and step: "\<And>s s'. I s \<Longrightarrow> body s = Some (Continue s') \<Longrightarrow> I s' \<and> m s' < m s"
  shows "\<exists>r. run_loop body s = Some r"
  using \<open>I s\<close>
proof (induction "m s" arbitrary: s rule: less_induct)
  case less
  obtain st where st: "body s = Some st"
    using total [OF less.prems] by auto
  show ?case
  proof (cases st)
    case (Continue s')
    then show ?thesis
      using st step [OF less.prems] less.hyps [of s'] run_loop_Continue [of body s s'] by auto
  next
    case (Return r)
    then show ?thesis
      using st run_loop_Return [of body s r] by auto
  qed
qed

section \<open>Straight-line code\<close>

text \<open>
  Straight-line code over calls that may not return is reasoned about step by
  step: \<open>upon m P\<close> says that if \<open>m\<close> returns, its result satisfies \<open>P\<close>.
\<close>

definition upon :: "'a option \<Rightarrow> ('a \<Rightarrow> bool) \<Rightarrow> bool" where
  "upon m P \<longleftrightarrow> (\<forall>x. m = Some x \<longrightarrow> P x)"

lemma upon_Some [simp]: "upon (Some x) P = P x"
  by (simp add: upon_def)

lemma upon_bind [simp]: "upon (Option.bind m f) P = upon m (\<lambda>x. upon (f x) P)"
  by (cases m) (auto simp: upon_def)

lemma upon_if [simp]:
  "upon (if b then m else n) P \<longleftrightarrow> (b \<longrightarrow> upon m P) \<and> (\<not> b \<longrightarrow> upon n P)"
  by simp

lemma upon_split [simp]: "upon (case p of (a, b) \<Rightarrow> m a b) P = (case p of (a, b) \<Rightarrow> upon (m a b) P)"
  by (simp add: split_def)

end
