(* ===== verification/Posix_Io.thy ===== *)
theory Posix_Io
  imports Transport_Interface Loops
begin

unbundle bit_operations_syntax

text \<open>
  The POSIX serial transport: \<open>src/transport.cpp\<close> and \<open>transport.hpp\<close>.  The
  operating system is a parameter: an \<open>io_operations\<close> (the injectable functions
  of \<open>IoOperations\<close>) for the input and output loops, a \<open>system_calls\<close> for opening
  and configuring, both over a world \<open>'w\<close>.  A call returns its result, the value
  of \<open>errno\<close> after it, its out-parameters and the new world.  A loop that never
  ends is \<open>None\<close>.
\<close>

section \<open>Error numbers and poll events\<close>

definition ENOENT :: int where "ENOENT = 2"
definition EINTR :: int where "EINTR = 4"
definition ENXIO :: int where "ENXIO = 6"
definition EBADF :: int where "EBADF = 9"
definition EAGAIN :: int where "EAGAIN = 11"
definition EWOULDBLOCK :: int where "EWOULDBLOCK = 11"
definition EACCES :: int where "EACCES = 13"
definition EBUSY :: int where "EBUSY = 16"
definition ENODEV :: int where "ENODEV = 19"
definition EINVAL :: int where "EINVAL = 22"
definition ENOTTY :: int where "ENOTTY = 25"
definition EPIPE :: int where "EPIPE = 32"
definition EOVERFLOW :: int where "EOVERFLOW = 75"
definition ENOTCONN :: int where "ENOTCONN = 107"
definition ETIMEDOUT :: int where "ETIMEDOUT = 110"

lemmas errno_defs = ENOENT_def EINTR_def EIO_def ENXIO_def EBADF_def EAGAIN_def EWOULDBLOCK_def
  EACCES_def EBUSY_def ENODEV_def EINVAL_def ENOTTY_def EPIPE_def EOVERFLOW_def ENOTCONN_def
  ETIMEDOUT_def

definition POLLIN :: u16 where "POLLIN = 1"
definition POLLOUT :: u16 where "POLLOUT = 4"
definition POLLERR :: u16 where "POLLERR = 8"
definition POLLHUP :: u16 where "POLLHUP = 16"
definition POLLNVAL :: u16 where "POLLNVAL = 32"

lemmas poll_defs = POLLIN_def POLLOUT_def POLLERR_def POLLHUP_def POLLNVAL_def

definition INT_MAX :: int where "INT_MAX = 2147483647"

section \<open>The injectable operations\<close>

record 'w io_operations =
  monotonic_now_ns :: "('w \<Rightarrow> int \<times> 'w) option"
  write_bytes :: "(int \<Rightarrow> u8 list \<Rightarrow> 'w \<Rightarrow> int \<times> int \<times> 'w) option"
  read_bytes :: "(int \<Rightarrow> nat \<Rightarrow> 'w \<Rightarrow> int \<times> int \<times> u8 list \<times> 'w) option"
  poll_one :: "(int \<Rightarrow> u16 \<Rightarrow> int \<Rightarrow> 'w \<Rightarrow> int \<times> int \<times> u16 \<times> 'w) option"

definition writeOperationsAreComplete :: "'w io_operations \<Rightarrow> bool" where
  "writeOperationsAreComplete operations \<longleftrightarrow>
     monotonic_now_ns operations \<noteq> None \<and> write_bytes operations \<noteq> None
     \<and> poll_one operations \<noteq> None"

definition readOperationsAreComplete :: "'w io_operations \<Rightarrow> bool" where
  "readOperationsAreComplete operations \<longleftrightarrow>
     monotonic_now_ns operations \<noteq> None \<and> read_bytes operations \<noteq> None
     \<and> poll_one operations \<noteq> None"

section \<open>File-local helpers\<close>

definition isDisconnectError :: "int \<Rightarrow> bool" where
  "isDisconnectError error_number \<longleftrightarrow>
     error_number = EBADF \<or> error_number = EPIPE \<or> error_number = ENODEV
     \<or> error_number = ENXIO \<or> error_number = EIO \<or> error_number = ENOTCONN"

definition makeResult ::
    "transport_status \<Rightarrow> nat \<Rightarrow> int \<Rightarrow> bool \<Rightarrow> bool \<Rightarrow> int \<Rightarrow> io_result" where
  "makeResult status n err host_complete uncertain completion =
     \<lparr>io_status = status, bytes_transferred = n, os_error = err, host_write_complete = host_complete,
      outcome_uncertain = uncertain, completion_monotonic_ns = completion\<rparr>"

definition timeoutMilliseconds :: "int \<Rightarrow> int" where
  "timeoutMilliseconds remaining_ns =
     (if remaining_ns \<le> 0 then 0
      else let milliseconds = remaining_ns div 1000000;
               milliseconds = (if remaining_ns mod 1000000 \<noteq> 0 then milliseconds + 1 else milliseconds)
           in if milliseconds > INT_MAX then INT_MAX else milliseconds)"

record wait_result =
  wait_status :: transport_status
  wait_os_error :: int
  wait_completion :: int

definition ready :: "wait_result \<Rightarrow> bool" where
  "ready r \<longleftrightarrow> wait_status r = T_kOk"

abbreviation waited :: "transport_status \<Rightarrow> int \<Rightarrow> int \<Rightarrow> wait_result" where
  "waited st err t \<equiv> \<lparr>wait_status = st, wait_os_error = err, wait_completion = t\<rparr>"

definition waitForEventBody ::
    "'w io_operations \<Rightarrow> int \<Rightarrow> u16 \<Rightarrow> int \<Rightarrow> 'w \<Rightarrow> ('w, wait_result \<times> 'w) loop_step" where
  "waitForEventBody operations fd requested_events absolute_deadline_ns w =
     (let (before_poll_ns, w) = the (monotonic_now_ns operations) w
      in if before_poll_ns \<ge> absolute_deadline_ns
         then Return (waited T_kDeadlineExceeded ETIMEDOUT before_poll_ns, w)
         else
          (let (poll_result, errno, returned_events, w) =
                 the (poll_one operations) fd requested_events
                   (timeoutMilliseconds (absolute_deadline_ns - before_poll_ns)) w;
               poll_error = (if poll_result < 0 then errno else 0);
               (after_poll_ns, w) = the (monotonic_now_ns operations) w
           in if poll_result > 0 then
                (if returned_events AND (POLLERR OR POLLHUP OR POLLNVAL) \<noteq> 0
                 then Return (waited T_kDisconnected
                        (if returned_events AND POLLNVAL \<noteq> 0 then EBADF else EPIPE) after_poll_ns, w)
                 else if returned_events AND requested_events \<noteq> 0 then
                   (if after_poll_ns > absolute_deadline_ns
                    then Return (waited T_kDeadlineExceeded ETIMEDOUT after_poll_ns, w)
                    else Return (waited T_kOk 0 after_poll_ns, w))
                 else Continue w)
              else if poll_result = 0
              then Return (waited T_kDeadlineExceeded ETIMEDOUT after_poll_ns, w)
              else if poll_error = EINTR then Continue w
              else Return (waited (if isDisconnectError poll_error then T_kDisconnected else T_kIoError)
                     poll_error after_poll_ns, w)))"

definition waitForEvent ::
    "'w io_operations \<Rightarrow> int \<Rightarrow> u16 \<Rightarrow> int \<Rightarrow> 'w \<Rightarrow> (wait_result \<times> 'w) option" where
  "waitForEvent operations fd requested_events absolute_deadline_ns =
     run_loop (\<lambda>w. Some (waitForEventBody operations fd requested_events absolute_deadline_ns w))"

section \<open>Writing and reading\<close>

text \<open>
  The loop of \<open>writeAllWithOperations\<close>; \<open>bytes\<close> are the \<open>size\<close> bytes of the buffer,
  the loop state is the count \<open>transferred\<close> and the world.  The body starts with
  the \<open>while\<close> condition: when it fails, the code after the loop runs.
\<close>

definition writeBody ::
    "'w io_operations \<Rightarrow> int \<Rightarrow> u8 list \<Rightarrow> int \<Rightarrow> nat \<times> 'w
       \<Rightarrow> (nat \<times> 'w, io_result \<times> 'w) loop_step option" where
  "writeBody operations fd bytes deadline s =
     (let (transferred, w) = s;
          now = the (monotonic_now_ns operations)
      in if \<not> transferred < length bytes
         then (let (t, w) = now w
               in Some (Return (makeResult T_kIoError transferred EIO False True t, w)))
         else
          (let (before_write_ns, w) = now w
           in if before_write_ns \<ge> deadline
              then Some (Return (makeResult T_kDeadlineExceeded transferred ETIMEDOUT False
                     (transferred \<noteq> 0) before_write_ns, w))
              else
               (let (write_result, errno, w) =
                      the (write_bytes operations) fd (drop transferred bytes) w;
                    write_error = (if write_result < 0 then errno else 0)
                in if write_result > 0 then
                     (let progress = nat write_result
                      in if progress > length bytes - transferred
                         then Some (Return (makeResult T_kIoError transferred EIO False
                                (transferred \<noteq> 0) before_write_ns, w))
                         else
                          (let transferred = transferred + progress;
                               (completion_ns, w) = now w
                           in if transferred = length bytes
                              then (let late = completion_ns > deadline
                                    in Some (Return (makeResult
                                         (if late then T_kDeadlineExceeded else T_kOk) transferred
                                         (if late then ETIMEDOUT else 0) True late completion_ns, w)))
                              else if completion_ns \<ge> deadline
                              then Some (Return (makeResult T_kDeadlineExceeded transferred ETIMEDOUT
                                     False True completion_ns, w))
                              else Some (Continue (transferred, w))))
                   else if write_result = 0
                   then (let (t, w) = now w
                         in Some (Return (makeResult T_kDisconnected transferred EPIPE False True t, w)))
                   else if write_error = EINTR then Some (Continue (transferred, w))
                   else if write_error = EAGAIN \<or> write_error = EWOULDBLOCK
                   then
                    (case waitForEvent operations fd POLLOUT deadline w of
                       None \<Rightarrow> None
                     | Some (wait, w) \<Rightarrow>
                         if ready wait then Some (Continue (transferred, w))
                         else Some (Return (makeResult (wait_status wait) transferred
                                (wait_os_error wait) False
                                (transferred \<noteq> 0 \<or> wait_status wait = T_kDisconnected)
                                (wait_completion wait), w)))
                   else
                    (let status = (if isDisconnectError write_error then T_kDisconnected
                                   else T_kIoError);
                         (t, w) = now w
                     in Some (Return (makeResult status transferred write_error False
                          (transferred \<noteq> 0 \<or> status = T_kDisconnected) t, w))))))"

definition writeAllWithOperations ::
    "int \<Rightarrow> u8 list option \<Rightarrow> nat \<Rightarrow> int \<Rightarrow> 'w io_operations \<Rightarrow> 'w \<Rightarrow> (io_result \<times> 'w) option" where
  "writeAllWithOperations fd data n deadline operations w =
     (if fd < 0 \<or> data = None \<and> n \<noteq> 0 \<or> \<not> writeOperationsAreComplete operations
      then Some (makeResult T_kInvalidArgument 0 EINVAL False False 0, w)
      else if n = 0 then
        (let (completion_ns, w) = the (monotonic_now_ns operations) w;
             late = completion_ns > deadline
         in Some (makeResult (if late then T_kDeadlineExceeded else T_kOk) 0
              (if late then ETIMEDOUT else 0) True late completion_ns, w))
      else run_loop (writeBody operations fd (take n (the data)) deadline) (0, w))"

text \<open>
  The loop of \<open>readSomeWithOperations\<close>; the bytes returned with the result are
  what the last \<open>read_bytes\<close> stored in the caller's buffer.
\<close>

definition readBody ::
    "'w io_operations \<Rightarrow> int \<Rightarrow> nat \<Rightarrow> int \<Rightarrow> 'w
       \<Rightarrow> ('w, io_result \<times> u8 list \<times> 'w) loop_step option" where
  "readBody operations fd capacity deadline w =
     (let now = the (monotonic_now_ns operations);
          (before_read_ns, w) = now w
      in if before_read_ns \<ge> deadline
         then Some (Return (makeResult T_kDeadlineExceeded 0 ETIMEDOUT False False before_read_ns, [], w))
         else
          (let (read_result, errno, stored, w) = the (read_bytes operations) fd capacity w;
               read_error = (if read_result < 0 then errno else 0)
           in if read_result > 0 then
                (let transferred = nat read_result;
                     (completion_ns, w) = now w
                 in if transferred > capacity
                    then Some (Return (makeResult T_kIoError 0 EIO False False completion_ns, stored, w))
                    else (let late = completion_ns > deadline
                          in Some (Return (makeResult (if late then T_kDeadlineExceeded else T_kOk)
                               transferred (if late then ETIMEDOUT else 0) False False
                               completion_ns, stored, w))))
              else if read_result < 0 \<and> read_error = EINTR then Some (Continue w)
              else if read_result = 0 \<or> read_error = EAGAIN \<or> read_error = EWOULDBLOCK
              then
               (case waitForEvent operations fd POLLIN deadline w of
                  None \<Rightarrow> None
                | Some (wait, w) \<Rightarrow>
                    if ready wait then Some (Continue w)
                    else Some (Return (makeResult (wait_status wait) 0 (wait_os_error wait) False False
                           (wait_completion wait), stored, w)))
              else
               (let status = (if isDisconnectError read_error then T_kDisconnected else T_kIoError);
                    (t, w) = now w
                in Some (Return (makeResult status 0 read_error False False t, stored, w)))))"

definition readSomeWithOperations ::
    "int \<Rightarrow> bool \<Rightarrow> nat \<Rightarrow> int \<Rightarrow> 'w io_operations \<Rightarrow> 'w
       \<Rightarrow> (io_result \<times> u8 list \<times> 'w) option" where
  "readSomeWithOperations fd data_present capacity deadline operations w =
     (if fd < 0 \<or> \<not> data_present \<or> capacity = 0 \<or> \<not> readOperationsAreComplete operations
      then Some (makeResult T_kInvalidArgument 0 EINVAL False False 0, [], w)
      else run_loop (readBody operations fd capacity deadline) w)"

section \<open>The wait\<close>

lemmas unfold_step = Let_def split_def

lemma waitForEvent_result:
  assumes "waitForEvent operations fd events deadline w = Some (r, w')"
  shows "wait_status r \<in> {T_kOk, T_kDeadlineExceeded, T_kDisconnected, T_kIoError}
         \<and> (ready r \<longrightarrow> wait_completion r \<le> deadline)"
proof -
  have "(\<lambda>(r, w'). wait_status r \<in> {T_kOk, T_kDeadlineExceeded, T_kDisconnected, T_kIoError}
         \<and> (ready r \<longrightarrow> wait_completion r \<le> deadline)) (r, w')"
    using assms [unfolded waitForEvent_def]
    by (rule run_loop_rule [where I = "\<lambda>_. True"])
      (auto simp: waitForEventBody_def ready_def unfold_step split: if_splits)
  then show ?thesis by simp
qed

section \<open>Time\<close>

text \<open>
  What is relied on of the clock and the blocking calls: \<open>clock w\<close> is the time of
  the world; reading the clock returns a time and takes at least a nanosecond,
  and no call turns the clock back.
\<close>

definition clock_host :: "('w \<Rightarrow> int) \<Rightarrow> 'w io_operations \<Rightarrow> bool" where
  "clock_host clock operations \<longleftrightarrow>
     (\<forall>w. fst (the (monotonic_now_ns operations) w) = clock (snd (the (monotonic_now_ns operations) w))
          \<and> clock w < clock (snd (the (monotonic_now_ns operations) w)))
     \<and> (\<forall>fd ev ms w. clock w \<le> clock (snd (snd (snd (the (poll_one operations) fd ev ms w)))))
     \<and> (\<forall>fd data w. clock w \<le> clock (snd (snd (the (write_bytes operations) fd data w))))
     \<and> (\<forall>fd n w. clock w \<le> clock (snd (snd (snd (the (read_bytes operations) fd n w)))))"

lemma clock_now:
  "\<lbrakk>clock_host clock operations; the (monotonic_now_ns operations) w = (t, w')\<rbrakk> \<Longrightarrow>
     t = clock w' \<and> clock w < clock w'"
  by (auto simp: clock_host_def dest: spec [of _ w])

lemma clock_poll:
  "\<lbrakk>clock_host clock operations; the (poll_one operations) fd ev ms w = (r, e, re, w')\<rbrakk> \<Longrightarrow>
     clock w \<le> clock w'"
  unfolding clock_host_def by (metis snd_conv)

lemma clock_write:
  "\<lbrakk>clock_host clock operations; the (write_bytes operations) fd data w = (r, e, w')\<rbrakk> \<Longrightarrow>
     clock w \<le> clock w'"
  unfolding clock_host_def by (metis snd_conv)

lemma clock_read:
  "\<lbrakk>clock_host clock operations; the (read_bytes operations) fd n w = (r, e, stored, w')\<rbrakk> \<Longrightarrow>
     clock w \<le> clock w'"
  unfolding clock_host_def by (metis snd_conv)

lemma waitForEventBody_clock:
  assumes host: "clock_host clock operations"
    and step: "waitForEventBody operations fd events deadline w = Continue w'"
  shows "clock w < clock w' \<and> clock w < deadline"
proof -
  obtain t1 w1 where n1: "the (monotonic_now_ns operations) w = (t1, w1)"
    by (cases "the (monotonic_now_ns operations) w")
  obtain r e re w2 where p: "the (poll_one operations) fd events
      (timeoutMilliseconds (deadline - t1)) w1 = (r, e, re, w2)"
    by (cases "the (poll_one operations) fd events (timeoutMilliseconds (deadline - t1)) w1")
  obtain t2 w3 where n2: "the (monotonic_now_ns operations) w2 = (t2, w3)"
    by (cases "the (monotonic_now_ns operations) w2")
  have "t1 < deadline \<and> w' = w3"
    using step n1 p n2 by (auto simp: waitForEventBody_def Let_def split: if_splits)
  then show ?thesis
    using clock_now [OF host n1] clock_poll [OF host p] clock_now [OF host n2] by simp
qed

lemma waitForEvent_terminates:
  assumes host: "clock_host clock operations"
  shows "\<exists>r. waitForEvent operations fd events deadline w = Some r"
  unfolding waitForEvent_def
proof (rule run_loop_terminates [where I = "\<lambda>_. True" and m = "\<lambda>w. nat (deadline - clock w)"])
  fix s s'
  assume "Some (waitForEventBody operations fd events deadline s) = Some (Continue s')"
  then show "True \<and> nat (deadline - clock s') < nat (deadline - clock s)"
    using waitForEventBody_clock [OF host, of fd events deadline s s'] by auto
qed simp_all

text \<open>
  A property of the world that reading the clock and polling keep is kept by a
  whole wait.
\<close>

lemma waitForEvent_keeps:
  assumes now: "\<And>w. J w \<Longrightarrow> J (snd (the (monotonic_now_ns operations) w))"
    and poll: "\<And>ms w. J w \<Longrightarrow> J (snd (snd (snd (the (poll_one operations) fd events ms w))))"
    and wait: "waitForEvent operations fd events deadline w = Some (r, w')" and "J w"
  shows "J w'"
proof -
  have body: "case waitForEventBody operations fd events deadline s of
        Continue s' \<Rightarrow> J s' | Return (r, s') \<Rightarrow> J s'" if "J s" for s
    using now poll that by (simp add: waitForEventBody_def Let_def split_def)
  have "J (snd (r, w'))"
    using wait [unfolded waitForEvent_def] \<open>J w\<close>
    by (rule run_loop_rule) (use body in fastforce)+
  then show ?thesis by simp
qed

section \<open>Writing\<close>

text \<open>
  \<open>keeps_write J\<close>: the relation \<open>J\<close> between the count of transferred bytes and
  the world is kept by reading the clock and by polling, and by a write of the
  rest of the buffer when the count moves by what that write took.
\<close>

definition keeps_write ::
    "(nat \<Rightarrow> 'w \<Rightarrow> bool) \<Rightarrow> 'w io_operations \<Rightarrow> int \<Rightarrow> u8 list \<Rightarrow> bool" where
  "keeps_write J operations fd bytes \<longleftrightarrow>
     (\<forall>k w. J k w \<longrightarrow> J k (snd (the (monotonic_now_ns operations) w)))
     \<and> (\<forall>k w ms. J k w \<longrightarrow> J k (snd (snd (snd (the (poll_one operations) fd POLLOUT ms w)))))
     \<and> (\<forall>k w r e w'. J k w \<longrightarrow> k < length bytes
          \<longrightarrow> the (write_bytes operations) fd (drop k bytes) w = (r, e, w')
          \<longrightarrow> nat r \<le> length bytes - k \<and> J (k + nat r) w')"

lemma writeBody_cases:
  assumes step: "writeBody operations fd bytes deadline (k, w) = Some st"
  obtains (past_end) t w1 where "\<not> k < length bytes"
      "the (monotonic_now_ns operations) w = (t, w1)"
      "st = Return (makeResult T_kIoError k EIO False True t, w1)"
  | (deadline) t w1 where "k < length bytes" "the (monotonic_now_ns operations) w = (t, w1)"
      "t \<ge> deadline"
      "st = Return (makeResult T_kDeadlineExceeded k ETIMEDOUT False (k \<noteq> 0) t, w1)"
  | (over) t w1 r e w2 where "k < length bytes" "the (monotonic_now_ns operations) w = (t, w1)"
      "t < deadline" "the (write_bytes operations) fd (drop k bytes) w1 = (r, e, w2)"
      "0 < r" "length bytes - k < nat r"
      "st = Return (makeResult T_kIoError k EIO False (k \<noteq> 0) t, w2)"
  | (took) t w1 r e w2 t3 w3 where "k < length bytes" "the (monotonic_now_ns operations) w = (t, w1)"
      "t < deadline" "the (write_bytes operations) fd (drop k bytes) w1 = (r, e, w2)"
      "0 < r" "nat r \<le> length bytes - k" "the (monotonic_now_ns operations) w2 = (t3, w3)"
      "st = (if k + nat r = length bytes
             then Return (makeResult (if t3 > deadline then T_kDeadlineExceeded else T_kOk) (k + nat r)
                    (if t3 > deadline then ETIMEDOUT else 0) True (t3 > deadline) t3, w3)
             else if t3 \<ge> deadline
             then Return (makeResult T_kDeadlineExceeded (k + nat r) ETIMEDOUT False True t3, w3)
             else Continue (k + nat r, w3))"
  | (refused) t w1 r e w2 t3 w3 status where "k < length bytes"
      "the (monotonic_now_ns operations) w = (t, w1)"
      "t < deadline" "the (write_bytes operations) fd (drop k bytes) w1 = (r, e, w2)"
      "r \<le> 0" "the (monotonic_now_ns operations) w2 = (t3, w3)"
      "status = T_kDisconnected \<or> status = T_kIoError"
      "st = Return (makeResult status k (if r = 0 then EPIPE else e) False
              (k \<noteq> 0 \<or> status = T_kDisconnected) t3, w3)"
  | (interrupted) t w1 r w2 where "k < length bytes"
      "the (monotonic_now_ns operations) w = (t, w1)"
      "t < deadline" "the (write_bytes operations) fd (drop k bytes) w1 = (r, EINTR, w2)"
      "r < 0" "st = Continue (k, w2)"
  | (waited) t w1 r e w2 wait w3 where "k < length bytes"
      "the (monotonic_now_ns operations) w = (t, w1)"
      "t < deadline" "the (write_bytes operations) fd (drop k bytes) w1 = (r, e, w2)"
      "r < 0" "e = EAGAIN \<or> e = EWOULDBLOCK"
      "waitForEvent operations fd POLLOUT deadline w2 = Some (wait, w3)"
      "st = (if ready wait then Continue (k, w3)
             else Return (makeResult (wait_status wait) k (wait_os_error wait) False
                    (k \<noteq> 0 \<or> wait_status wait = T_kDisconnected) (wait_completion wait), w3))"
proof -
  obtain t w1 where n1: "the (monotonic_now_ns operations) w = (t, w1)"
    by (cases "the (monotonic_now_ns operations) w")
  obtain r e w2 where wr: "the (write_bytes operations) fd (drop k bytes) w1 = (r, e, w2)"
    by (cases "the (write_bytes operations) fd (drop k bytes) w1")
  obtain t3 w3 where n2: "the (monotonic_now_ns operations) w2 = (t3, w3)"
    by (cases "the (monotonic_now_ns operations) w2")
  note body = step [unfolded writeBody_def Let_def, simplified n1 wr n2 prod.case]
  consider "\<not> k < length bytes" | "k < length bytes" "t \<ge> deadline"
    | "k < length bytes" "t < deadline" "0 < r" | "k < length bytes" "t < deadline" "r = 0"
    | "k < length bytes" "t < deadline" "r < 0" "e = EINTR"
    | "k < length bytes" "t < deadline" "r < 0" "e \<noteq> EINTR" "e = EAGAIN \<or> e = EWOULDBLOCK"
    | "k < length bytes" "t < deadline" "r < 0" "e \<noteq> EINTR" "\<not> (e = EAGAIN \<or> e = EWOULDBLOCK)"
    by linarith
  then show thesis
  proof cases
    case 1
    with body n1 show thesis by (intro past_end) auto
  next
    case 2
    with body n1 show thesis by (intro deadline) auto
  next
    case 3
    show thesis
    proof (cases "length bytes - k < nat r")
      case True
      with body n1 wr 3 show thesis by (intro over [of t w1 r e w2]) auto
    next
      case False
      consider "k + nat r = length bytes" | "k + nat r \<noteq> length bytes" "deadline \<le> t3"
        | "k + nat r \<noteq> length bytes" "\<not> deadline \<le> t3"
        by blast
      then show thesis
        by cases (rule took [of t w1 r e w2 t3 w3]; use body n1 wr n2 3 False in auto)+
    qed
  next
    case 4
    with body n1 wr n2 show thesis
      by (intro refused [of t w1 r e w2 t3 w3 T_kDisconnected]) auto
  next
    case 5
    with body n1 wr show thesis by (intro interrupted) auto
  next
    case 6
    with body n1 wr show thesis
      by (auto split: option.splits intro!: waited [of t w1 r e w2])
  next
    case 7
    with body n1 wr n2 show thesis
      by (intro refused [of t w1 r e w2 t3 w3 "if isDisconnectError e then T_kDisconnected else T_kIoError"])
        auto
  qed
qed

lemma writeBody_keeps:
  assumes keeps: "keeps_write J operations fd bytes" and "J k w"
    and step: "writeBody operations fd bytes deadline (k, w) = Some st"
  shows "case st of Continue (k', w') \<Rightarrow> J k' w' | Return (r, w') \<Rightarrow> J (bytes_transferred r) w'"
proof -
  have now: "J k' w2" if "the (monotonic_now_ns operations) w1 = (t, w2)" "J k' w1" for k' t w1 w2
    using keeps that by (metis keeps_write_def snd_conv)
  have wr: "nat r \<le> length bytes - k \<and> J (k + nat r) w2"
    if "J k w1" "k < length bytes" "the (write_bytes operations) fd (drop k bytes) w1 = (r, e, w2)"
    for w1 r e w2
    using keeps that unfolding keeps_write_def by blast
  have wait: "J k w3" if "waitForEvent operations fd POLLOUT deadline w2 = Some (wait, w3)" "J k w2"
    for w2 wait w3
    by (rule waitForEvent_keeps [OF _ _ that(1)]) (use keeps that in \<open>auto simp: keeps_write_def\<close>)
  show ?thesis
    using step
  proof (cases rule: writeBody_cases)
    case past_end
    then show ?thesis using now \<open>J k w\<close> by (auto simp: makeResult_def)
  next
    case deadline
    then show ?thesis using now \<open>J k w\<close> by (auto simp: makeResult_def)
  next
    case over
    then show ?thesis using now [OF over(2) \<open>J k w\<close>] wr [OF _ over(1,4)] by auto
  next
    case took
    then show ?thesis
      using now [OF took(2) \<open>J k w\<close>] wr [OF _ took(1,4)] now [OF took(7)]
      by (auto simp: makeResult_def)
  next
    case refused
    then show ?thesis
      using now [OF refused(2) \<open>J k w\<close>] wr [OF _ refused(1,4)] now [OF refused(6)]
      by (auto simp: makeResult_def)
  next
    case interrupted
    then show ?thesis
      using now [OF interrupted(2) \<open>J k w\<close>] wr [OF _ interrupted(1,4)] by auto
  next
    case waited
    then show ?thesis
      using now [OF waited(2) \<open>J k w\<close>] wr [OF _ waited(1,4)] wait [OF waited(7)]
      by (auto simp: makeResult_def)
  qed
qed


text \<open>What the result of a write reports, whatever the operating system did.\<close>

definition write_report :: "u8 list \<Rightarrow> int \<Rightarrow> io_result \<Rightarrow> bool" where
  "write_report bytes deadline r \<longleftrightarrow>
     bytes_transferred r \<le> length bytes
     \<and> io_status r \<notin> {T_kWriteDisabled, T_kInvalidArgument, T_kConfigurationError}
     \<and> (host_write_complete r \<longleftrightarrow> bytes_transferred r = length bytes)
     \<and> (io_status r = T_kOk \<longrightarrow> host_write_complete r \<and> \<not> outcome_uncertain r
          \<and> os_error r = 0 \<and> completion_monotonic_ns r \<le> deadline)
     \<and> (io_status r \<noteq> T_kOk \<longrightarrow>
          outcome_uncertain r = (bytes_transferred r \<noteq> 0 \<or> io_status r = T_kDisconnected))"

lemma writeBody_report:
  assumes "k < length bytes"
    and step: "writeBody operations fd bytes deadline (k, w) = Some st"
  shows "case st of Continue (k', w') \<Rightarrow> k \<le> k' \<and> k' < length bytes
                  | Return (r, w') \<Rightarrow> write_report bytes deadline r"
  using step
proof (cases rule: writeBody_cases)
  case waited
  then show ?thesis
    using waitForEvent_result [OF waited(7)] by (auto simp: write_report_def makeResult_def ready_def)
qed (use assms(1) in \<open>auto simp: write_report_def makeResult_def\<close>)

lemma writeAll_loop:
  "\<lbrakk>0 \<le> fd; writeOperationsAreComplete operations; data \<noteq> []\<rbrakk> \<Longrightarrow>
     writeAllWithOperations fd (Some data) (length data) deadline operations w
       = run_loop (writeBody operations fd data deadline) (0, w)"
  by (simp add: writeAllWithOperations_def)

lemma write_loop_report:
  assumes "run_loop (writeBody operations fd bytes deadline) (0, w) = Some (r, w')" and "bytes \<noteq> []"
  shows "write_report bytes deadline r"
proof -
  have "write_report bytes deadline (fst (r, w'))"
    using assms(1)
  proof (rule run_loop_rule [where I = "\<lambda>(k, w). k < length bytes"])
    show "case (0, w) of (k, w) \<Rightarrow> k < length bytes"
      using assms(2) by simp
  next
    fix s s'
    assume "case s of (k, w) \<Rightarrow> k < length bytes"
      and "writeBody operations fd bytes deadline s = Some (Continue s')"
    then show "case s' of (k, w) \<Rightarrow> k < length bytes"
      using writeBody_report [of "fst s" bytes operations fd deadline "snd s" "Continue s'"]
      by (simp add: split_def)
  next
    fix s r
    assume "case s of (k, w) \<Rightarrow> k < length bytes"
      and "writeBody operations fd bytes deadline s = Some (Return r)"
    then show "write_report bytes deadline (fst r)"
      using writeBody_report [of "fst s" bytes operations fd deadline "snd s" "Return r"]
      by (simp add: split_def)
  qed
  then show ?thesis by simp
qed

lemma write_loop_keeps:
  assumes keeps: "keeps_write J operations fd bytes" and "J 0 w"
    and loop: "run_loop (writeBody operations fd bytes deadline) (0, w) = Some (r, w')"
  shows "J (bytes_transferred r) w'"
proof -
  have "(\<lambda>(r, w'). J (bytes_transferred r) w') (r, w')"
    using loop
  proof (rule run_loop_rule [where I = "\<lambda>(k, w). J k w"])
    show "case (0, w) of (k, w) \<Rightarrow> J k w"
      using \<open>J 0 w\<close> by simp
  next
    fix s s'
    assume "case s of (k, w) \<Rightarrow> J k w"
      and "writeBody operations fd bytes deadline s = Some (Continue s')"
    then show "case s' of (k, w) \<Rightarrow> J k w"
      using writeBody_keeps [OF keeps, of "fst s" "snd s" deadline "Continue s'"]
      by (simp add: split_def)
  next
    fix s r
    assume "case s of (k, w) \<Rightarrow> J k w"
      and "writeBody operations fd bytes deadline s = Some (Return r)"
    then show "case r of (r, w') \<Rightarrow> J (bytes_transferred r) w'"
      using writeBody_keeps [OF keeps, of "fst s" "snd s" deadline "Return r"]
      by (simp add: split_def)
  qed
  then show ?thesis by simp
qed

lemma waitForEvent_clock:
  assumes host: "clock_host clock operations"
    and wait: "waitForEvent operations fd events deadline w = Some (r, w')"
  shows "clock w \<le> clock w'"
  by (rule waitForEvent_keeps [OF _ _ wait])
    (use host in \<open>auto simp: clock_host_def intro: order_trans less_imp_le dest!: spec\<close>)

lemma writeBody_clock:
  assumes host: "clock_host clock operations"
    and step: "writeBody operations fd bytes deadline (k, w) = Some (Continue (k', w'))"
  shows "clock w < clock w' \<and> clock w < deadline"
  using step
proof (cases rule: writeBody_cases)
  case took
  then show ?thesis
    using clock_now [OF host took(2)] clock_write [OF host took(4)] clock_now [OF host took(7)]
    by (auto split: if_splits)
next
  case interrupted
  then show ?thesis
    using clock_now [OF host interrupted(2)] clock_write [OF host interrupted(4)] by auto
next
  case waited
  have "clock w2 \<le> clock w3" if "waitForEvent operations fd POLLOUT deadline w2 = Some (wait, w3)"
    for w2 wait w3
    using waitForEvent_clock [OF host that] .
  then show ?thesis
    using clock_now [OF host waited(2)] clock_write [OF host waited(4)] waited
    by (fastforce split: if_splits)
qed auto

lemma writeBody_returns:
  assumes host: "clock_host clock operations"
  shows "writeBody operations fd bytes deadline (k, w) \<noteq> None"
proof -
  obtain t w1 where n1: "the (monotonic_now_ns operations) w = (t, w1)"
    by (cases "the (monotonic_now_ns operations) w")
  obtain r e w2 where wr: "the (write_bytes operations) fd (drop k bytes) w1 = (r, e, w2)"
    by (cases "the (write_bytes operations) fd (drop k bytes) w1")
  obtain wait w3 where wt: "waitForEvent operations fd POLLOUT deadline w2 = Some (wait, w3)"
    using waitForEvent_terminates [OF host] by (metis surj_pair)
  show ?thesis
    by (simp add: writeBody_def Let_def n1 wr wt) (simp add: split_def Let_def)
qed

lemma write_loop_terminates:
  assumes host: "clock_host clock operations"
  shows "\<exists>r. run_loop (writeBody operations fd bytes deadline) s = Some r"
proof (rule run_loop_terminates [where I = "\<lambda>_. True" and m = "\<lambda>(k, w). nat (deadline - clock w)"])
  fix s s'
  assume "writeBody operations fd bytes deadline s = Some (Continue s')"
  then show "True \<and> (case s' of (k, w) \<Rightarrow> nat (deadline - clock w)) < (case s of (k, w) \<Rightarrow> nat (deadline - clock w))"
    using writeBody_clock [OF host, of fd bytes deadline "fst s" "snd s" "fst s'" "snd s'"]
    by (auto simp: split_def)
next
  fix s
  show "writeBody operations fd bytes deadline s \<noteq> None"
    using writeBody_returns [OF host, of fd bytes deadline "fst s" "snd s"] by simp
qed simp


section \<open>Reading\<close>

lemma readBody_cases:
  assumes step: "readBody operations fd capacity deadline w = Some st"
  obtains (deadline) t w1 where "the (monotonic_now_ns operations) w = (t, w1)" "t \<ge> deadline"
      "st = Return (makeResult T_kDeadlineExceeded 0 ETIMEDOUT False False t, [], w1)"
  | (over) t w1 r e stored w2 t3 w3 where "the (monotonic_now_ns operations) w = (t, w1)"
      "t < deadline" "the (read_bytes operations) fd capacity w1 = (r, e, stored, w2)"
      "0 < r" "capacity < nat r" "the (monotonic_now_ns operations) w2 = (t3, w3)"
      "st = Return (makeResult T_kIoError 0 EIO False False t3, stored, w3)"
  | (took) t w1 r e stored w2 t3 w3 where "the (monotonic_now_ns operations) w = (t, w1)"
      "t < deadline" "the (read_bytes operations) fd capacity w1 = (r, e, stored, w2)"
      "0 < r" "nat r \<le> capacity" "the (monotonic_now_ns operations) w2 = (t3, w3)"
      "st = Return (makeResult (if t3 > deadline then T_kDeadlineExceeded else T_kOk) (nat r)
              (if t3 > deadline then ETIMEDOUT else 0) False False t3, stored, w3)"
  | (refused) t w1 r e stored w2 t3 w3 status where "the (monotonic_now_ns operations) w = (t, w1)"
      "t < deadline" "the (read_bytes operations) fd capacity w1 = (r, e, stored, w2)"
      "r < 0" "the (monotonic_now_ns operations) w2 = (t3, w3)"
      "status = T_kDisconnected \<or> status = T_kIoError"
      "st = Return (makeResult status 0 e False False t3, stored, w3)"
  | (interrupted) t w1 r stored w2 where "the (monotonic_now_ns operations) w = (t, w1)"
      "t < deadline" "the (read_bytes operations) fd capacity w1 = (r, EINTR, stored, w2)"
      "r < 0" "st = Continue w2"
  | (waited) t w1 r e stored w2 wait w3 where "the (monotonic_now_ns operations) w = (t, w1)"
      "t < deadline" "the (read_bytes operations) fd capacity w1 = (r, e, stored, w2)"
      "r \<le> 0" "waitForEvent operations fd POLLIN deadline w2 = Some (wait, w3)"
      "st = (if ready wait then Continue w3
             else Return (makeResult (wait_status wait) 0 (wait_os_error wait) False False
                    (wait_completion wait), stored, w3))"
proof -
  obtain t w1 where n1: "the (monotonic_now_ns operations) w = (t, w1)"
    by (cases "the (monotonic_now_ns operations) w")
  obtain r e stored w2 where rd: "the (read_bytes operations) fd capacity w1 = (r, e, stored, w2)"
    by (cases "the (read_bytes operations) fd capacity w1")
  obtain t3 w3 where n2: "the (monotonic_now_ns operations) w2 = (t3, w3)"
    by (cases "the (monotonic_now_ns operations) w2")
  note body = step [unfolded readBody_def Let_def, simplified n1 rd n2 prod.case]
  consider "t \<ge> deadline" | "t < deadline" "0 < r" "capacity < nat r"
    | "t < deadline" "0 < r" "nat r \<le> capacity"
    | "t < deadline" "r < 0" "e = EINTR"
    | "t < deadline" "r \<le> 0" "r = 0 \<or> e \<noteq> EINTR \<and> (e = EAGAIN \<or> e = EWOULDBLOCK)"
    | "t < deadline" "r < 0" "e \<noteq> EINTR" "\<not> (e = EAGAIN \<or> e = EWOULDBLOCK)"
    by linarith
  then show thesis
  proof cases
    case 1
    with body n1 show thesis by (intro deadline) auto
  next
    case 2
    with body n1 rd n2 show thesis by (intro over [of t w1 r e stored w2 t3 w3]) auto
  next
    case 3
    with body n1 rd n2 show thesis
      by (intro took [of t w1 r e stored w2 t3 w3]) auto
  next
    case 4
    with body n1 rd show thesis
      by (intro interrupted [of t w1 r stored w2]) auto
  next
    case 5
    have "EAGAIN \<noteq> EINTR" "EWOULDBLOCK \<noteq> EINTR"
      by (simp_all add: errno_defs)
    with 5 body have wait: "(case waitForEvent operations fd POLLIN deadline w2 of None \<Rightarrow> None
          | Some (wait, w) \<Rightarrow> if ready wait then Some (Continue w)
              else Some (Return (makeResult (wait_status wait) 0 (wait_os_error wait) False False
                     (wait_completion wait), stored, w))) = Some st"
      by (auto split: if_splits)
    then obtain wt w3 where "waitForEvent operations fd POLLIN deadline w2 = Some (wt, w3)"
      by (cases "waitForEvent operations fd POLLIN deadline w2") auto
    with wait 5 n1 rd show thesis
      by (intro waited [of t w1 r e stored w2 wt w3]) auto
  next
    case 6
    with body n1 rd n2 show thesis
      by (intro refused [of t w1 r e stored w2 t3 w3
            "if isDisconnectError e then T_kDisconnected else T_kIoError"]) auto
  qed
qed

text \<open>What the result of a read reports.\<close>

definition read_report :: "nat \<Rightarrow> int \<Rightarrow> io_result \<Rightarrow> bool" where
  "read_report capacity deadline r \<longleftrightarrow>
     bytes_transferred r \<le> capacity
     \<and> \<not> host_write_complete r \<and> \<not> outcome_uncertain r
     \<and> (io_status r = T_kOk \<longrightarrow> 0 < bytes_transferred r \<and> os_error r = 0
          \<and> completion_monotonic_ns r \<le> deadline)
     \<and> (0 < bytes_transferred r \<longrightarrow> io_status r = T_kOk
          \<or> io_status r = T_kDeadlineExceeded \<and> deadline < completion_monotonic_ns r)"

lemma readBody_report:
  assumes step: "readBody operations fd capacity deadline w = Some (Return (r, stored, w'))"
  shows "read_report capacity deadline r"
  using step
proof (cases rule: readBody_cases)
  case waited
  then show ?thesis
    using waitForEvent_result [OF waited(5)]
    by (auto simp: read_report_def makeResult_def ready_def split: if_splits)
qed (auto simp: read_report_def makeResult_def)

lemma readBody_clock:
  assumes host: "clock_host clock operations"
    and step: "readBody operations fd capacity deadline w = Some (Continue w')"
  shows "clock w < clock w' \<and> clock w < deadline"
  using step
proof (cases rule: readBody_cases)
  case interrupted
  then show ?thesis
    using clock_now [OF host interrupted(1)] clock_read [OF host interrupted(3)] by auto
next
  case waited
  then show ?thesis
    using clock_now [OF host waited(1)] clock_read [OF host waited(3)]
      waitForEvent_clock [OF host waited(5)]
    by (auto split: if_splits)
qed auto

lemma readBody_returns:
  assumes host: "clock_host clock operations"
  shows "readBody operations fd capacity deadline w \<noteq> None"
proof -
  obtain t w1 where n1: "the (monotonic_now_ns operations) w = (t, w1)"
    by (cases "the (monotonic_now_ns operations) w")
  obtain r e stored w2 where rd: "the (read_bytes operations) fd capacity w1 = (r, e, stored, w2)"
    by (cases "the (read_bytes operations) fd capacity w1")
  obtain wait w3 where wt: "waitForEvent operations fd POLLIN deadline w2 = Some (wait, w3)"
    using waitForEvent_terminates [OF host] by (metis surj_pair)
  show ?thesis
    by (simp add: readBody_def Let_def n1 rd wt) (simp add: split_def Let_def)
qed

lemma read_loop_terminates:
  assumes host: "clock_host clock operations"
  shows "\<exists>r. run_loop (readBody operations fd capacity deadline) w = Some r"
proof (rule run_loop_terminates [where I = "\<lambda>_. True" and m = "\<lambda>w. nat (deadline - clock w)"])
  fix s s'
  assume "readBody operations fd capacity deadline s = Some (Continue s')"
  then show "True \<and> nat (deadline - clock s') < nat (deadline - clock s)"
    using readBody_clock [OF host, of fd capacity deadline s s'] by auto
next
  fix s
  show "readBody operations fd capacity deadline s \<noteq> None"
    by (rule readBody_returns [OF host])
qed simp

text \<open>
  What is relied on of \<open>read(2)\<close>: \<open>incoming w\<close> are the bytes the port has still to
  deliver; a read that reports \<open>r\<close> bytes stores the next \<open>r\<close> of them, and nothing
  else takes bytes away.
\<close>

definition source_host :: "('w \<Rightarrow> u8 list) \<Rightarrow> 'w io_operations \<Rightarrow> bool" where
  "source_host incoming operations \<longleftrightarrow>
     (\<forall>w. incoming (snd (the (monotonic_now_ns operations) w)) = incoming w)
     \<and> (\<forall>fd ev ms w. incoming (snd (snd (snd (the (poll_one operations) fd ev ms w)))) = incoming w)
     \<and> (\<forall>fd n w r e stored w'. the (read_bytes operations) fd n w = (r, e, stored, w') \<longrightarrow>
          r \<le> int n \<and> take (nat r) stored @ incoming w' = incoming w)"

lemma source_now:
  "\<lbrakk>source_host incoming operations; the (monotonic_now_ns operations) w = (t, w')\<rbrakk> \<Longrightarrow>
     incoming w' = incoming w"
  unfolding source_host_def by (metis snd_conv)

lemma source_read:
  "\<lbrakk>source_host incoming operations; the (read_bytes operations) fd n w = (r, e, stored, w')\<rbrakk> \<Longrightarrow>
     r \<le> int n \<and> take (nat r) stored @ incoming w' = incoming w"
  unfolding source_host_def by blast

lemma source_wait:
  assumes host: "source_host incoming operations"
    and "waitForEvent operations fd events deadline w = Some (r, w')"
  shows "incoming w' = incoming w"
  by (rule waitForEvent_keeps [OF _ _ assms(2)])
    (use host in \<open>auto simp: source_host_def\<close>)

lemma readBody_source:
  assumes host: "source_host incoming operations"
    and step: "readBody operations fd capacity deadline w = Some st"
  shows "case st of Continue w' \<Rightarrow> incoming w' = incoming w
           | Return (r, stored, w') \<Rightarrow>
               take (bytes_transferred r) stored @ incoming w' = incoming w"
  using step
proof (cases rule: readBody_cases)
  case deadline
  then show ?thesis using source_now [OF host deadline(1)] by (simp add: makeResult_def)
next
  case over
  then show ?thesis using source_read [OF host over(3)] by linarith
next
  case took
  then show ?thesis
    using source_now [OF host took(1)] source_read [OF host took(3)] source_now [OF host took(6)]
    by (simp add: makeResult_def)
next
  case refused
  then show ?thesis
    using source_now [OF host refused(1)] source_read [OF host refused(3)]
      source_now [OF host refused(5)]
    by (simp add: makeResult_def)
next
  case interrupted
  then show ?thesis
    using source_now [OF host interrupted(1)] source_read [OF host interrupted(3)] by simp
next
  case waited
  then show ?thesis
    using source_now [OF host waited(1)] source_read [OF host waited(3)]
      source_wait [OF host waited(5)]
    by (simp add: makeResult_def)
qed

lemma read_loop_source:
  assumes host: "source_host incoming operations"
    and loop: "run_loop (readBody operations fd capacity deadline) w = Some (r, stored, w')"
  shows "take (bytes_transferred r) stored @ incoming w' = incoming w"
proof -
  have "(\<lambda>(r, stored, w'). take (bytes_transferred r) stored @ incoming w' = incoming w)
          (r, stored, w')"
    using loop
    by (rule run_loop_rule [where I = "\<lambda>s. incoming s = incoming w"])
      (use readBody_source [OF host] in fastforce)+
  then show ?thesis by simp
qed

lemma read_loop_report:
  assumes loop: "run_loop (readBody operations fd capacity deadline) w = Some (r, stored, w')"
  shows "read_report capacity deadline r"
proof -
  have "(\<lambda>(r, stored, w'). read_report capacity deadline r) (r, stored, w')"
    using loop
    by (rule run_loop_rule [where I = "\<lambda>_. True"]) (use readBody_report in auto)
  then show ?thesis by simp
qed

end
