(* ===== verification/Posix_Transport.thy ===== *)
theory Posix_Transport
  imports Posix_Io "HOL-Library.Monad_Syntax"
begin

text \<open>
  The POSIX serial transport of \<open>src/transport.cpp\<close>: opening, configuring, closing
  and the \<open>ITransport\<close> operations of \<open>PosixSerialTransport\<close>.  The system calls are
  a parameter, a record over a world \<open>'w\<close>; the second component of the state
  \<open>int \<times> 'w\<close> they work on is the world, the first is \<open>errno\<close>.  The termios
  functions of the C library are part of that record.  The constants are those of
  the Linux headers.
\<close>

section \<open>The system interface\<close>

record termios =
  c_iflag :: u32
  c_oflag :: u32
  c_cflag :: u32
  c_lflag :: u32
  c_cc :: "nat \<Rightarrow> u8"

definition VTIME :: nat where "VTIME = 5"
definition VMIN :: nat where "VMIN = 6"
definition CSIZE :: u32 where "CSIZE = 0x30"
definition CS8 :: u32 where "CS8 = 0x30"
definition CSTOPB :: u32 where "CSTOPB = 0x40"
definition CREAD :: u32 where "CREAD = 0x80"
definition PARENB :: u32 where "PARENB = 0x100"
definition CLOCAL :: u32 where "CLOCAL = 0x800"
definition CRTSCTS :: u32 where "CRTSCTS = 0x80000000"
definition IXON :: u32 where "IXON = 0x400"
definition IXANY :: u32 where "IXANY = 0x800"
definition IXOFF :: u32 where "IXOFF = 0x1000"
definition B115200 :: u32 where "B115200 = 0x1002"

lemmas termios_defs = VTIME_def VMIN_def CSIZE_def CS8_def CSTOPB_def CREAD_def PARENB_def CLOCAL_def
  CRTSCTS_def IXON_def IXANY_def IXOFF_def

definition O_RDONLY :: int where "O_RDONLY = 0"
definition O_RDWR :: int where "O_RDWR = 2"
definition O_NOCTTY :: int where "O_NOCTTY = 0x100"
definition O_NONBLOCK :: int where "O_NONBLOCK = 0x800"
definition O_NOFOLLOW :: int where "O_NOFOLLOW = 0x20000"
definition O_CLOEXEC :: int where "O_CLOEXEC = 0x80000"
definition F_GETFD :: int where "F_GETFD = 1"
definition F_GETFL :: int where "F_GETFL = 3"
definition FD_CLOEXEC :: int where "FD_CLOEXEC = 1"
definition TIOCEXCL :: int where "TIOCEXCL = 0x540C"
definition TIOCNXCL :: int where "TIOCNXCL = 0x540D"
definition TCSANOW :: int where "TCSANOW = 0"

definition S_ISCHR :: "u32 \<Rightarrow> bool" where
  "S_ISCHR mode \<longleftrightarrow> mode AND 0xF000 = 0x2000"

record 'w system_calls =
  sys_open :: "string \<Rightarrow> int \<Rightarrow> int \<times> 'w \<Rightarrow> int \<times> (int \<times> 'w)"
  sys_fstat :: "int \<Rightarrow> int \<times> 'w \<Rightarrow> (int \<times> u32) \<times> (int \<times> 'w)"
  sys_isatty :: "int \<Rightarrow> int \<times> 'w \<Rightarrow> int \<times> (int \<times> 'w)"
  sys_ioctl :: "int \<Rightarrow> int \<Rightarrow> int \<times> 'w \<Rightarrow> int \<times> (int \<times> 'w)"
  sys_fcntl :: "int \<Rightarrow> int \<Rightarrow> int \<times> 'w \<Rightarrow> int \<times> (int \<times> 'w)"
  sys_close :: "int \<Rightarrow> int \<times> 'w \<Rightarrow> int \<times> (int \<times> 'w)"
  sys_tcgetattr :: "int \<Rightarrow> int \<times> 'w \<Rightarrow> (int \<times> termios) \<times> (int \<times> 'w)"
  sys_tcsetattr :: "int \<Rightarrow> int \<Rightarrow> termios \<Rightarrow> int \<times> 'w \<Rightarrow> int \<times> (int \<times> 'w)"
  sys_cfmakeraw :: "termios \<Rightarrow> termios"
  sys_cfsetispeed :: "termios \<Rightarrow> u32 \<Rightarrow> int \<times> 'w \<Rightarrow> (int \<times> termios) \<times> (int \<times> 'w)"
  sys_cfsetospeed :: "termios \<Rightarrow> u32 \<Rightarrow> int \<times> 'w \<Rightarrow> (int \<times> termios) \<times> (int \<times> 'w)"
  sys_cfgetispeed :: "termios \<Rightarrow> u32"
  sys_cfgetospeed :: "termios \<Rightarrow> u32"
  sys_clock_gettime :: "'w \<Rightarrow> (int \<times> int \<times> int) \<times> 'w"
  sys_write :: "int \<Rightarrow> u8 list \<Rightarrow> 'w \<Rightarrow> int \<times> int \<times> 'w"
  sys_read :: "int \<Rightarrow> nat \<Rightarrow> 'w \<Rightarrow> int \<times> int \<times> u8 list \<times> 'w"
  sys_poll :: "int \<Rightarrow> u16 \<Rightarrow> int \<Rightarrow> 'w \<Rightarrow> int \<times> int \<times> u16 \<times> 'w"

section \<open>The system clock and the system's I/O operations\<close>

definition monotonicNowNs :: "'w system_calls \<Rightarrow> 'w \<Rightarrow> int \<times> 'w" where
  "monotonicNowNs sys w =
     (let ((status, tv_sec, tv_nsec), w) = sys_clock_gettime sys w
      in (if status \<noteq> 0 then 0 else tv_sec * 1000000000 + tv_nsec, w))"

definition systemIoOperations :: "'w system_calls \<Rightarrow> 'w io_operations" where
  "systemIoOperations sys =
     \<lparr>monotonic_now_ns = Some (monotonicNowNs sys),
      write_bytes = Some (\<lambda>fd data w. sys_write sys fd data w),
      read_bytes = Some (\<lambda>fd n w. sys_read sys fd n w),
      poll_one = Some (\<lambda>fd events timeout_ms w. sys_poll sys fd events timeout_ms w)\<rparr>"

section \<open>Configuring the port\<close>

text \<open>
  The \<open>do ... while (result < 0 && errno == EINTR)\<close> loops: \<open>code\<close> reads the
  status out of what the call returns.
\<close>

definition retryInterrupted ::
    "('r \<Rightarrow> int) \<Rightarrow> (int \<times> 'w \<Rightarrow> 'r \<times> (int \<times> 'w)) \<Rightarrow> int \<times> 'w \<Rightarrow> ('r \<times> (int \<times> 'w)) option" where
  "retryInterrupted code call =
     run_loop (\<lambda>h. let (result, h) = call h
                   in Some (if code result < 0 \<and> fst h = EINTR then Continue h
                            else Return (result, h)))"

definition getFileStatusWithoutInterruption ::
    "'w system_calls \<Rightarrow> int \<Rightarrow> int \<times> 'w \<Rightarrow> ((int \<times> u32) \<times> (int \<times> 'w)) option" where
  "getFileStatusWithoutInterruption sys fd = retryInterrupted fst (sys_fstat sys fd)"

definition getTermiosWithoutInterruption ::
    "'w system_calls \<Rightarrow> int \<Rightarrow> int \<times> 'w \<Rightarrow> ((int \<times> termios) \<times> (int \<times> 'w)) option" where
  "getTermiosWithoutInterruption sys fd = retryInterrupted fst (sys_tcgetattr sys fd)"

definition setTermiosWithoutInterruption ::
    "'w system_calls \<Rightarrow> int \<Rightarrow> termios \<Rightarrow> int \<times> 'w \<Rightarrow> (int \<times> (int \<times> 'w)) option" where
  "setTermiosWithoutInterruption sys fd settings =
     retryInterrupted id (sys_tcsetattr sys fd TCSANOW settings)"

definition serialSettingsMatch :: "'w system_calls \<Rightarrow> termios \<Rightarrow> bool" where
  "serialSettingsMatch sys settings \<longleftrightarrow>
     sys_cfgetispeed sys settings = B115200
     \<and> sys_cfgetospeed sys settings = B115200
     \<and> c_cflag settings AND CSIZE = CS8
     \<and> c_cflag settings AND (PARENB OR CSTOPB) = 0
     \<and> c_cflag settings AND (CLOCAL OR CREAD) = CLOCAL OR CREAD
     \<and> c_cflag settings AND CRTSCTS = 0
     \<and> c_iflag settings AND (IXON OR IXOFF OR IXANY) = 0
     \<and> c_cc settings VMIN = 0 \<and> c_cc settings VTIME = 0"

text \<open>The mode bits \<open>configureSerialPort\<close> sets between the speed and \<open>tcsetattr\<close>.\<close>

definition withSerialMode :: "termios \<Rightarrow> termios" where
  "withSerialMode settings =
     (let settings = settings\<lparr>c_cflag := c_cflag settings AND NOT (CSIZE OR PARENB OR CSTOPB)\<rparr>;
          settings = settings\<lparr>c_cflag := c_cflag settings OR (CS8 OR CLOCAL OR CREAD)\<rparr>;
          settings = settings\<lparr>c_cflag := c_cflag settings AND NOT CRTSCTS\<rparr>;
          settings = settings\<lparr>c_iflag := c_iflag settings AND NOT (IXON OR IXOFF OR IXANY)\<rparr>
      in settings\<lparr>c_cc := (c_cc settings)(VMIN := 0, VTIME := 0)\<rparr>)"

definition configureSerialPort ::
    "'w system_calls \<Rightarrow> int \<Rightarrow> int \<times> 'w \<Rightarrow> (bool \<times> (int \<times> 'w)) option" where
  "configureSerialPort sys fd h =
     do {
       ((status, settings), h) \<leftarrow> getTermiosWithoutInterruption sys fd h;
       if status \<noteq> 0 then Some (False, h)
       else do {
         let settings = sys_cfmakeraw sys settings;
         let ((ispeed_status, settings), h) = sys_cfsetispeed sys settings B115200 h;
         if ispeed_status \<noteq> 0 then Some (False, h)
         else do {
           let ((ospeed_status, settings), h) = sys_cfsetospeed sys settings B115200 h;
           if ospeed_status \<noteq> 0 then Some (False, h)
           else do {
             (status, h) \<leftarrow> setTermiosWithoutInterruption sys fd (withSerialMode settings) h;
             if status \<noteq> 0 then Some (False, h)
             else do {
               ((status, observed), h) \<leftarrow> getTermiosWithoutInterruption sys fd h;
               if status \<noteq> 0 then Some (False, h)
               else if \<not> serialSettingsMatch sys observed then Some (False, (EIO, snd h))
               else Some (True, h)
             }
           }
         }
       }
     }"

definition explicitDevicePathIsValid :: "string \<Rightarrow> bool" where
  "explicitDevicePathIsValid path \<longleftrightarrow>
     path \<noteq> [] \<and> hd path = CHR ''/'' \<and> last path \<noteq> CHR ''/'' \<and> CHR 0x00 \<notin> set path"

definition releaseExclusiveAndClose ::
    "'w system_calls \<Rightarrow> int \<Rightarrow> int \<times> 'w \<Rightarrow> (int \<times> 'w) option" where
  "releaseExclusiveAndClose sys fd h =
     (if fd < 0 then Some h
      else do {
        (status, h) \<leftarrow> retryInterrupted id (sys_ioctl sys fd TIOCNXCL) h;
        Some (snd (sys_close sys fd h))
      })"

section \<open>The transport\<close>

record serial_open_result =
  so_status :: transport_status
  so_os_error :: int
  so_generation :: u64

datatype serial_access = A_kReadOnly | A_kReadWrite | A_other u8

record 'w posix_transport =
  device_path :: string
  pt_access :: serial_access
  pt_operations :: "'w io_operations"
  pt_fd :: int
  pt_connected :: bool
  pt_generation :: u64

definition newPosixSerialTransport ::
    "string \<Rightarrow> serial_access \<Rightarrow> 'w io_operations \<Rightarrow> 'w posix_transport" where
  "newPosixSerialTransport path access operations =
     \<lparr>device_path = path, pt_access = access, pt_operations = operations,
      pt_fd = -1, pt_connected = False, pt_generation = 0\<rparr>"

definition newSystemSerialTransport ::
    "'w system_calls \<Rightarrow> string \<Rightarrow> serial_access \<Rightarrow> 'w posix_transport" where
  "newSystemSerialTransport sys path access =
     newPosixSerialTransport path access (systemIoOperations sys)"

abbreviation opened :: "transport_status \<Rightarrow> int \<Rightarrow> u64 \<Rightarrow> serial_open_result" where
  "opened st err gen \<equiv> \<lparr>so_status = st, so_os_error = err, so_generation = gen\<rparr>"

definition closeTransport ::
    "'w system_calls \<Rightarrow> 'w posix_transport \<Rightarrow> int \<times> 'w \<Rightarrow> ('w posix_transport \<times> (int \<times> 'w)) option" where
  "closeTransport sys t h =
     (let t = t\<lparr>pt_connected := False\<rparr>
      in if pt_fd t \<ge> 0
         then do {
           h \<leftarrow> releaseExclusiveAndClose sys (pt_fd t) h;
           Some (t\<lparr>pt_fd := -1\<rparr>, h)
         }
         else Some (t, h))"

definition markDisconnected ::
    "'w system_calls \<Rightarrow> 'w posix_transport \<Rightarrow> int \<times> 'w \<Rightarrow> ('w posix_transport \<times> (int \<times> 'w)) option" where
  "markDisconnected sys t h = closeTransport sys t h"

text \<open>
  \<open>openNewGeneration\<close>, in three parts: the last one runs once the descriptor is
  held exclusively, the one before it once a descriptor is open.
\<close>

definition or_errno :: "int \<Rightarrow> int \<times> 'w \<Rightarrow> int" where
  "or_errno fallback h = (if fst h = 0 then fallback else fst h)"

definition openFailed ::
    "'w posix_transport \<Rightarrow> transport_status \<Rightarrow> int \<Rightarrow> int \<times> 'w
       \<Rightarrow> (serial_open_result \<times> 'w posix_transport \<times> (int \<times> 'w)) option" where
  "openFailed t status err h = Some (opened status err (pt_generation t), t, h)"

definition openExclusive ::
    "'w system_calls \<Rightarrow> 'w posix_transport \<Rightarrow> int \<Rightarrow> int \<times> 'w
       \<Rightarrow> (serial_open_result \<times> 'w posix_transport \<times> (int \<times> 'w)) option" where
  "openExclusive sys t opened_fd h =
     do {
       (file_flags, h) \<leftarrow> retryInterrupted id (sys_fcntl sys opened_fd F_GETFL) h;
       (descriptor_flags, h) \<leftarrow> retryInterrupted id (sys_fcntl sys opened_fd F_GETFD) h;
       if file_flags < 0 \<or> descriptor_flags < 0
       then do {
         let configuration_error = or_errno EIO h;
         h \<leftarrow> releaseExclusiveAndClose sys opened_fd h;
         openFailed t T_kConfigurationError configuration_error h
       }
       else if file_flags AND O_NONBLOCK = 0 \<or> descriptor_flags AND FD_CLOEXEC = 0
       then do {
         h \<leftarrow> releaseExclusiveAndClose sys opened_fd h;
         openFailed t T_kConfigurationError EIO h
       }
       else do {
         (configured, h) \<leftarrow> configureSerialPort sys opened_fd h;
         if \<not> configured
         then do {
           let configuration_error = or_errno EIO h;
           h \<leftarrow> releaseExclusiveAndClose sys opened_fd h;
           openFailed t T_kConfigurationError configuration_error h
         }
         else (let t = t\<lparr>pt_fd := opened_fd, pt_connected := True,
                         pt_generation := pt_generation t + 1\<rparr>
               in Some (opened T_kOk 0 (pt_generation t), t, h))
       }
     }"

definition openDescriptor ::
    "'w system_calls \<Rightarrow> 'w posix_transport \<Rightarrow> int \<Rightarrow> int \<times> 'w
       \<Rightarrow> (serial_open_result \<times> 'w posix_transport \<times> (int \<times> 'w)) option" where
  "openDescriptor sys t opened_fd h =
     do {
       ((stat_status, st_mode), h) \<leftarrow> getFileStatusWithoutInterruption sys opened_fd h;
       if stat_status \<noteq> 0
       then openFailed t T_kConfigurationError (or_errno EIO h) (snd (sys_close sys opened_fd h))
       else if \<not> S_ISCHR st_mode
       then openFailed t T_kConfigurationError ENOTTY (snd (sys_close sys opened_fd h))
       else do {
         let (tty, h) = sys_isatty sys opened_fd (0, snd h);
         if tty \<noteq> 1
         then openFailed t T_kConfigurationError (or_errno ENOTTY h) (snd (sys_close sys opened_fd h))
         else do {
           (exclusive_status, h) \<leftarrow> retryInterrupted id (sys_ioctl sys opened_fd TIOCEXCL) h;
           if exclusive_status \<noteq> 0
           then openFailed t T_kConfigurationError (or_errno EBUSY h) (snd (sys_close sys opened_fd h))
           else openExclusive sys t opened_fd h
         }
       }
     }"

definition openNewGeneration ::
    "'w system_calls \<Rightarrow> 'w posix_transport \<Rightarrow> int \<times> 'w
       \<Rightarrow> (serial_open_result \<times> 'w posix_transport \<times> (int \<times> 'w)) option" where
  "openNewGeneration sys t h =
     (if \<not> explicitDevicePathIsValid (device_path t) then openFailed t T_kInvalidArgument EINVAL h
      else if pt_generation t = uint64_max then openFailed t T_kConfigurationError EOVERFLOW h
      else if pt_access t \<noteq> A_kReadOnly \<and> pt_access t \<noteq> A_kReadWrite
      then openFailed t T_kInvalidArgument EINVAL h
      else do {
        let requested_access = (if pt_access t = A_kReadOnly then O_RDONLY else O_RDWR);
        (opened_fd, h) \<leftarrow> retryInterrupted id
           (sys_open sys (device_path t)
              (requested_access OR O_NONBLOCK OR O_NOCTTY OR O_CLOEXEC OR O_NOFOLLOW)) h;
        if opened_fd < 0
        then (let open_error = or_errno EIO h
              in openFailed t (if isDisconnectError open_error \<or> open_error = ENOENT then T_kDisconnected
                               else if open_error = EBUSY then T_kConfigurationError else T_kIoError)
                   open_error h)
        else openDescriptor sys t opened_fd h
      })"

definition openTransport ::
    "'w system_calls \<Rightarrow> 'w posix_transport \<Rightarrow> int \<times> 'w
       \<Rightarrow> (serial_open_result \<times> 'w posix_transport \<times> (int \<times> 'w)) option" where
  "openTransport sys t h =
     (if pt_connected t then Some (opened T_kOk 0 (pt_generation t), t, h)
      else openNewGeneration sys t h)"

definition reopenTransport ::
    "'w system_calls \<Rightarrow> 'w posix_transport \<Rightarrow> int \<times> 'w
       \<Rightarrow> (serial_open_result \<times> 'w posix_transport \<times> (int \<times> 'w)) option" where
  "reopenTransport sys t h =
     do {
       (t, h) \<leftarrow> closeTransport sys t h;
       openNewGeneration sys t h
     }"

section \<open>Writing and reading through the transport\<close>

text \<open>
  The value of \<open>errno\<close> the I/O operations leave is not carried past them: no
  code of the transport reads it there.
\<close>

definition completionIfClock :: "'w io_operations \<Rightarrow> 'w \<Rightarrow> int \<times> 'w" where
  "completionIfClock operations w =
     (case monotonic_now_ns operations of None \<Rightarrow> (0, w) | Some now \<Rightarrow> now w)"

definition writeAll ::
    "'w system_calls \<Rightarrow> 'w posix_transport \<times> (int \<times> 'w) \<Rightarrow> u8 list \<Rightarrow> int
       \<Rightarrow> (io_result \<times> 'w posix_transport \<times> (int \<times> 'w)) option" where
  "writeAll sys = (\<lambda>(t, errno, w) data deadline.
     if pt_access t \<noteq> A_kReadWrite
     then Some (makeResult T_kWriteDisabled 0 EACCES False False 0, t, errno, w)
     else if \<not> pt_connected t \<or> pt_fd t < 0
     then (let (completion, w) = completionIfClock (pt_operations t) w
           in Some (makeResult T_kDisconnected 0 ENOTCONN False True completion, t, errno, w))
     else do {
       (result, w) \<leftarrow> writeAllWithOperations (pt_fd t) (Some data) (length data) deadline
                        (pt_operations t) w;
       if io_status result = T_kDisconnected
       then do {
         (t, h) \<leftarrow> markDisconnected sys t (errno, w);
         Some (result, t, h)
       }
       else Some (result, t, errno, w)
     })"

definition readSome ::
    "'w system_calls \<Rightarrow> 'w posix_transport \<times> (int \<times> 'w) \<Rightarrow> nat \<Rightarrow> int
       \<Rightarrow> (io_result \<times> u8 list \<times> 'w posix_transport \<times> (int \<times> 'w)) option" where
  "readSome sys = (\<lambda>(t, errno, w) capacity deadline.
     if \<not> pt_connected t \<or> pt_fd t < 0
     then (let (completion, w) = completionIfClock (pt_operations t) w
           in Some (makeResult T_kDisconnected 0 ENOTCONN False False completion, [], t, errno, w))
     else do {
       (result, bytes, w) \<leftarrow> readSomeWithOperations (pt_fd t) True capacity deadline
                               (pt_operations t) w;
       if io_status result = T_kDisconnected
       then do {
         (t, h) \<leftarrow> markDisconnected sys t (errno, w);
         Some (result, bytes, t, h)
       }
       else Some (result, bytes, t, errno, w)
     })"

text \<open>The transport as an implementation of \<open>ITransport\<close>.\<close>

definition posix_ops :: "'w system_calls \<Rightarrow> ('w posix_transport \<times> (int \<times> 'w)) transport_ops" where
  "posix_ops sys =
     \<lparr>tr_connected = (\<lambda>(t, h). pt_connected t),
      tr_generation = (\<lambda>(t, h). pt_generation t),
      tr_writeAll = (\<lambda>s data deadline.
        map_option (\<lambda>(r, s'). (Returned r, s')) (writeAll sys s data deadline))\<rparr>"

end
