(* ===== verification/Posix_Laws.thy ===== *)
theory Posix_Laws
  imports Posix_Transport Session_On_Transport
begin

text \<open>
  The laws of the POSIX transport: it keeps the contract of \<open>ITransport\<close> and puts
  on the wire what its results say (the two interpretations), and every way its
  opening can end.  The operating system is relied on through named predicates
  over the system calls.
\<close>

section \<open>Retried calls and closing\<close>

lemma retryInterrupted_result:
  assumes run: "retryInterrupted code call h = Some (r, h')" and "I h"
    and step: "\<And>h. \<lbrakk>I h; code (fst (call h)) < 0\<rbrakk> \<Longrightarrow> I (snd (call h))"
  shows "\<exists>h0. I h0 \<and> call h0 = (r, h') \<and> \<not> (code r < 0 \<and> fst h' = EINTR)"
proof -
  have "\<exists>h0. I h0 \<and> call h0 = (fst (r, h'), snd (r, h'))
          \<and> \<not> (code (fst (r, h')) < 0 \<and> fst (snd (r, h')) = EINTR)"
    using run [unfolded retryInterrupted_def] \<open>I h\<close>
    by (rule run_loop_rule [where I = I])
      (use step in \<open>fastforce simp: Let_def split_def split: if_splits\<close>)+
  then show ?thesis by simp
qed

lemma retryInterrupted_keeps:
  assumes run: "retryInterrupted code call h = Some (r, h')" and "I h"
    and step: "\<And>h. I h \<Longrightarrow> I (snd (call h))"
  shows "I h'"
  using retryInterrupted_result [OF run, of I] \<open>I h\<close> step by fastforce

definition pt_inv :: "'w posix_transport \<Rightarrow> bool" where
  "pt_inv t \<longleftrightarrow> (pt_connected t \<longleftrightarrow> 0 \<le> pt_fd t)"

lemma closeTransport_effect:
  assumes "closeTransport sys t h = Some (t', h')"
  shows "t' = t\<lparr>pt_connected := False, pt_fd := if 0 \<le> pt_fd t then -1 else pt_fd t\<rparr>"
  using assms by (auto simp: closeTransport_def Let_def bind_eq_Some_conv split: if_splits)

lemma closeTransport_host:
  assumes "closeTransport sys t h = Some (t', h')" and "I h"
    and ioctl: "\<And>h. I h \<Longrightarrow> I (snd (sys_ioctl sys (pt_fd t) TIOCNXCL h))"
    and closing: "\<And>h. I h \<Longrightarrow> J (snd (sys_close sys (pt_fd t) h))"
    and stay: "pt_fd t < 0 \<Longrightarrow> I h \<Longrightarrow> J h"
  shows "J h'"
proof (cases "0 \<le> pt_fd t")
  case True
  then obtain status h1 where "retryInterrupted id (sys_ioctl sys (pt_fd t) TIOCNXCL) h = Some (status, h1)"
      "h' = snd (sys_close sys (pt_fd t) h1)"
    using assms(1)
    by (auto simp: closeTransport_def releaseExclusiveAndClose_def Let_def bind_eq_Some_conv)
  with retryInterrupted_keeps [OF this(1) \<open>I h\<close> ioctl] closing show ?thesis by simp
next
  case False
  with assms(1) stay \<open>I h\<close> show ?thesis
    by (auto simp: closeTransport_def Let_def)
qed

lemma writeAll_cases:
  assumes "writeAll sys (t, errno, w) data deadline = Some (r, t', errno', w')"
  obtains (disabled) "pt_access t \<noteq> A_kReadWrite" "r = makeResult T_kWriteDisabled 0 EACCES False False 0"
      "t' = t" "errno' = errno" "w' = w"
  | (down) completion where "pt_access t = A_kReadWrite" "\<not> pt_connected t \<or> pt_fd t < 0"
      "completionIfClock (pt_operations t) w = (completion, w')"
      "r = makeResult T_kDisconnected 0 ENOTCONN False True completion" "t' = t" "errno' = errno"
  | (wrote) "pt_access t = A_kReadWrite" "pt_connected t" "0 \<le> pt_fd t"
      "writeAllWithOperations (pt_fd t) (Some data) (length data) deadline (pt_operations t) w
         = Some (r, w')" "io_status r \<noteq> T_kDisconnected" "t' = t" "errno' = errno"
  | (lost) w1 where "pt_access t = A_kReadWrite" "pt_connected t" "0 \<le> pt_fd t"
      "writeAllWithOperations (pt_fd t) (Some data) (length data) deadline (pt_operations t) w
         = Some (r, w1)" "io_status r = T_kDisconnected"
      "closeTransport sys t (errno, w1) = Some (t', errno', w')"
proof -
  consider "pt_access t \<noteq> A_kReadWrite" | "pt_access t = A_kReadWrite" "\<not> pt_connected t \<or> pt_fd t < 0"
    | "pt_access t = A_kReadWrite" "pt_connected t" "0 \<le> pt_fd t"
    by linarith
  then show thesis
  proof cases
    case 1
    with assms show thesis by (intro disabled) (auto simp: writeAll_def)
  next
    case 2
    with assms show thesis
      by (intro down [of "fst (completionIfClock (pt_operations t) w)"])
        (auto simp: writeAll_def split_def Let_def)
  next
    case 3
    then obtain r1 w1 where io: "writeAllWithOperations (pt_fd t) (Some data) (length data) deadline
        (pt_operations t) w = Some (r1, w1)"
      using assms by (auto simp: writeAll_def bind_eq_Some_conv)
    show thesis
    proof (cases "io_status r1 = T_kDisconnected")
      case True
      then obtain t1 e1 w2 where "closeTransport sys t (errno, w1) = Some (t1, e1, w2)"
        and "r = r1" "t' = t1" "errno' = e1" "w' = w2"
        using 3 assms io by (auto simp: writeAll_def bind_eq_Some_conv markDisconnected_def)
      with 3 io True show thesis by (intro lost [of w1]) simp_all
    next
      case False
      with 3 io assms show thesis by (intro wrote) (simp_all add: writeAll_def)
    qed
  qed
qed

lemma writeAllWithOperations_report:
  assumes "writeAllWithOperations fd (Some data) (length data) deadline operations w = Some (r, w')"
  shows "r = makeResult T_kInvalidArgument 0 EINVAL False False 0 \<and> w' = w
    \<or> (data = [] \<and> bytes_transferred r = 0 \<and> io_status r \<in> {T_kOk, T_kDeadlineExceeded}
       \<and> host_write_complete r
       \<and> (io_status r = T_kOk \<longrightarrow> \<not> outcome_uncertain r \<and> completion_monotonic_ns r \<le> deadline))
    \<or> data \<noteq> [] \<and> run_loop (writeBody operations fd data deadline) (0, w) = Some (r, w')
       \<and> write_report data deadline r"
proof -
  consider "fd < 0 \<or> \<not> writeOperationsAreComplete operations"
    | "0 \<le> fd" "writeOperationsAreComplete operations" "data = []"
    | "0 \<le> fd" "writeOperationsAreComplete operations" "data \<noteq> []"
    by linarith
  then show ?thesis
  proof cases
    case 1
    with assms show ?thesis by (simp add: writeAllWithOperations_def)
  next
    case 2
    with assms show ?thesis
      by (auto simp: writeAllWithOperations_def Let_def split_def makeResult_def split: if_splits)
  next
    case 3
    with assms have "run_loop (writeBody operations fd data deadline) (0, w) = Some (r, w')"
      by (simp add: writeAll_loop)
    with 3 write_loop_report [OF this] show ?thesis by simp
  qed
qed

section \<open>The transport keeps the contract of the interface\<close>

lemma posix_simps [simp]:
  "tr_connected (posix_ops sys) (t, h) = pt_connected t"
  "tr_generation (posix_ops sys) (t, h) = pt_generation t"
  by (simp_all add: posix_ops_def)

lemma posix_write:
  assumes "tr_writeAll (posix_ops sys) (t, errno, w) data deadline = Some (out, s')"
  obtains r t' errno' w' where "writeAll sys (t, errno, w) data deadline = Some (r, t', errno', w')"
    "out = Returned r" "s' = (t', errno', w')"
  using assms by (auto simp: posix_ops_def)

definition posix_good :: "'w posix_transport \<times> (int \<times> 'w) \<Rightarrow> bool" where
  "posix_good s = pt_inv (fst s)"

lemma writeAll_transport:
  assumes "pt_inv t" and "writeAll sys (t, errno, w) data deadline = Some (r, t', errno', w')"
  shows "pt_inv t' \<and> pt_generation t' = pt_generation t \<and> pt_access t' = pt_access t
    \<and> pt_operations t' = pt_operations t \<and> (pt_connected t' \<longrightarrow> t' = t)
    \<and> (io_status r = T_kDisconnected \<longrightarrow> \<not> pt_connected t')"
  using assms(2)
proof (cases rule: writeAll_cases)
  case lost
  then show ?thesis
    using closeTransport_effect [OF lost(6)] by (simp add: pt_inv_def)
qed (use assms(1) in \<open>auto simp: pt_inv_def makeResult_def\<close>)

lemma writeAll_success:
  assumes "writeAll sys (t, errno, w) data deadline = Some (r, t', errno', w')" "io_status r = T_kOk"
  shows "bytes_transferred r = length data \<and> host_write_complete r \<and> \<not> outcome_uncertain r
    \<and> completion_monotonic_ns r \<le> deadline"
  using assms(1)
proof (cases rule: writeAll_cases)
  case wrote
  then show ?thesis
    using writeAllWithOperations_report [OF wrote(4)] assms(2)
    by (auto simp: makeResult_def write_report_def)
qed (use assms(2) in \<open>auto simp: makeResult_def\<close>)

lemma posix_write_facts:
  assumes "pt_inv (fst s)" and res: "tr_writeAll (posix_ops sys) s data deadline = Some (out, s')"
  shows "pt_inv (fst s') \<and> tr_generation (posix_ops sys) s' = tr_generation (posix_ops sys) s
    \<and> pt_operations (fst s') = pt_operations (fst s)
    \<and> (tr_connected (posix_ops sys) s' \<longrightarrow> tr_connected (posix_ops sys) s)
    \<and> (\<exists>r. out = Returned r \<and> (io_status r = T_kDisconnected \<longrightarrow> \<not> tr_connected (posix_ops sys) s')
         \<and> (io_status r = T_kOk \<longrightarrow> bytes_transferred r = length data \<and> host_write_complete r
              \<and> \<not> outcome_uncertain r \<and> completion_monotonic_ns r \<le> deadline))"
proof -
  obtain t errno w where s: "s = (t, errno, w)" by (cases s)
  obtain r t' errno' w' where w: "writeAll sys (t, errno, w) data deadline = Some (r, t', errno', w')"
      and out: "out = Returned r" "s' = (t', errno', w')"
    using posix_write [OF res [unfolded s]] by blast
  show ?thesis
    using writeAll_transport [OF _ w] writeAll_success [OF w] assms(1) unfolding s out by auto
qed

interpretation posix: transport_contract "posix_ops sys" posix_good
  using posix_write_facts [of _ sys] by unfold_locales (fastforce simp: posix_good_def)+

section \<open>The bytes on the wire\<close>

text \<open>
  What is relied on of \<open>write(2)\<close>: \<open>wire w\<close> are the bytes the port has taken so far;
  a write that reports \<open>r\<close> bytes has taken the first \<open>r\<close> of its buffer and no
  more, one that reports an error none, and nothing else puts bytes there.
\<close>

definition wire_host :: "('w \<Rightarrow> u8 list) \<Rightarrow> 'w io_operations \<Rightarrow> bool" where
  "wire_host wire operations \<longleftrightarrow>
     (\<forall>now. monotonic_now_ns operations = Some now \<longrightarrow> (\<forall>w. wire (snd (now w)) = wire w))
     \<and> (\<forall>poll. poll_one operations = Some poll \<longrightarrow>
          (\<forall>fd ev ms w. wire (snd (snd (snd (poll fd ev ms w)))) = wire w))
     \<and> (\<forall>wr. write_bytes operations = Some wr \<longrightarrow>
          (\<forall>fd data w. fst (wr fd data w) \<le> int (length data)
             \<and> wire (snd (snd (wr fd data w))) = wire w @ take (nat (fst (wr fd data w))) data))"

definition wire_calls :: "('w \<Rightarrow> u8 list) \<Rightarrow> 'w system_calls \<Rightarrow> bool" where
  "wire_calls wire sys \<longleftrightarrow>
     (\<forall>fd req h. wire (snd (snd (sys_ioctl sys fd req h))) = wire (snd h))
     \<and> (\<forall>fd h. wire (snd (snd (sys_close sys fd h))) = wire (snd h))"

lemma wire_callsD:
  assumes "wire_calls wire sys"
  shows "wire (snd (snd (sys_ioctl sys fd req h))) = wire (snd h)"
    "wire (snd (snd (sys_close sys fd h))) = wire (snd h)"
  using assms unfolding wire_calls_def by blast+

lemma wire_keeps_write:
  assumes "wire_host wire operations" "writeOperationsAreComplete operations"
  shows "keeps_write (\<lambda>k w. k \<le> length bytes \<and> wire w = start @ take k bytes) operations fd bytes"
proof -
  obtain now wr poll where ops: "monotonic_now_ns operations = Some now"
      "write_bytes operations = Some wr" "poll_one operations = Some poll"
    using assms(2) by (auto simp: writeOperationsAreComplete_def)
  have "nat r \<le> length bytes - k \<and> k + nat r \<le> length bytes \<and> wire w' = start @ take (k + nat r) bytes"
    if "k < length bytes" "wire w = start @ take k bytes" "wr fd (drop k bytes) w = (r, e, w')"
    for k w r e w'
  proof -
    have "r \<le> int (length (drop k bytes)) \<and> wire w' = wire w @ take (nat r) (drop k bytes)"
      using assms(1) ops(2) that(3) unfolding wire_host_def by (metis fst_conv snd_conv)
    with that(1,2) show ?thesis
      by (auto simp: take_add)
  qed
  with assms(1) ops show ?thesis
    by (auto simp: keeps_write_def wire_host_def)
qed

lemma writeAllWithOperations_wire:
  assumes host: "wire_host wire operations"
    and res: "writeAllWithOperations fd (Some data) (length data) deadline operations w = Some (r, w')"
  shows "wire w' = wire w @ take (bytes_transferred r) data"
proof -
  consider "fd < 0 \<or> \<not> writeOperationsAreComplete operations"
    | "0 \<le> fd" "writeOperationsAreComplete operations" "data = []"
    | "0 \<le> fd" "writeOperationsAreComplete operations" "data \<noteq> []"
    by linarith
  then show ?thesis
  proof cases
    case 1
    with res show ?thesis by (auto simp: writeAllWithOperations_def makeResult_def)
  next
    case 2
    then obtain now where "monotonic_now_ns operations = Some now"
      by (auto simp: writeOperationsAreComplete_def)
    with host 2 res show ?thesis
      by (auto simp: writeAllWithOperations_def makeResult_def Let_def split_def wire_host_def)
  next
    case 3
    with res have "run_loop (writeBody operations fd data deadline) (0, w) = Some (r, w')"
      by (simp add: writeAll_loop)
    from write_loop_keeps [OF wire_keeps_write [OF host 3(2)] _ this, of "wire w"] show ?thesis
      by simp
  qed
qed

lemma writeAll_wire:
  assumes host: "wire_host wire (pt_operations t)" and calls: "wire_calls wire sys"
    and res: "writeAll sys (t, errno, w) data deadline = Some (r, t', errno', w')"
  shows "wire w' = wire w @ take (bytes_transferred r) data"
  using res
proof (cases rule: writeAll_cases)
  case (down completion)
  have "wire (snd (completionIfClock (pt_operations t) w)) = wire w"
    using host by (simp add: completionIfClock_def wire_host_def split: option.split)
  with down show ?thesis by (simp add: makeResult_def)
next
  case wrote
  show ?thesis by (rule writeAllWithOperations_wire [OF host wrote(4)])
next
  case (lost w1)
  have "wire (snd (errno', w')) = wire w1"
    by (rule closeTransport_host [OF lost(6), where I = "\<lambda>h. wire (snd h) = wire w1"])
      (simp_all add: wire_callsD [OF calls])
  with writeAllWithOperations_wire [OF host lost(4)] show ?thesis by simp
qed (simp add: makeResult_def)

definition posix_wired ::
    "('w \<Rightarrow> u8 list) \<Rightarrow> 'w system_calls \<Rightarrow> 'w io_operations
       \<Rightarrow> 'w posix_transport \<times> (int \<times> 'w) \<Rightarrow> bool" where
  "posix_wired wire sys operations s \<longleftrightarrow>
     pt_inv (fst s) \<and> pt_operations (fst s) = operations
     \<and> wire_host wire operations \<and> wire_calls wire sys"

interpretation posix_wire: wired_transport "posix_ops sys" "posix_wired wire sys operations"
  "\<lambda>s. wire (snd (snd s))"
proof (unfold_locales, goal_cases)
  case (1 s data deadline out s')
  then show ?case using posix_write_facts [of s sys data deadline out s'] by (simp add: posix_wired_def)
next
  case (2 s data deadline out s')
  then show ?case using posix_write_facts [of s sys data deadline out s'] by (simp add: posix_wired_def)
next
  case (3 s data deadline out s')
  then show ?case using posix_write_facts [of s sys data deadline out s'] by (simp add: posix_wired_def)
next
  case (4 s data deadline r s')
  then show ?case using posix_write_facts [of s sys data deadline "Returned r" s'] by (simp add: posix_wired_def)
next
  case (5 s data deadline r s')
  then show ?case using posix_write_facts [of s sys data deadline "Returned r" s'] by (simp add: posix_wired_def)
next
  case (6 s data deadline out s')
  obtain t errno w where s: "s = (t, errno, w)" by (cases s)
  with 6(2) obtain r t' errno' w' where
    "writeAll sys (t, errno, w) data deadline = Some (r, t', errno', w')" "out = Returned r"
    "s' = (t', errno', w')"
    by (auto elim: posix_write)
  with writeAll_wire [of wire t sys errno w data deadline r t' errno' w'] 6(1) s show ?case
    by (intro exI [of _ "bytes_transferred r"]) (simp add: posix_wired_def)
qed

section \<open>Opening\<close>

definition leaves :: "('w \<Rightarrow> 'a) \<Rightarrow> (int \<times> 'w \<Rightarrow> 'r \<times> (int \<times> 'w)) \<Rightarrow> bool" where
  "leaves f call \<longleftrightarrow> (\<forall>h. f (snd (snd (call h))) = f (snd h))"

lemma leavesD: "\<lbrakk>leaves f call; call h = (r, h')\<rbrakk> \<Longrightarrow> f (snd h') = f (snd h)"
  unfolding leaves_def by (metis snd_conv)

lemma upon_retry:
  assumes "leaves f call"
    and "\<And>h0 r h'. \<lbrakk>call h0 = (r, h'); f (snd h') = f (snd h)\<rbrakk> \<Longrightarrow> P (r, h')"
  shows "upon (retryInterrupted code call h) P"
  unfolding upon_def
proof (intro allI impI)
  fix x
  assume "retryInterrupted code call h = Some x"
  then have "retryInterrupted code call h = Some (fst x, snd x)" by simp
  then have "\<exists>h0. f (snd h0) = f (snd h) \<and> call h0 = (fst x, snd x)
      \<and> \<not> (code (fst x) < 0 \<and> fst (snd x) = EINTR)"
    by (rule retryInterrupted_result) (use assms(1) in \<open>simp_all add: leaves_def del: split_paired_All\<close>)
  then obtain h0 where h0: "f (snd h0) = f (snd h)" "call h0 = (fst x, snd x)" by blast
  have "P (fst x, snd x)"
    using assms(2) [OF h0(2)] leavesD [OF assms(1) h0(2)] h0(1) by simp
  then show "P x" by simp
qed

text \<open>
  What is relied on of the calls of \<open>openNewGeneration\<close>: \<open>descriptors w\<close> are the
  process's open descriptors; \<open>open(2)\<close> adds the one it returns, \<open>close(2)\<close> takes
  one away, nothing else changes them.
\<close>

definition open_adds :: "('w \<Rightarrow> int set) \<Rightarrow> 'w system_calls \<Rightarrow> bool" where
  "open_adds descriptors sys \<longleftrightarrow>
     (\<forall>path flags e w fd e' w'. sys_open sys path flags (e, w) = (fd, e', w') \<longrightarrow>
        (if fd < 0 then descriptors w' = descriptors w
         else fd \<notin> descriptors w \<and> descriptors w' = insert fd (descriptors w)))"

definition close_takes :: "('w \<Rightarrow> int set) \<Rightarrow> 'w system_calls \<Rightarrow> bool" where
  "close_takes descriptors sys \<longleftrightarrow>
     (\<forall>fd h. descriptors (snd (snd (sys_close sys fd h))) = descriptors (snd h) - {fd})"

definition calls_leave :: "('w \<Rightarrow> 'a) \<Rightarrow> 'w system_calls \<Rightarrow> bool" where
  "calls_leave f sys \<longleftrightarrow>
     (\<forall>fd. leaves f (sys_fstat sys fd)) \<and> (\<forall>fd. leaves f (sys_isatty sys fd))
     \<and> (\<forall>fd req. leaves f (sys_ioctl sys fd req)) \<and> (\<forall>fd cmd. leaves f (sys_fcntl sys fd cmd))
     \<and> (\<forall>fd. leaves f (sys_tcgetattr sys fd)) \<and> (\<forall>fd act tio. leaves f (sys_tcsetattr sys fd act tio))
     \<and> (\<forall>tio sp. leaves f (sys_cfsetispeed sys tio sp))
     \<and> (\<forall>tio sp. leaves f (sys_cfsetospeed sys tio sp))"

lemma calls_leaveD:
  assumes "calls_leave f sys"
  shows "leaves f (sys_fstat sys fd)" "leaves f (sys_isatty sys fd)" "leaves f (sys_ioctl sys fd req)"
    "leaves f (sys_fcntl sys fd cmd)" "leaves f (sys_tcgetattr sys fd)"
    "leaves f (sys_tcsetattr sys fd act tio)" "leaves f (sys_cfsetispeed sys tio sp)"
    "leaves f (sys_cfsetospeed sys tio sp)"
  using assms unfolding calls_leave_def by simp_all

lemma upon_configure:
  assumes same: "calls_leave f sys"
    and post: "\<And>ok h'. \<lbrakk>f (snd h') = f (snd h);
        ok \<longrightarrow> (\<exists>h0 settings. sys_tcgetattr sys fd h0 = ((0, settings), h')
                  \<and> serialSettingsMatch sys settings)\<rbrakk> \<Longrightarrow> P (ok, h')"
  shows "upon (configureSerialPort sys fd h) P"
proof -
  note keep = calls_leaveD [OF same]
  have isp: "f (snd (snd (sys_cfsetispeed sys tio sp h'))) = f (snd h')" for tio sp h'
    using keep(7) unfolding leaves_def by blast
  have osp: "f (snd (snd (sys_cfsetospeed sys tio sp h'))) = f (snd h')" for tio sp h'
    using keep(8) unfolding leaves_def by blast
  show ?thesis
    unfolding configureSerialPort_def getTermiosWithoutInterruption_def
      setTermiosWithoutInterruption_def upon_bind Let_def
    by (rule upon_retry [OF keep(5)])
      (auto simp: split_def isp osp intro!: post upon_retry [OF keep(6)] upon_retry [OF keep(5)], blast)
qed

lemma upon_release:
  assumes same: "calls_leave f sys" and "0 \<le> fd"
    and post: "\<And>h'. f (snd h') = f (snd h) \<Longrightarrow> P (snd (sys_close sys fd h'))"
  shows "upon (releaseExclusiveAndClose sys fd h) P"
  using assms(2) unfolding releaseExclusiveAndClose_def upon_if upon_bind
  by (auto intro!: upon_retry [OF calls_leaveD(3) [OF same]] post)

text \<open>
  An account of the descriptors: \<open>f\<close> is what is looked at of the world, \<open>x\<close> its
  value while no new descriptor is open and \<open>held fd\<close> the values it may have while
  the descriptor \<open>fd\<close> is; opening and closing go from one to the other.
\<close>

definition open_account ::
    "('w \<Rightarrow> 'a) \<Rightarrow> 'w system_calls \<Rightarrow> 'a \<Rightarrow> (int \<Rightarrow> 'a \<Rightarrow> bool) \<Rightarrow> bool" where
  "open_account f sys x held \<longleftrightarrow>
     (\<forall>path flags h fd h'. sys_open sys path flags h = (fd, h') \<longrightarrow> f (snd h) = x \<longrightarrow>
        (if fd < 0 then f (snd h') = x else held fd (f (snd h'))))
     \<and> (\<forall>fd h. held fd (f (snd h)) \<longrightarrow> f (snd (snd (sys_close sys fd h))) = x)"

lemma open_accountD:
  assumes "open_account f sys x held"
  shows "\<lbrakk>sys_open sys path flags h = (fd, h'); f (snd h) = x\<rbrakk> \<Longrightarrow>
      (if fd < 0 then f (snd h') = x else held fd (f (snd h')))"
    and "held fd (f (snd h)) \<Longrightarrow> f (snd (snd (sys_close sys fd h))) = x"
  using assms unfolding open_account_def by blast+

lemma upon_open_call:
  assumes account: "open_account f sys x held" and start: "f (snd h) = x"
    and fail: "\<And>fd h'. \<lbrakk>fd < 0; f (snd h') = x\<rbrakk> \<Longrightarrow> P (fd, h')"
    and ok: "\<And>fd h'. \<lbrakk>0 \<le> fd; held fd (f (snd h'))\<rbrakk> \<Longrightarrow> P (fd, h')"
  shows "upon (retryInterrupted id (sys_open sys path flags) h) P"
  unfolding upon_def
proof (intro allI impI)
  fix y
  assume "retryInterrupted id (sys_open sys path flags) h = Some y"
  then have "retryInterrupted id (sys_open sys path flags) h = Some (fst y, snd y)" by simp
  then have "\<exists>h0. f (snd h0) = x \<and> sys_open sys path flags h0 = (fst y, snd y)
      \<and> \<not> (id (fst y) < 0 \<and> fst (snd y) = EINTR)"
  proof (rule retryInterrupted_result)
    fix h1
    assume "f (snd h1) = x" "id (fst (sys_open sys path flags h1)) < 0"
    then show "f (snd (snd (sys_open sys path flags h1))) = x"
      using open_accountD(1) [OF account, of path flags h1 "fst (sys_open sys path flags h1)"
          "snd (sys_open sys path flags h1)"] by simp
  qed (rule start)
  then obtain h0 where "f (snd h0) = x" "sys_open sys path flags h0 = (fst y, snd y)" by blast
  with open_accountD(1) [OF account this(2,1)] fail [of "fst y" "snd y"] ok [of "fst y" "snd y"]
  show "P y"
    by (cases "fst y < 0") auto
qed

text \<open>Every way \<open>openNewGeneration\<close> can end, once the descriptor \<open>fd\<close> is open.\<close>

definition open_failure :: "'w posix_transport \<Rightarrow> serial_open_result \<Rightarrow> bool" where
  "open_failure t r \<longleftrightarrow> so_status r \<noteq> T_kOk \<and> so_os_error r \<noteq> 0 \<and> so_generation r = pt_generation t"

definition open_ends ::
    "('w \<Rightarrow> 'a) \<Rightarrow> 'w system_calls \<Rightarrow> 'w posix_transport \<Rightarrow> 'a \<Rightarrow> (int \<Rightarrow> 'a \<Rightarrow> bool) \<Rightarrow> int
       \<Rightarrow> serial_open_result \<times> 'w posix_transport \<times> (int \<times> 'w) \<Rightarrow> bool" where
  "open_ends f sys t x held fd = (\<lambda>(r, t', h').
     open_failure t r \<and> t' = t \<and> f (snd h') = x
     \<or> r = opened T_kOk 0 (pt_generation t + 1)
       \<and> t' = t\<lparr>pt_fd := fd, pt_connected := True, pt_generation := pt_generation t + 1\<rparr>
       \<and> held fd (f (snd h'))
       \<and> (\<exists>h0 settings. sys_tcgetattr sys fd h0 = ((0, settings), h')
            \<and> serialSettingsMatch sys settings))"

lemma or_errno_nonzero [simp]:
  "or_errno EIO h \<noteq> 0" "or_errno ENOTTY h \<noteq> 0" "or_errno EBUSY h \<noteq> 0"
  "EIO \<noteq> 0" "ENOTTY \<noteq> 0" "EINVAL \<noteq> 0" "EOVERFLOW \<noteq> 0"
  by (simp_all add: or_errno_def errno_defs)

lemma open_ends_failed:
  "\<lbrakk>status \<noteq> T_kOk; err \<noteq> 0; f (snd h) = x\<rbrakk> \<Longrightarrow>
     upon (openFailed t status err h) (open_ends f sys t x held fd)"
  by (simp add: openFailed_def open_ends_def open_failure_def)

lemma upon_openExclusive:
  assumes account: "open_account f sys x held" and same: "calls_leave f sys"
    and fd: "0 \<le> fd" "held fd (f (snd h))"
  shows "upon (openExclusive sys t fd h) (open_ends f sys t x held fd)"
proof -
  note keep = calls_leaveD [OF same]
  have released: "upon (releaseExclusiveAndClose sys fd h')
      (\<lambda>h'. upon (openFailed t T_kConfigurationError err h') (open_ends f sys t x held fd))"
    if "held fd (f (snd h'))" "err \<noteq> 0" for h' err
    by (rule upon_release [OF same fd(1)], rule open_ends_failed)
      (use that open_accountD(2) [OF account] in auto)
  show ?thesis
    unfolding openExclusive_def upon_bind upon_split Let_def split_def
  proof (rule upon_retry [OF keep(4)], rule upon_retry [OF keep(4)], goal_cases)
    case (1 h0 file_flags h1 h2 flags h3)
    then have here: "held fd (f (snd h3))"
      using fd(2) by simp
    show ?case
      unfolding upon_if upon_bind fst_conv snd_conv
      by (intro conjI impI released upon_configure [OF same])
        (use here in \<open>auto simp: open_ends_def intro!: released\<close>)
  qed
qed

lemma upon_openDescriptor:
  assumes account: "open_account f sys x held" and same: "calls_leave f sys"
    and fd: "0 \<le> fd" "held fd (f (snd h))"
  shows "upon (openDescriptor sys t fd h) (open_ends f sys t x held fd)"
proof -
  note keep = calls_leaveD [OF same]
  have tty: "f (snd (snd (sys_isatty sys fd h'))) = f (snd h')" for h'
    using keep(2) unfolding leaves_def by blast
  have failed: "upon (openFailed t T_kConfigurationError err (snd (sys_close sys fd h')))
      (open_ends f sys t x held fd)"
    if "held fd (f (snd h'))" "err \<noteq> 0" for h' err
    by (rule open_ends_failed) (use that open_accountD(2) [OF account] in auto)
  show ?thesis
    unfolding openDescriptor_def getFileStatusWithoutInterruption_def upon_bind
  proof (rule upon_retry [OF keep(1)], goal_cases)
    case (1 h0 r h1)
    then have here: "held fd (f (snd h1))"
      using fd(2) by simp
    have exclusive: "upon (retryInterrupted id (sys_ioctl sys fd TIOCEXCL) (snd (sys_isatty sys fd (0, snd h1))))
      (\<lambda>y. upon (if fst y \<noteq> 0 then openFailed t T_kConfigurationError (or_errno EBUSY (snd y))
                    (snd (sys_close sys fd (snd y))) else openExclusive sys t fd (snd y))
             (open_ends f sys t x held fd))"
      by (rule upon_retry [OF keep(3)])
        (use here tty in \<open>auto intro!: failed upon_openExclusive [OF account same fd(1)]\<close>)
    show ?case
      using here tty exclusive by (simp add: split_def Let_def failed)
  qed
qed

lemma upon_openNewGeneration:
  assumes account: "open_account f sys (f (snd h)) held" and same: "calls_leave f sys"
  shows "upon (openNewGeneration sys t h) (\<lambda>(r, t', h').
     open_failure t r \<and> t' = t \<and> f (snd h') = f (snd h)
     \<or> (\<exists>fd. 0 \<le> fd \<and> pt_generation t \<noteq> uint64_max \<and> explicitDevicePathIsValid (device_path t)
          \<and> open_ends f sys t (f (snd h)) held fd (r, t', h')))"
    (is "upon _ ?P")
proof -
  have failed: "upon (openFailed t status err h') ?P"
    if "status \<noteq> T_kOk" "err \<noteq> 0" "f (snd h') = f (snd h)" for status err h'
    using that by (simp add: openFailed_def open_failure_def)
  have rest: "upon (openDescriptor sys t fd h') ?P"
    if "0 \<le> fd" "held fd (f (snd h'))"
      "pt_generation t \<noteq> uint64_max" "explicitDevicePathIsValid (device_path t)" for fd h'
    using upon_openDescriptor [OF account same that(1,2), of t] that(1,3,4)
    by (fastforce simp: upon_def)
  have first: "upon (retryInterrupted id (sys_open sys path flags) h)
      (\<lambda>(fd, h). upon (if fd < 0
          then openFailed t (if isDisconnectError (or_errno EIO h) \<or> or_errno EIO h = ENOENT
                 then T_kDisconnected else if or_errno EIO h = EBUSY then T_kConfigurationError
                 else T_kIoError) (or_errno EIO h) h
          else openDescriptor sys t fd h) ?P)"
    if "pt_generation t \<noteq> uint64_max" "explicitDevicePathIsValid (device_path t)" for path flags
    by (rule upon_open_call [OF account refl]) (auto intro!: failed rest that)
  show ?thesis
    unfolding openNewGeneration_def Let_def upon_if upon_bind
    by (intro conjI impI failed) (use first in \<open>simp_all add: split_def\<close>)
qed

text \<open>The account of the descriptor set, and that of a part of the world opening does not touch.\<close>

lemma descriptor_account:
  assumes "open_adds descriptors sys" "close_takes descriptors sys"
  shows "open_account descriptors sys before (\<lambda>fd now. fd \<notin> before \<and> now = insert fd before)"
  unfolding open_account_def
proof (intro conjI allI impI, goal_cases)
  case (1 path flags h fd h')
  then show ?case
    using assms(1) unfolding open_adds_def by (metis prod.collapse)
next
  case (2 fd h)
  have "descriptors (snd (snd (sys_close sys fd h))) = descriptors (snd h) - {fd}"
    using assms(2) unfolding close_takes_def by blast
  with 2 show ?case by simp
qed

lemma untouched_account:
  assumes "\<And>path flags. leaves f (sys_open sys path flags)" "\<And>fd. leaves f (sys_close sys fd)"
  shows "open_account f sys x (\<lambda>fd y. y = x)"
  unfolding open_account_def
proof (intro conjI allI impI, goal_cases)
  case (1 path flags h fd h')
  then show ?case using leavesD [OF assms(1)] by simp
next
  case (2 fd h)
  then show ?case using assms(2) unfolding leaves_def by blast
qed

lemma generation_step: "g \<noteq> uint64_max \<Longrightarrow> unat (g + 1) = unat g + 1" for g :: u64
  by (metis add.commute add_eq_0_iff unat_eq_zero uint64_max_def unat_plus_simple unatSuc Suc_eq_plus1)

lemma closeTransport_descriptors:
  assumes host: "close_takes descriptors sys" "calls_leave descriptors sys"
    and res: "closeTransport sys t h = Some (t', h')"
  shows "descriptors (snd h') = (if 0 \<le> pt_fd t then descriptors (snd h) - {pt_fd t} else descriptors (snd h))"
proof -
  have closed: "descriptors (snd (snd (sys_close sys fd' h'))) = descriptors (snd h') - {fd'}" for fd' h'
    using host(1) unfolding close_takes_def by blast
  have ioctl: "descriptors (snd (snd (sys_ioctl sys fd' req h'))) = descriptors (snd h')" for fd' req h'
    using calls_leaveD(3) [OF host(2)] unfolding leaves_def by blast
  show ?thesis
  proof (cases "0 \<le> pt_fd t")
    case True
    have "descriptors (snd h') = descriptors (snd h) - {pt_fd t}"
      by (rule closeTransport_host [OF res, where I = "\<lambda>h'. descriptors (snd h') = descriptors (snd h)"])
        (use True closed ioctl in simp_all)
    with True show ?thesis by simp
  next
    case False
    with res show ?thesis by (auto simp: closeTransport_def Let_def)
  qed
qed

end
