(* ===== verification/Posix_Properties.thy ===== *)
theory Posix_Properties
  imports Posix_Laws Safety_Samples
begin

text \<open>
  The properties of the POSIX transport, each with a witness on a small concrete
  host.
\<close>

section \<open>A concrete host\<close>

text \<open>
  A small host at which the properties are applied: its clock moves by one
  nanosecond per reading, a write takes at most eight bytes, a read delivers what
  has come in, and the only descriptor it hands out is 3.
\<close>

record sample_world =
  sw_clock :: int
  sw_wire :: "u8 list"
  sw_incoming :: "u8 list"
  sw_descriptors :: "int set"

definition sample_termios :: termios where
  "sample_termios = \<lparr>c_iflag = 0, c_oflag = 0, c_cflag = CS8 OR CLOCAL OR CREAD, c_lflag = 0,
     c_cc = (\<lambda>_. 0)\<rparr>"

definition sample_system :: "sample_world system_calls" where
  "sample_system =
     \<lparr>sys_open = (\<lambda>path flags (e, w). if 3 \<in> sw_descriptors w then (-1, EBUSY, w)
                   else (3, e, w\<lparr>sw_descriptors := insert 3 (sw_descriptors w)\<rparr>)),
      sys_fstat = (\<lambda>fd h. ((0, 0x2000), h)), sys_isatty = (\<lambda>fd h. (1, h)),
      sys_ioctl = (\<lambda>fd req h. (0, h)), sys_fcntl = (\<lambda>fd cmd h. (0x801, h)),
      sys_close = (\<lambda>fd (e, w). (0, e, w\<lparr>sw_descriptors := sw_descriptors w - {fd}\<rparr>)),
      sys_tcgetattr = (\<lambda>fd h. ((0, sample_termios), h)),
      sys_tcsetattr = (\<lambda>fd act settings h. (0, h)), sys_cfmakeraw = (\<lambda>settings. settings),
      sys_cfsetispeed = (\<lambda>settings sp h. ((0, settings), h)),
      sys_cfsetospeed = (\<lambda>settings sp h. ((0, settings), h)),
      sys_cfgetispeed = (\<lambda>settings. B115200), sys_cfgetospeed = (\<lambda>settings. B115200),
      sys_clock_gettime = (\<lambda>w. ((0, 0, sw_clock w + 1), w\<lparr>sw_clock := sw_clock w + 1\<rparr>)),
      sys_write = (\<lambda>fd data w. (int (min 8 (length data)), 0, w\<lparr>sw_wire := sw_wire w @ take 8 data\<rparr>)),
      sys_read = (\<lambda>fd n w. if sw_incoming w = [] then (-1, EAGAIN, [], w)
                   else (int (min n (length (sw_incoming w))), 0, take n (sw_incoming w),
                         w\<lparr>sw_incoming := drop n (sw_incoming w)\<rparr>)),
      sys_poll = (\<lambda>fd ev ms w. (1, 0, ev, w))\<rparr>"

abbreviation "sample_io \<equiv> systemIoOperations sample_system"

lemma sample_io_simps [simp]:
  "monotonic_now_ns sample_io = Some (\<lambda>w. (sw_clock w + 1, w\<lparr>sw_clock := sw_clock w + 1\<rparr>))"
  "write_bytes sample_io = Some (\<lambda>fd data w.
     (int (min 8 (length data)), 0, w\<lparr>sw_wire := sw_wire w @ take 8 data\<rparr>))"
  "read_bytes sample_io = Some (\<lambda>fd n w. if sw_incoming w = [] then (-1, EAGAIN, [], w)
     else (int (min n (length (sw_incoming w))), 0, take n (sw_incoming w),
           w\<lparr>sw_incoming := drop n (sw_incoming w)\<rparr>))"
  "poll_one sample_io = Some (\<lambda>fd ev ms w. (1, 0, ev, w))"
  by (simp_all add: systemIoOperations_def sample_system_def monotonicNowNs_def fun_eq_iff)

lemma sample_complete [simp]:
  "writeOperationsAreComplete sample_io" "readOperationsAreComplete sample_io"
  by (simp_all add: writeOperationsAreComplete_def readOperationsAreComplete_def)

lemma sample_clock_host: "clock_host sw_clock sample_io"
  by (simp add: clock_host_def)

lemma sample_wire_host: "wire_host sw_wire sample_io"
  by (auto simp: wire_host_def min_def nat_le_iff)

lemma sample_wire_calls: "wire_calls sw_wire sample_system"
  by (simp add: wire_calls_def sample_system_def)

lemma sample_source_host: "source_host sw_incoming sample_io"
  by (auto simp: source_host_def min_def split: if_splits)

lemma sample_descriptors:
  "open_adds sw_descriptors sample_system" "close_takes sw_descriptors sample_system"
  "calls_leave sw_descriptors sample_system"
  by (auto simp: open_adds_def close_takes_def calls_leave_def leaves_def sample_system_def
      split: if_splits)

definition sample_port :: "sample_world posix_transport" where
  "sample_port = (newSystemSerialTransport sample_system ''/dev/ttyUSB0'' A_kReadWrite)
     \<lparr>pt_fd := 3, pt_connected := True, pt_generation := 1\<rparr>"

lemma sample_port_simps [simp]:
  "pt_fd sample_port = 3" "pt_connected sample_port" "pt_generation sample_port = 1"
  "pt_access sample_port = A_kReadWrite" "pt_operations sample_port = sample_io"
  "pt_inv sample_port" "device_path sample_port = ''/dev/ttyUSB0''"
  by (simp_all add: sample_port_def newSystemSerialTransport_def newPosixSerialTransport_def pt_inv_def)

abbreviation "sample_host c wire inc \<equiv>
  \<lparr>sw_clock = c, sw_wire = wire, sw_incoming = inc, sw_descriptors = {3}\<rparr>"

text \<open>An eleven-byte frame takes two writes of this host and four readings of its clock.\<close>

lemma sample_write:
  assumes "length data = 11" "c + 4 \<le> deadline"
  shows "writeAll sample_system (sample_port, e, sample_host c wire inc) data deadline
    = Some (makeResult T_kOk 11 0 True False (c + 4), sample_port, e, sample_host (c + 4) (wire @ data) inc)"
proof -
  have first: "writeBody sample_io 3 data deadline (0, sample_host c wire inc)
      = Some (Continue (8, sample_host (c + 2) (wire @ take 8 data) inc))"
    using assms by (simp add: writeBody_def Let_def)
  have second: "writeBody sample_io 3 data deadline (8, sample_host (c + 2) (wire @ take 8 data) inc)
      = Some (Return (makeResult T_kOk 11 0 True False (c + 4), sample_host (c + 4) (wire @ data) inc))"
  proof -
    have "take 8 data @ drop 8 data = data" by simp
    then show ?thesis using assms by (simp add: writeBody_def Let_def add.commute del: append_take_drop_id)
  qed
  have "data \<noteq> []" using assms(1) by auto
  then have "writeAllWithOperations 3 (Some data) (length data) deadline sample_io (sample_host c wire inc)
      = Some (makeResult T_kOk 11 0 True False (c + 4), sample_host (c + 4) (wire @ data) inc)"
    by (simp add: writeAll_loop run_loop_Continue [of "writeBody sample_io 3 data deadline", OF first]
        run_loop_Return [of "writeBody sample_io 3 data deadline", OF second])
  then show ?thesis
    by (simp add: writeAll_def) (simp add: makeResult_def)
qed

section \<open>Properties of the transport\<close>

text \<open>
  C14: A write through the POSIX transport tells the truth about the wire: exactly the first
  \<open>bytes_transferred\<close> bytes of the frame have left the host, whatever errors, short writes,
  interruptions and waits happened; a success is the whole frame, host-complete, certain and by
  the deadline; an outcome that is neither complete nor uncertain has put nothing on the wire;
  a receive-only transport refuses and touches nothing; a reported disconnect has closed the
  port; and the connection generation never changes.
\<close>

theorem posix_write_outcome:
  assumes inv: "pt_inv t" and host: "wire_host wire (pt_operations t)" "wire_calls wire sys"
    and res: "writeAll sys (t, errno, w) data deadline = Some (r, t', errno', w')"
  shows "bytes_transferred r \<le> length data
    \<and> wire w' = wire w @ take (bytes_transferred r) data
    \<and> (io_status r = T_kOk \<longrightarrow> bytes_transferred r = length data \<and> host_write_complete r
         \<and> \<not> outcome_uncertain r \<and> completion_monotonic_ns r \<le> deadline)
    \<and> (\<not> outcome_uncertain r \<and> \<not> host_write_complete r \<longrightarrow> wire w' = wire w)
    \<and> (host_write_complete r \<longrightarrow> wire w' = wire w @ data)
    \<and> (pt_access t \<noteq> A_kReadWrite \<longrightarrow> io_status r = T_kWriteDisabled \<and> t' = t \<and> w' = w)
    \<and> (io_status r = T_kDisconnected \<longrightarrow> \<not> pt_connected t')
    \<and> pt_inv t' \<and> pt_generation t' = pt_generation t"
proof -
  note w = writeAll_wire [OF host res] and ok = writeAll_success [OF res]
  have t: "pt_inv t'" "pt_generation t' = pt_generation t"
      "io_status r = T_kDisconnected \<Longrightarrow> \<not> pt_connected t'"
    using writeAll_transport [OF inv res] by blast+
  have report: "bytes_transferred r \<le> length data
      \<and> (host_write_complete r \<longrightarrow> bytes_transferred r = length data)
      \<and> (\<not> outcome_uncertain r \<and> \<not> host_write_complete r \<longrightarrow> bytes_transferred r = 0)
      \<and> (pt_access t \<noteq> A_kReadWrite \<longrightarrow> io_status r = T_kWriteDisabled \<and> t' = t \<and> w' = w)"
    using res
  proof (cases rule: writeAll_cases)
    case wrote
    then show ?thesis using writeAllWithOperations_report [OF wrote(4)]
      by (auto simp: makeResult_def write_report_def)
  next
    case (lost w1)
    then show ?thesis using writeAllWithOperations_report [OF lost(4)]
      by (auto simp: makeResult_def write_report_def)
  qed (auto simp: makeResult_def)
  then show ?thesis
    using w t ok by auto
qed

theorem posix_write_outcome_witness:
  "sw_wire (sample_host 4 ([] @ drive_frame) []) = sw_wire (sample_host 0 [] []) @ take 11 drive_frame"
proof -
  have "writeAll sample_system (sample_port, 0, sample_host 0 [] []) drive_frame 1000
      = Some (makeResult T_kOk 11 0 True False 4, sample_port, 0, sample_host 4 ([] @ drive_frame) [])"
    using sample_write [of drive_frame 0 1000 0 "[]" "[]"] by (simp add: drive_frame_def)
  from posix_write_outcome [OF sample_port_simps(6) _ sample_wire_calls this] sample_wire_host
  show ?thesis by (simp add: makeResult_def)
qed



text \<open>
  C17: A read neither loses nor invents bytes: what it reports it has taken, in order, from the
  front of what the port delivers, also when it reports a deadline overrun; a success has at
  least one byte, at most the capacity, and ended by the deadline; any other status comes with
  no bytes, except a late read, which is marked as late; and a read never counts as a
  completed or uncertain write.
\<close>

theorem read_outcome:
  assumes host: "source_host incoming operations"
    and res: "readSomeWithOperations fd present capacity deadline operations w = Some (r, bytes, w')"
  shows "take (bytes_transferred r) bytes @ incoming w' = incoming w
    \<and> bytes_transferred r \<le> capacity
    \<and> (io_status r = T_kOk \<longrightarrow> 0 < bytes_transferred r \<and> completion_monotonic_ns r \<le> deadline)
    \<and> (0 < bytes_transferred r \<longrightarrow> io_status r = T_kOk
         \<or> io_status r = T_kDeadlineExceeded \<and> deadline < completion_monotonic_ns r)
    \<and> \<not> host_write_complete r \<and> \<not> outcome_uncertain r"
proof (cases "fd < 0 \<or> \<not> present \<or> capacity = 0 \<or> \<not> readOperationsAreComplete operations")
  case True
  with res show ?thesis by (auto simp: readSomeWithOperations_def makeResult_def)
next
  case False
  with res have loop: "run_loop (readBody operations fd capacity deadline) w = Some (r, bytes, w')"
    by (simp add: readSomeWithOperations_def)
  from read_loop_source [OF host loop] read_loop_report [OF loop] show ?thesis
    by (simp add: read_report_def)
qed

lemma sample_read:
  "readSomeWithOperations 3 True 2 100 sample_io (sample_host 0 [] [7, 8, 9])
    = Some (makeResult T_kOk 2 0 False False 2, [7, 8], sample_host 2 [] [9])"
proof -
  have "readBody sample_io 3 2 100 (sample_host 0 [] [7, 8, 9])
    = Some (Return (makeResult T_kOk 2 0 False False 2, [7, 8], sample_host 2 [] [9]))"
    by (simp add: readBody_def Let_def)
  then show ?thesis by (simp add: readSomeWithOperations_def run_loop_Return)
qed

theorem read_outcome_witness: "take 2 [7, 8 :: u8] @ [9] = [7, 8, 9]"
  using read_outcome [OF sample_source_host sample_read] by (simp add: makeResult_def)


text \<open>
  C15: Reopening the port never leaks a descriptor and never leaves a half-open transport:
  the old descriptor is given back; when opening or configuring fails the transport is closed,
  holds no descriptor, keeps its generation and reports an error number; when it succeeds it is
  connected on a descriptor that was not in use before, the generation is one higher, and the
  last settings read back from that descriptor are 115200 baud, eight data bits, no parity, one
  stop bit and no flow control.
\<close>

theorem reopen_outcome:
  assumes host: "open_adds descriptors sys" "close_takes descriptors sys" "calls_leave descriptors sys"
    and inv: "pt_inv t"
    and res: "reopenTransport sys t h = Some (r, t', h')"
    and rest: "rest = (if pt_connected t then descriptors (snd h) - {pt_fd t} else descriptors (snd h))"
  shows "pt_inv t' \<and> so_generation r = pt_generation t'
    \<and> (so_status r \<noteq> T_kOk \<and> so_os_error r \<noteq> 0 \<and> \<not> pt_connected t'
         \<and> pt_generation t' = pt_generation t \<and> descriptors (snd h') = rest
       \<or> so_status r = T_kOk \<and> pt_connected t' \<and> unat (pt_generation t') = unat (pt_generation t) + 1
         \<and> pt_fd t' \<notin> rest \<and> descriptors (snd h') = insert (pt_fd t') rest
         \<and> (\<exists>h0 settings. sys_tcgetattr sys (pt_fd t') h0 = ((0, settings), h')
              \<and> serialSettingsMatch sys settings))"
proof -
  obtain t1 h1 where closed: "closeTransport sys t h = Some (t1, h1)"
      and opens: "openNewGeneration sys t1 h1 = Some (r, t', h')"
    using res by (auto simp: reopenTransport_def bind_eq_Some_conv)
  have t1: "t1 = t\<lparr>pt_connected := False, pt_fd := if 0 \<le> pt_fd t then -1 else pt_fd t\<rparr>"
    by (rule closeTransport_effect [OF closed])
  have h1: "descriptors (snd h1) = rest"
    using closeTransport_descriptors [OF host(2,3) closed] inv rest by (simp add: pt_inv_def)
  from upon_openNewGeneration [where t = t1 and h = h1, OF descriptor_account [OF host(1,2)] host(3),
      unfolded upon_def h1] opens
  consider "open_failure t1 r" "t' = t1" "descriptors (snd h') = rest"
    | fd where "0 \<le> fd" "pt_generation t1 \<noteq> uint64_max"
        "open_ends descriptors sys t1 rest (\<lambda>fd now. fd \<notin> rest \<and> now = insert fd rest) fd (r, t', h')"
    by blast
  then show ?thesis
  proof cases
    case 1
    then show ?thesis
      by (simp add: t1 open_failure_def pt_inv_def)
  next
    case 2
    show ?thesis
    proof (cases "open_failure t1 r")
      case True
      with 2 show ?thesis
        by (auto simp: t1 open_failure_def open_ends_def pt_inv_def split: if_splits)
    next
      case False
      with 2 have "r = opened T_kOk 0 (pt_generation t + 1)"
          "t' = t1\<lparr>pt_fd := fd, pt_connected := True, pt_generation := pt_generation t + 1\<rparr>"
          "fd \<notin> rest" "descriptors (snd h') = insert fd rest"
          "\<exists>h0 settings. sys_tcgetattr sys fd h0 = ((0, settings), h') \<and> serialSettingsMatch sys settings"
        by (auto simp: open_ends_def t1)
      with 2(1,2) show ?thesis
        using generation_step [of "pt_generation t"] by (simp add: t1 pt_inv_def)
    qed
  qed
qed


lemma retry_once:
  "\<lbrakk>call h = (r, h'); \<not> (code r < 0 \<and> fst h' = EINTR)\<rbrakk> \<Longrightarrow>
     retryInterrupted code call h = Some (r, h')"
  unfolding retryInterrupted_def by (rule run_loop_Return) simp

lemma sample_calls [simp]:
  "retryInterrupted id (sys_open sample_system path flags) (e, \<lparr>sw_clock = c, sw_wire = wire, sw_incoming = inc, sw_descriptors = {}\<rparr>)
    = Some (3, e, sample_host c wire inc)"
  "retryInterrupted fst (sys_fstat sample_system fd) h = Some ((0, 0x2000), h)"
  "retryInterrupted id (sys_ioctl sample_system fd req) h = Some (0, h)"
  "retryInterrupted id (sys_fcntl sample_system fd cmd) h = Some (0x801, h)"
  "retryInterrupted fst (sys_tcgetattr sample_system fd) h = Some ((0, sample_termios), h)"
  "retryInterrupted id (sys_tcsetattr sample_system fd act settings) h = Some (0, h)"
  by (rule retry_once; simp add: sample_system_def)+

lemma sample_isatty [simp]: "sys_isatty sample_system fd h = (1, h)"
  by (simp add: sample_system_def)

lemma sample_settings_match [simp]: "serialSettingsMatch sample_system sample_termios"
  by (simp add: serialSettingsMatch_def sample_termios_def sample_system_def termios_defs)

lemma sample_configure [simp]: "configureSerialPort sample_system fd h = Some (True, h)"
  by (simp add: configureSerialPort_def getTermiosWithoutInterruption_def
      setTermiosWithoutInterruption_def Let_def split_def)
    (simp add: sample_system_def)

lemma sample_reopen:
  "reopenTransport sample_system sample_port (0, sample_host 0 [] [])
    = Some (opened T_kOk 0 2, sample_port\<lparr>pt_fd := 3, pt_connected := True, pt_generation := 2\<rparr>,
        0, sample_host 0 [] [])"
proof -
  have close: "closeTransport sample_system sample_port (0, sample_host 0 [] [])
    = Some (sample_port\<lparr>pt_connected := False, pt_fd := -1\<rparr>, 0,
        sample_host 0 [] []\<lparr>sw_descriptors := {}\<rparr>)"
    by (simp add: closeTransport_def releaseExclusiveAndClose_def) (simp add: sample_system_def)
  have path: "explicitDevicePathIsValid ''/dev/ttyUSB0''"
    by (simp add: explicitDevicePathIsValid_def)
  show ?thesis
    by (simp add: reopenTransport_def close openNewGeneration_def openDescriptor_def openExclusive_def
        getFileStatusWithoutInterruption_def path uint64_max_def S_ISCHR_def Let_def O_NONBLOCK_def
        FD_CLOEXEC_def)
qed

theorem reopen_outcome_witness:
  "unat (pt_generation (sample_port\<lparr>pt_generation := 2\<rparr>)) = unat (pt_generation sample_port) + 1
   \<and> 3 \<notin> ({3} - {3} :: int set)"
  using reopen_outcome [OF sample_descriptors sample_port_simps(6) sample_reopen refl]
  by simp

end
