(* ===== verification/Posix_Session.thy ===== *)
theory Posix_Session
  imports Posix_Properties Safety_Properties
begin

text \<open>
  The two halves together: the safety session driving the POSIX transport, down
  to the bytes that leave the host.
\<close>

lemma tick_with_log:
  assumes "tick ops t now s = Some (result, s', t')"
  obtains writes where "tick (logging ops) (t, []) now s = Some (result, s', t', writes)"
  using assms tick_logging [of ops t "[]" now s] by fastforce

lemma sent_partsD:
  "\<lbrakk>sent_parts writes parts; part \<in> set parts\<rbrakk> \<Longrightarrow>
     \<exists>frame deadline n. (frame, deadline) \<in> set writes \<and> part = take n frame"
  unfolding sent_parts_def by (induction rule: list_all2_induct) (auto, metis)

text \<open>
  C3: On the wire of the POSIX transport a tick of the session leaves only the beginning of
  stop frames and of admitted command frames: after any run of operations, in which the
  transport may have been opened, closed and reopened, the bytes a tick adds to the wire are a
  concatenation of at most two pieces, each the beginning of the all-zero frame or of the frame
  of a command that an earlier \<open>submit\<close> accepted within the configured limits; and when the tick
  reports a completed motion write, the write had ended by the deadline of its command.
\<close>

theorem session_bytes_on_wire:
  assumes run: "session_run (posix_ops sys) es (newSafetySession cfg present (posix_ops sys) p0, p0)
      = Some (outs, s, t, errno, w)"
    and inv: "pt_inv t" and host: "wire_host wire (pt_operations t)" "wire_calls wire sys"
    and tick: "tick (posix_ops sys) (t, errno, w) now s = Some (result, s', t', errno', w')"
  shows "(\<exists>parts. wire w' = wire w @ concat parts \<and> length parts \<le> 2
      \<and> list_all (\<lambda>part. \<exists>n frame. part = take n frame
           \<and> (frame = makeZeroCommandFrame
              \<or> (\<exists>command. accepted_in outs command \<and> command_admitted cfg command frame))) parts)
    \<and> (cyc_action result = Cyc_kMotionHostWriteComplete \<longrightarrow>
         last_motion_host_write_completion_ns s' \<le> deadline_monotonic_ns (latest_command s))
    \<and> pt_generation t' = pt_generation t"
proof -
  have good: "posix_wired wire sys (pt_operations t) (t, errno, w)"
    using inv host by (simp add: posix_wired_def)
  obtain writes where log: "tick (logging (posix_ops sys)) ((t, errno, w), []) now s
      = Some (result, s', (t', errno', w'), writes)"
    by (rule tick_with_log [OF tick])
  obtain parts where parts: "sent_parts writes parts" "wire w' = wire w @ concat parts"
    using posix_wire.tick_wire [OF log good] by auto
  note sinv = run_intent(1) [OF run]
  have "length writes \<le> 2"
    using sinv log by (cases rule: tick_writes) auto
  moreover have "length parts = length writes"
    using parts(1) by (simp add: sent_parts_def list_all2_lengthD)
  moreover have "\<exists>n frame. part = take n frame \<and> (frame = makeZeroCommandFrame
      \<or> (\<exists>command. accepted_in outs command \<and> command_admitted cfg command frame))"
    if "part \<in> set parts" for part
    using sent_partsD [OF parts(1) that] tick_frames_admitted [OF run log] by blast
  moreover have "cyc_action result = Cyc_kMotionHostWriteComplete \<Longrightarrow>
      last_motion_host_write_completion_ns s' \<le> deadline_monotonic_ns (latest_command s)"
    using posix_wire.tick_motion_in_time [OF sinv good tick] by simp
  moreover have "pt_generation t' = pt_generation t"
    using posix_wire.tick_follows [OF tick good] by (simp add: posix_wire.follows_def)
  ultimately show ?thesis
    using parts(2) by (auto simp: list_all_iff intro!: exI [of _ parts])
qed

text \<open>The bring-up of the sample session on the sample port, and its motion tick.\<close>

definition port_start :: "safety_session \<times> sample_world posix_transport \<times> (int \<times> sample_world)" where
  "port_start = (newSafetySession sample_config True (posix_ops sample_system)
      (sample_port, 0, sample_host 1000 [] []), sample_port, 0, sample_host 1000 [] [])"

definition port_bring_up :: "(sample_world posix_transport \<times> (int \<times> sample_world)) session_event list" where
  "port_bring_up =
     [Ev_tick 1000, Ev_observeFeedback sample_feedback 2000, Ev_authorize 7 3000,
      Ev_submit (sample_timed 1 4000) 5000, Ev_submit (sample_timed 2 5500) 6000]"

lemma posix_write_sample:
  assumes "length data = 11" "c + 4 \<le> deadline"
  shows "tr_writeAll (posix_ops sample_system) (sample_port, e, sample_host c wire inc) data deadline
    = Some (Returned (makeResult T_kOk 11 0 True False (c + 4)),
        sample_port, e, sample_host (c + 4) (wire @ data) inc)"
  using sample_write [OF assms] by (simp add: posix_ops_def)

lemma port_run:
  "\<exists>outs. session_run (posix_ops sample_system) port_bring_up port_start
    = Some (outs, sample_active, sample_port, 0, sample_host 1004 makeZeroCommandFrame [])"
proof -
  have "length makeZeroCommandFrame = 11" by (simp add: makeZeroCommandFrame_def frame_consts)
  then show ?thesis
  by (simp add: port_bring_up_def port_start_def sample_active_def 
      session_exec posix_write_sample makeResult_def kCommandFrameSize_def)
qed

lemma port_motion_tick:
  "\<exists>result s'. tick (posix_ops sample_system) (sample_port, 0, sample_host 1004 makeZeroCommandFrame [])
      7000 sample_active
    = Some (result, s', sample_port, 0, sample_host 1008 (makeZeroCommandFrame @ drive_frame) [])
    \<and> cyc_action result = Cyc_kMotionHostWriteComplete
    \<and> last_motion_host_write_completion_ns s' = 1008"
proof -
  have "length drive_frame = 11" by (simp add: drive_frame_def)
  then show ?thesis
    by (simp add: sample_active_def session_exec posix_write_sample makeResult_def)
qed

theorem session_bytes_on_wire_witness:
  "(\<exists>parts. makeZeroCommandFrame @ drive_frame = makeZeroCommandFrame @ concat parts \<and> length parts \<le> 2)
   \<and> (1008 :: int) \<le> deadline_monotonic_ns (latest_command sample_active)"
proof -
  obtain outs where run: "session_run (posix_ops sample_system) port_bring_up
      (newSafetySession sample_config True (posix_ops sample_system)
         (sample_port, 0, sample_host 1000 [] []), sample_port, 0, sample_host 1000 [] [])
      = Some (outs, sample_active, sample_port, 0, sample_host 1004 makeZeroCommandFrame [])"
    using port_run unfolding port_start_def by blast
  obtain result s' where tick: "tick (posix_ops sample_system)
        (sample_port, 0, sample_host 1004 makeZeroCommandFrame []) 7000 sample_active
      = Some (result, s', sample_port, 0, sample_host 1008 (makeZeroCommandFrame @ drive_frame) [])"
    and done_at: "cyc_action result = Cyc_kMotionHostWriteComplete"
      "last_motion_host_write_completion_ns s' = 1008"
    using port_motion_tick by blast
  have host: "wire_host sw_wire (pt_operations sample_port)"
    using sample_wire_host by simp
  from session_bytes_on_wire [OF run sample_port_simps(6) host sample_wire_calls tick] done_at
  show ?thesis by auto
qed

end
