(* ===== verification/C_Strings.thy ===== *)
theory C_Strings
  imports Float64 "HOL-Library.Char_ord"
begin

text \<open>
  What the program uses of the C and C++ libraries on character strings, in the
  "C" locale: \<open>isspace\<close>, \<open>strtoll\<close> in base ten and \<open>strtod\<close> as glibc has them,
  \<open>std::getline\<close>, and the extractions of \<open>std::istringstream\<close>.  A \<open>std::string\<close> is a
  list of characters, which may contain NUL; \<open>c_str\<close> is what a C function sees of
  it.
\<close>

section \<open>Characters and digits\<close>

definition NUL :: char where "NUL = CHR 0x00"
definition LF :: char where "LF = CHR 0x0A"
definition CR :: char where "CR = CHR 0x0D"

definition isspace :: "char \<Rightarrow> bool" where
  "isspace c \<longleftrightarrow> c \<in> {CHR 0x20, CHR 0x09, CHR 0x0A, CHR 0x0B, CHR 0x0C, CHR 0x0D}"

definition isdigit :: "char \<Rightarrow> bool" where
  "isdigit c \<longleftrightarrow> c \<in> set ''0123456789''"

definition code_of :: "char \<Rightarrow> nat" where
  "code_of c = of_char c"

definition digit_of :: "char \<Rightarrow> nat" where
  "digit_of c = code_of c - 48"

definition decimal_value :: "string \<Rightarrow> nat" where
  "decimal_value ds = foldl (\<lambda>n c. 10 * n + digit_of c) 0 ds"

definition skip_spaces :: "string \<Rightarrow> string" where
  "skip_spaces = dropWhile isspace"

definition c_str :: "string \<Rightarrow> string" where
  "c_str text = takeWhile (\<lambda>c. c \<noteq> NUL) text"

text \<open>An optional sign, as whether it was a minus, and the text after it.\<close>

definition take_sign :: "string \<Rightarrow> bool \<times> string" where
  "take_sign s =
     (case s of [] \<Rightarrow> (False, [])
      | c # rest \<Rightarrow> if c = CHR ''-'' then (True, rest) else if c = CHR ''+'' then (False, rest)
                    else (False, s))"

definition take_digits :: "string \<Rightarrow> string \<times> string" where
  "take_digits s = (takeWhile isdigit s, dropWhile isdigit s)"

definition signed :: "bool \<Rightarrow> nat \<Rightarrow> int" where
  "signed negative n = (if negative then - int n else int n)"

section \<open>strtoll\<close>

record 'a conversion =
  conv_value :: 'a
  conv_end :: string
  conv_erange :: bool

text \<open>\<open>strtoll(s, &end, 10)\<close>: without digits the end is \<open>s\<close> itself.\<close>

definition strtoll :: "string \<Rightarrow> int conversion" where
  "strtoll s =
     (let (negative, after_sign) = take_sign (skip_spaces s);
          (digits, rest) = take_digits after_sign;
          v = signed negative (decimal_value digits)
      in if digits = [] then \<lparr>conv_value = 0, conv_end = s, conv_erange = False\<rparr>
         else if v > int64_max then \<lparr>conv_value = int64_max, conv_end = rest, conv_erange = True\<rparr>
         else if v < int64_min then \<lparr>conv_value = int64_min, conv_end = rest, conv_erange = True\<rparr>
         else \<lparr>conv_value = v, conv_end = rest, conv_erange = False\<rparr>)"

section \<open>strtod\<close>

text \<open>Matching a word without regard to case; the pattern is in lower case.\<close>

definition to_lower :: "char \<Rightarrow> char" where
  "to_lower c = (if c \<in> set ''ABCDEFGHIJKLMNOPQRSTUVWXYZ'' then char_of (code_of c + 32) else c)"

definition starts_with_word :: "string \<Rightarrow> string \<Rightarrow> bool" where
  "starts_with_word word s \<longleftrightarrow> map to_lower (take (length word) s) = word"

text \<open>The fraction digits after a decimal point, if there is one.\<close>

definition take_fraction :: "(char \<Rightarrow> bool) \<Rightarrow> string \<Rightarrow> string \<times> string" where
  "take_fraction is_digit s =
     (case s of c # rest \<Rightarrow> if c = CHR ''.'' then (takeWhile is_digit rest, dropWhile is_digit rest)
                            else ([], s)
      | [] \<Rightarrow> ([], s))"

text \<open>An exponent, if the mark is followed by an optional sign and a digit.\<close>

definition take_exponent :: "char \<Rightarrow> string \<Rightarrow> int \<times> string" where
  "take_exponent mark s =
     (case s of [] \<Rightarrow> (0, s)
      | c # rest \<Rightarrow>
          if to_lower c = mark
          then (let (negative, after_sign) = take_sign rest; (digits, tail) = take_digits after_sign
                in if digits = [] then (0, s) else (signed negative (decimal_value digits), tail))
          else (0, s))"

text \<open>
  The double nearest to \<open>m b\<^sup>e\<close>, and whether \<open>errno\<close> becomes \<open>ERANGE\<close>: the result
  overflows, or it is tiny (below the least normal number even after rounding to
  53 bits) and not exact.
\<close>

definition scaled_round :: "bool \<Rightarrow> nat \<Rightarrow> nat \<Rightarrow> int \<Rightarrow> f64 \<times> bool" where
  "scaled_round negative m b e =
     (let p = m * b ^ nat e; q = b ^ nat (- e);
          v = f64_round negative p q;
          tiny = 0 < p \<and> p * 2 ^ 1076 < (2 ^ 54 - 1) * q;
          exact = (p * 2 ^ 1074 mod q = 0)
      in (v, \<not> isfinite v \<or> tiny \<and> \<not> exact))"

definition isxdigit :: "char \<Rightarrow> bool" where
  "isxdigit c \<longleftrightarrow> c \<in> set ''0123456789abcdefABCDEF''"

definition hex_digit_of :: "char \<Rightarrow> nat" where
  "hex_digit_of c = (if isdigit c then digit_of c else code_of (to_lower c) - 87)"

definition hex_value :: "string \<Rightarrow> nat" where
  "hex_value ds = foldl (\<lambda>n c. 16 * n + hex_digit_of c) 0 ds"

definition strtod_decimal :: "bool \<Rightarrow> string \<Rightarrow> f64 conversion option" where
  "strtod_decimal negative s =
     (let (whole, s1) = take_digits s;
          (fraction, s2) = take_fraction isdigit s1;
          (e, s3) = take_exponent CHR ''e'' s2
      in if whole = [] \<and> fraction = [] then None
         else let (v, erange) = scaled_round negative (decimal_value (whole @ fraction)) 10
                                  (e - int (length fraction))
              in Some \<lparr>conv_value = v, conv_end = s3, conv_erange = erange\<rparr>)"

definition strtod_hex :: "bool \<Rightarrow> string \<Rightarrow> f64 conversion option" where
  "strtod_hex negative s =
     (let (whole, s1) = (takeWhile isxdigit s, dropWhile isxdigit s);
          (fraction, s2) = take_fraction isxdigit s1;
          (e, s3) = take_exponent CHR ''p'' s2
      in if whole = [] \<and> fraction = [] then None
         else let (v, erange) = scaled_round negative (hex_value (whole @ fraction)) 2
                                  (e - 4 * int (length fraction))
              in Some \<lparr>conv_value = v, conv_end = s3, conv_erange = erange\<rparr>)"

text \<open>After \<open>nan\<close>, a parenthesised sequence of letters, digits and underscores.\<close>

definition nan_char :: "char \<Rightarrow> bool" where
  "nan_char c \<longleftrightarrow> isdigit c \<or> c = CHR ''_'' \<or> to_lower c \<in> set ''abcdefghijklmnopqrstuvwxyz''"

definition skip_nan_tag :: "string \<Rightarrow> string" where
  "skip_nan_tag s =
     (case s of c # rest \<Rightarrow>
        if c = CHR ''('' then
          (case dropWhile nan_char rest of c' # tail \<Rightarrow> if c' = CHR '')'' then tail else s | [] \<Rightarrow> s)
        else s
      | [] \<Rightarrow> s)"

definition strtod :: "string \<Rightarrow> f64 conversion" where
  "strtod s =
     (let (negative, t) = take_sign (skip_spaces s);
          at_end = (\<lambda>v rest. \<lparr>conv_value = v, conv_end = rest, conv_erange = False\<rparr>)
      in if starts_with_word ''infinity'' t then at_end (F_Inf negative) (drop 8 t)
         else if starts_with_word ''inf'' t then at_end (F_Inf negative) (drop 3 t)
         else if starts_with_word ''nan'' t then at_end F_NaN (skip_nan_tag (drop 3 t))
         else if starts_with_word ''0x'' t
         then (case strtod_hex negative (drop 2 t) of
                 Some r \<Rightarrow> r
               | None \<Rightarrow> at_end (F_Fin negative 0 0) (drop 1 t))
         else (case strtod_decimal negative t of
                 Some r \<Rightarrow> r
               | None \<Rightarrow> at_end (F_Fin False 0 0) s))"

section \<open>Lines\<close>

lemma tl_dropWhile_shorter: "s \<noteq> [] \<Longrightarrow> length (tl (dropWhile P s)) < length s"
proof -
  assume "s \<noteq> []"
  have "length (tl (dropWhile P s)) \<le> length s - 1"
    using length_dropWhile_le [of P s] by simp
  also have "length s - 1 < length s"
    using \<open>s \<noteq> []\<close> by simp
  finally show ?thesis .
qed

text \<open>
  The lines a \<open>while (std::getline(stream, line))\<close> loop sees: a last line without
  newline counts when it is not empty.
\<close>

function getlines :: "string \<Rightarrow> string list" where
  "getlines s =
     (if s = [] then []
      else if LF \<notin> set s then [s]
      else takeWhile (\<lambda>c. c \<noteq> LF) s # getlines (tl (dropWhile (\<lambda>c. c \<noteq> LF) s)))"
  by auto
termination
proof (relation "measure length")
  fix s :: string
  assume "s \<noteq> []"
  then show "(tl (dropWhile (\<lambda>c. c \<noteq> LF) s), s) \<in> measure length"
    by (simp add: tl_dropWhile_shorter del: length_tl)
qed simp

declare getlines.simps [simp del]

section \<open>Extraction from a string stream\<close>

text \<open>
  The state of a \<open>std::istringstream\<close> that has not failed is the text not yet
  extracted.  \<open>>>\<close> skips white space first; an extraction that fails is \<open>None\<close>.
\<close>

definition extract_word :: "string \<Rightarrow> (string \<times> string) option" where
  "extract_word s =
     (let t = skip_spaces s
      in if t = [] then None
         else Some (takeWhile (\<lambda>c. \<not> isspace c) t, dropWhile (\<lambda>c. \<not> isspace c) t))"

definition extract_int64 :: "string \<Rightarrow> (int \<times> string) option" where
  "extract_int64 s =
     (let (negative, after_sign) = take_sign (skip_spaces s);
          (digits, rest) = take_digits after_sign;
          v = signed negative (decimal_value digits)
      in if digits = [] \<or> v > int64_max \<or> v < int64_min then None else Some (v, rest))"

text \<open>
  Extracting a \<open>double\<close>: the longest run of characters that may continue a decimal
  number is taken (an exponent mark only after a digit, a sign only right after
  it), and it has to be a number as a whole and not too large.
\<close>

definition scan_float :: "string \<Rightarrow> string \<times> string" where
  "scan_float s =
     (let (negative, s0) = take_sign s;
          (whole, s1) = take_digits s0;
          (point, s2) = (case s1 of c # r \<Rightarrow> if c = CHR ''.'' then ([c], r) else ([], s1) | [] \<Rightarrow> ([], s1));
          (fraction, s3) = (if point = [] then ([], s2) else take_digits s2);
          (mark, s4) = (case s3 of c # r \<Rightarrow>
              if to_lower c = CHR ''e'' \<and> (whole \<noteq> [] \<or> fraction \<noteq> []) then ([c], r) else ([], s3)
            | [] \<Rightarrow> ([], s3));
          (sign, s5) = (if mark = [] then ([], s4) else
              (case s4 of c # r \<Rightarrow> if c = CHR ''+'' \<or> c = CHR ''-'' then ([c], r) else ([], s4)
               | [] \<Rightarrow> ([], s4)));
          (digits, s6) = (if mark = [] then ([], s5) else take_digits s5)
      in ((if s0 = s then [] else [hd s]) @ whole @ point @ fraction @ mark @ sign @ digits, s6))"

definition extract_double :: "string \<Rightarrow> (f64 \<times> string) option" where
  "extract_double s =
     (let (text, rest) = scan_float (skip_spaces s);
          r = strtod text
      in if text = [] \<or> conv_end r \<noteq> [] \<or> \<not> isfinite (conv_value r) then None
         else Some (conv_value r, rest))"

text \<open>\<open>stream >> std::ws\<close> reaches the end.\<close>

definition only_spaces :: "string \<Rightarrow> bool" where
  "only_spaces s \<longleftrightarrow> skip_spaces s = []"

end
