(* ===== verification/Config.thy ===== *)
theory Config
  imports C_Strings Safety_Session "HOL-Library.Monad_Syntax"
begin

text \<open>
  The runtime configuration: \<open>src/config.cpp\<close> and \<open>config.hpp\<close>, and the conversion
  to the session's configuration of \<open>wheeltec_vcu_cli.cpp\<close>.  The configuration file
  is a parameter: \<open>None\<close> when it cannot be opened, otherwise its text up to the
  first read error and whether the end was reached.
\<close>

section \<open>Data\<close>

record runtime_config =
  rc_device_path :: string
  rc_max_linear_speed_mps :: f64
  rc_max_abs_yaw_rate_radps :: f64
  rc_reconnect_interval_ms :: int
  rc_command_timeout_ms :: int
  rc_feedback_timeout_ms :: int
  rc_transmit_period_ms :: int
  rc_fresh_commands_required :: u32
  rc_write_timeout_ms :: int
  rc_zero_retry_interval_ms :: int
  rc_zero_retry_attempts :: u32
  rc_min_selected_speed_mps :: f64
  rc_initial_selected_speed_mps :: f64
  rc_max_selected_speed_mps :: f64
  rc_speed_step_mps :: f64
  rc_curvature_inv_m :: f64
  rc_release_timeout_ms :: int
  rc_command_rate_hz :: f64

definition defaultRuntimeConfig :: runtime_config where
  "defaultRuntimeConfig =
     \<lparr>rc_device_path = [], rc_max_linear_speed_mps = F_NaN, rc_max_abs_yaw_rate_radps = F_NaN,
      rc_reconnect_interval_ms = 0, rc_command_timeout_ms = 0, rc_feedback_timeout_ms = 0,
      rc_transmit_period_ms = 0, rc_fresh_commands_required = 0, rc_write_timeout_ms = 0,
      rc_zero_retry_interval_ms = 0, rc_zero_retry_attempts = 0,
      rc_min_selected_speed_mps = F_NaN, rc_initial_selected_speed_mps = F_NaN,
      rc_max_selected_speed_mps = F_NaN, rc_speed_step_mps = F_NaN, rc_curvature_inv_m = F_NaN,
      rc_release_timeout_ms = 0, rc_command_rate_hz = F_NaN\<rparr>"

datatype config_error =
    Cfg_kNone | Cfg_kFileOpen | Cfg_kSyntax | Cfg_kDuplicateKey | Cfg_kUnknownKey
  | Cfg_kMissingKey | Cfg_kInvalidValue

record config_result =
  cr_error :: config_error
  cr_config :: runtime_config
  cr_message :: string

definition cr_ok :: "config_result \<Rightarrow> bool" where
  "cr_ok r \<longleftrightarrow> cr_error r = Cfg_kNone"

fun configErrorName :: "config_error \<Rightarrow> string" where
  "configErrorName Cfg_kNone = ''none''"
| "configErrorName Cfg_kFileOpen = ''file_open''"
| "configErrorName Cfg_kSyntax = ''syntax''"
| "configErrorName Cfg_kDuplicateKey = ''duplicate_key''"
| "configErrorName Cfg_kUnknownKey = ''unknown_key''"
| "configErrorName Cfg_kMissingKey = ''missing_key''"
| "configErrorName Cfg_kInvalidValue = ''invalid_value''"

section \<open>File-local helpers\<close>

definition config_space :: "char \<Rightarrow> bool" where
  "config_space c \<longleftrightarrow> c \<in> {CHR 0x20, CHR 0x09, CHR 0x0D, CHR 0x0A}"

definition trim :: "string \<Rightarrow> string" where
  "trim input = rev (dropWhile config_space (rev (dropWhile config_space input)))"

definition failure :: "config_error \<Rightarrow> string \<Rightarrow> config_result" where
  "failure err message =
     \<lparr>cr_error = err, cr_config = defaultRuntimeConfig, cr_message = message\<rparr>"

definition parseDoubleStrict :: "string \<Rightarrow> f64 option" where
  "parseDoubleStrict text =
     (if text = [] then None
      else let s = c_str text; r = strtod s
           in if conv_end r = s \<or> conv_end r \<noteq> [] \<or> conv_erange r then None
              else Some (conv_value r))"

definition parseInt64Strict :: "string \<Rightarrow> int option" where
  "parseInt64Strict text =
     (if text = [] then None
      else let s = c_str text; r = strtoll s
           in if conv_end r = s \<or> conv_end r \<noteq> [] \<or> conv_erange r then None
              else Some (conv_value r))"

definition assignUint32 :: "(string \<rightharpoonup> string) \<Rightarrow> string \<Rightarrow> u32 option" where
  "assignUint32 values key =
     (case values key of
        None \<Rightarrow> None
      | Some text \<Rightarrow>
          (case parseInt64Strict text of
             None \<Rightarrow> None
           | Some parsed \<Rightarrow>
               if parsed < 0 \<or> parsed > 4294967295 then None else Some (word_of_int parsed)))"

definition finitePositive :: "f64 \<Rightarrow> bool" where
  "finitePositive value \<longleftrightarrow> isfinite value \<and> f64_less f64_zero value"

text \<open>
  The loop of \<open>validDevicePath\<close>, on the part of the path from \<open>offset\<close> on.
\<close>

function path_components_ok :: "string \<Rightarrow> bool" where
  "path_components_ok rest =
     (if rest = [] then True
      else let component = takeWhile (\<lambda>c. c \<noteq> CHR ''/'') rest;
               from_separator = dropWhile (\<lambda>c. c \<noteq> CHR ''/'') rest
           in if component = [] \<or> component = ''.'' \<or> component = ''..'' then False
              else if from_separator = [] then True
              else path_components_ok (tl from_separator))"
  by auto
termination
proof (relation "measure length")
  fix rest x y :: string
  assume "rest \<noteq> []" "y = dropWhile (\<lambda>c. c \<noteq> CHR ''/'') rest"
  then show "(tl y, rest) \<in> measure length"
    by (simp add: tl_dropWhile_shorter del: length_tl)
qed simp

declare path_components_ok.simps [simp del]

definition validDevicePath :: "string \<Rightarrow> bool" where
  "validDevicePath path \<longleftrightarrow>
     \<not> (length path \<le> 5 \<or> take 5 path \<noteq> ''/dev/'' \<or> last path = CHR ''/'')
     \<and> path_components_ok (drop 5 path)"

section \<open>Validation\<close>

definition kMaximumWatchdogMilliseconds :: int where
  "kMaximumWatchdogMilliseconds = 60000"

definition validateRuntimeConfig :: "runtime_config \<Rightarrow> bool \<Rightarrow> config_result" where
  "validateRuntimeConfig cfg require_device_path =
     (if require_device_path \<and> \<not> validDevicePath (rc_device_path cfg) then
        failure Cfg_kInvalidValue ''serial.device must be a direct, non-traversing /dev path''
      else if rc_device_path cfg \<noteq> [] \<and> \<not> validDevicePath (rc_device_path cfg) then
        failure Cfg_kInvalidValue ''serial.device is not a valid direct /dev path''
      else if \<not> isfinite (rc_max_linear_speed_mps cfg)
              \<or> f64_le (rc_max_linear_speed_mps cfg) f64_zero
              \<or> f64_le (f64_of_int 6) (rc_max_linear_speed_mps cfg) then
        failure Cfg_kInvalidValue
          ''limits.max_linear_speed_mps must be finite, greater than 0, and less than 6.0''
      else if \<not> finitePositive (rc_max_abs_yaw_rate_radps cfg)
              \<or> f64_less (f64_decimal 32767 3) (rc_max_abs_yaw_rate_radps cfg) then
        failure Cfg_kInvalidValue
          ''limits.max_abs_yaw_rate_radps must fit the signed int16 wire field''
      else if rc_reconnect_interval_ms cfg < 10 \<or> rc_reconnect_interval_ms cfg > 60000 then
        failure Cfg_kInvalidValue ''serial.reconnect_interval_ms must be in [10, 60000]''
      else if rc_command_timeout_ms cfg \<le> 0
              \<or> rc_command_timeout_ms cfg > kMaximumWatchdogMilliseconds
              \<or> rc_feedback_timeout_ms cfg \<le> 0
              \<or> rc_feedback_timeout_ms cfg > kMaximumWatchdogMilliseconds
              \<or> rc_transmit_period_ms cfg \<le> 0
              \<or> rc_transmit_period_ms cfg > kMaximumWatchdogMilliseconds
              \<or> rc_write_timeout_ms cfg \<le> 0
              \<or> rc_write_timeout_ms cfg > kMaximumWatchdogMilliseconds
              \<or> rc_zero_retry_interval_ms cfg \<le> 0
              \<or> rc_zero_retry_interval_ms cfg > kMaximumWatchdogMilliseconds
              \<or> rc_fresh_commands_required cfg = 0
              \<or> rc_fresh_commands_required cfg > 100
              \<or> rc_zero_retry_attempts cfg = 0 \<or> rc_zero_retry_attempts cfg > 20 then
        failure Cfg_kInvalidValue ''watchdog values must be positive and bounded''
      else if rc_write_timeout_ms cfg > rc_transmit_period_ms cfg
              \<or> rc_transmit_period_ms cfg \<ge> rc_command_timeout_ms cfg
              \<or> rc_transmit_period_ms cfg \<ge> rc_feedback_timeout_ms cfg then
        failure Cfg_kInvalidValue
          ''watchdog timing order must satisfy write <= tx < command and feedback timeouts''
      else if \<not> finitePositive (rc_min_selected_speed_mps cfg)
              \<or> \<not> finitePositive (rc_initial_selected_speed_mps cfg)
              \<or> \<not> finitePositive (rc_max_selected_speed_mps cfg)
              \<or> f64_less (rc_initial_selected_speed_mps cfg) (rc_min_selected_speed_mps cfg)
              \<or> f64_less (rc_max_selected_speed_mps cfg) (rc_initial_selected_speed_mps cfg)
              \<or> f64_less (rc_max_linear_speed_mps cfg) (rc_max_selected_speed_mps cfg) then
        failure Cfg_kInvalidValue
          ''teleop selected speeds must be ordered and within the immutable speed limit''
      else if \<not> finitePositive (rc_speed_step_mps cfg)
              \<or> f64_less (rc_max_selected_speed_mps cfg) (rc_speed_step_mps cfg)
              \<or> \<not> finitePositive (rc_curvature_inv_m cfg)
              \<or> \<not> finitePositive (rc_command_rate_hz cfg)
              \<or> f64_less (f64_of_int 1000) (rc_command_rate_hz cfg)
              \<or> rc_release_timeout_ms cfg \<le> 0
              \<or> rc_release_timeout_ms cfg > rc_command_timeout_ms cfg then
        failure Cfg_kInvalidValue ''teleop step, curvature, rate, or release timeout is invalid''
      else if f64_less (rc_max_abs_yaw_rate_radps cfg)
                (f64_mul (rc_max_selected_speed_mps cfg) (rc_curvature_inv_m cfg)) then
        failure Cfg_kInvalidValue ''teleop turn command would exceed the configured yaw-rate limit''
      else if f64_le (f64_of_int (rc_command_timeout_ms cfg))
                (f64_div (f64_of_int 1000) (rc_command_rate_hz cfg)) then
        failure Cfg_kInvalidValue ''teleop command period must be shorter than the command watchdog''
      else \<lparr>cr_error = Cfg_kNone, cr_config = cfg, cr_message = []\<rparr>)"

section \<open>Loading\<close>

text \<open>The known keys in the order of \<open>std::set\<close>.\<close>

definition known_keys :: "string list" where
  "known_keys =
     [''limits.max_abs_yaw_rate_radps'', ''limits.max_linear_speed_mps'', ''serial.device'',
      ''serial.reconnect_interval_ms'', ''teleop.command_rate_hz'', ''teleop.curvature_inv_m'',
      ''teleop.initial_selected_speed_mps'', ''teleop.max_selected_speed_mps'',
      ''teleop.min_selected_speed_mps'', ''teleop.release_timeout_ms'', ''teleop.speed_step_mps'',
      ''watchdog.command_timeout_ms'', ''watchdog.feedback_timeout_ms'',
      ''watchdog.fresh_commands_required'', ''watchdog.transmit_period_ms'',
      ''watchdog.write_timeout_ms'', ''watchdog.zero_retry_attempts'',
      ''watchdog.zero_retry_interval_ms'']"

definition known_sections :: "string list" where
  "known_sections = [''limits'', ''serial'', ''teleop'', ''watchdog'']"

fun string_of_nat :: "nat \<Rightarrow> string" where
  "string_of_nat n =
     (if n < 10 then [char_of (48 + n)] else string_of_nat (n div 10) @ [char_of (48 + n mod 10)])"

declare string_of_nat.simps [simp del]

record config_scan =
  cs_values :: "string \<rightharpoonup> string"
  cs_seen_sections :: "string list"
  cs_section :: string
  cs_line_number :: nat

definition emptyScan :: config_scan where
  "emptyScan = \<lparr>cs_values = Map.empty, cs_seen_sections = [], cs_section = [], cs_line_number = 0\<rparr>"

text \<open>One pass of the \<open>getline\<close> loop: an error result, or the new state.\<close>

definition scan_line :: "config_scan \<Rightarrow> string \<Rightarrow> config_result + config_scan" where
  "scan_line s line =
     (let s = s\<lparr>cs_line_number := cs_line_number s + 1\<rparr>;
          cleaned = trim line
      in if cleaned = [] \<or> hd cleaned = CHR ''#'' \<or> hd cleaned = CHR '';'' then Inr s
         else if hd cleaned = CHR ''['' \<and> last cleaned = CHR '']'' then
          (let section = trim (take (length cleaned - 2) (drop 1 cleaned));
               s = s\<lparr>cs_section := section\<rparr>
           in if section = [] then
                Inl (failure Cfg_kSyntax (''empty section at line '' @ string_of_nat (cs_line_number s)))
              else if section \<notin> set known_sections then
                Inl (failure Cfg_kUnknownKey (''unknown configuration section: '' @ section))
              else if section \<in> set (cs_seen_sections s) then
                Inl (failure Cfg_kDuplicateKey (''duplicate configuration section: '' @ section))
              else Inr (s\<lparr>cs_seen_sections := section # cs_seen_sections s\<rparr>))
         else if CHR ''='' \<notin> set cleaned \<or> cs_section s = [] then
           Inl (failure Cfg_kSyntax
             (''expected sectioned key=value at line '' @ string_of_nat (cs_line_number s)))
         else
          (let key = cs_section s @ ''.'' @ trim (takeWhile (\<lambda>c. c \<noteq> CHR ''='') cleaned);
               value = trim (tl (dropWhile (\<lambda>c. c \<noteq> CHR ''='') cleaned))
           in if key \<notin> set known_keys then
                Inl (failure Cfg_kUnknownKey (''unknown configuration key: '' @ key))
              else if cs_values s key \<noteq> None then
                Inl (failure Cfg_kDuplicateKey (''duplicate configuration key: '' @ key))
              else Inr (s\<lparr>cs_values := (cs_values s)(key \<mapsto> value)\<rparr>)))"

fun scan_lines :: "config_scan \<Rightarrow> string list \<Rightarrow> config_result + config_scan" where
  "scan_lines s [] = Inr s"
| "scan_lines s (line # rest) =
     (case scan_line s line of Inl err \<Rightarrow> Inl err | Inr s \<Rightarrow> scan_lines s rest)"

definition value_of :: "(string \<rightharpoonup> string) \<Rightarrow> string \<Rightarrow> string" where
  "value_of values key = (case values key of None \<Rightarrow> [] | Some v \<Rightarrow> v)"

text \<open>The chain of conversions; \<open>None\<close> when one of them is malformed.\<close>

definition convertValues :: "(string \<rightharpoonup> string) \<Rightarrow> runtime_config option" where
  "convertValues values =
     do {
       let number = (\<lambda>key. parseDoubleStrict (value_of values key));
       let integer = (\<lambda>key. parseInt64Strict (value_of values key));
       max_linear_speed \<leftarrow> number ''limits.max_linear_speed_mps'';
       max_abs_yaw_rate \<leftarrow> number ''limits.max_abs_yaw_rate_radps'';
       reconnect_interval \<leftarrow> integer ''serial.reconnect_interval_ms'';
       command_timeout \<leftarrow> integer ''watchdog.command_timeout_ms'';
       feedback_timeout \<leftarrow> integer ''watchdog.feedback_timeout_ms'';
       transmit_period \<leftarrow> integer ''watchdog.transmit_period_ms'';
       fresh_commands \<leftarrow> assignUint32 values ''watchdog.fresh_commands_required'';
       write_timeout \<leftarrow> integer ''watchdog.write_timeout_ms'';
       zero_retry_interval \<leftarrow> integer ''watchdog.zero_retry_interval_ms'';
       zero_retry_attempts \<leftarrow> assignUint32 values ''watchdog.zero_retry_attempts'';
       min_selected \<leftarrow> number ''teleop.min_selected_speed_mps'';
       initial_selected \<leftarrow> number ''teleop.initial_selected_speed_mps'';
       max_selected \<leftarrow> number ''teleop.max_selected_speed_mps'';
       speed_step \<leftarrow> number ''teleop.speed_step_mps'';
       curvature \<leftarrow> number ''teleop.curvature_inv_m'';
       release_timeout \<leftarrow> integer ''teleop.release_timeout_ms'';
       command_rate \<leftarrow> number ''teleop.command_rate_hz'';
       Some \<lparr>rc_device_path = value_of values ''serial.device'',
             rc_max_linear_speed_mps = max_linear_speed,
             rc_max_abs_yaw_rate_radps = max_abs_yaw_rate,
             rc_reconnect_interval_ms = reconnect_interval,
             rc_command_timeout_ms = command_timeout, rc_feedback_timeout_ms = feedback_timeout,
             rc_transmit_period_ms = transmit_period,
             rc_fresh_commands_required = fresh_commands, rc_write_timeout_ms = write_timeout,
             rc_zero_retry_interval_ms = zero_retry_interval,
             rc_zero_retry_attempts = zero_retry_attempts,
             rc_min_selected_speed_mps = min_selected,
             rc_initial_selected_speed_mps = initial_selected,
             rc_max_selected_speed_mps = max_selected, rc_speed_step_mps = speed_step,
             rc_curvature_inv_m = curvature, rc_release_timeout_ms = release_timeout,
             rc_command_rate_hz = command_rate\<rparr>
     }"

definition loadRuntimeConfig ::
    "(string \<Rightarrow> (string \<times> bool) option) \<Rightarrow> string \<Rightarrow> bool \<Rightarrow> config_result" where
  "loadRuntimeConfig files path require_device_path =
     (case files path of
        None \<Rightarrow> failure Cfg_kFileOpen (''cannot open configuration: '' @ path)
      | Some (text, at_eof) \<Rightarrow>
          (case scan_lines emptyScan (getlines text) of
             Inl err \<Rightarrow> err
           | Inr s \<Rightarrow>
               if \<not> at_eof
               then failure Cfg_kFileOpen (''failed while reading configuration: '' @ path)
               else
                (case find (\<lambda>key. cs_values s key = None) known_keys of
                   Some key \<Rightarrow>
                     failure Cfg_kMissingKey (''missing required configuration key: '' @ key)
                 | None \<Rightarrow>
                     (case convertValues (cs_values s) of
                        None \<Rightarrow> failure Cfg_kInvalidValue
                          ''one or more numeric configuration values are malformed''
                      | Some cfg \<Rightarrow> validateRuntimeConfig cfg require_device_path))))"

section \<open>The configuration of the session\<close>

definition millisecondsToNanoseconds :: "int \<Rightarrow> int" where
  "millisecondsToNanoseconds milliseconds = milliseconds * 1000000"

definition makeSafetyConfig :: "runtime_config \<Rightarrow> safety_config" where
  "makeSafetyConfig cfg =
     \<lparr>safety_config.max_linear_speed_mps = rc_max_linear_speed_mps cfg,
      max_abs_yaw_rate_radps = rc_max_abs_yaw_rate_radps cfg,
      max_command_age_ns = millisecondsToNanoseconds (rc_command_timeout_ms cfg),
      feedback_timeout_ns = millisecondsToNanoseconds (rc_feedback_timeout_ms cfg),
      transmit_period_ns = millisecondsToNanoseconds (rc_transmit_period_ms cfg),
      write_timeout_ns = millisecondsToNanoseconds (rc_write_timeout_ms cfg),
      zero_retry_interval_ns = millisecondsToNanoseconds (rc_zero_retry_interval_ms cfg),
      maximum_zero_attempts = rc_zero_retry_attempts cfg,
      fresh_commands_required = rc_fresh_commands_required cfg\<rparr>"

end
