(* ===== verification/Config_Properties.thy ===== *)
theory Config_Properties
  imports Config Safety_Invariant
begin

text \<open>
  The properties of the runtime configuration: what a configuration file has to
  be, declaratively; what an accepted configuration guarantees to the session and
  to the transport.
\<close>

section \<open>The lines of a configuration file\<close>

text \<open>The reading of one line, by itself: what it is and what it says.\<close>

datatype config_line = Skipped | Header string | Assignment string string | Garbage

definition classify_line :: "string \<Rightarrow> config_line" where
  "classify_line line =
     (let c = trim line
      in if c = [] \<or> hd c = CHR ''#'' \<or> hd c = CHR '';'' then Skipped
         else if hd c = CHR ''['' \<and> last c = CHR '']'' then Header (trim (take (length c - 2) (drop 1 c)))
         else if CHR ''='' \<in> set c
         then Assignment (trim (takeWhile (\<lambda>c. c \<noteq> CHR ''='') c)) (trim (tl (dropWhile (\<lambda>c. c \<noteq> CHR ''='') c)))
         else Garbage)"

fun headers :: "config_line list \<Rightarrow> string list" where
  "headers [] = []"
| "headers (Header h # ls) = h # headers ls"
| "headers (_ # ls) = headers ls"

text \<open>The assignments, each with its key qualified by the section it stands in.\<close>

fun assignments :: "string \<Rightarrow> config_line list \<Rightarrow> (string \<times> string) list" where
  "assignments section [] = []"
| "assignments section (Header h # ls) = assignments h ls"
| "assignments section (Assignment k v # ls) = (section @ ''.'' @ k, v) # assignments section ls"
| "assignments section (_ # ls) = assignments section ls"

definition well_formed :: "config_line list \<Rightarrow> bool" where
  "well_formed ls \<longleftrightarrow>
     Garbage \<notin> set ls \<and> distinct (headers ls) \<and> set (headers ls) \<subseteq> set known_sections
     \<and> distinct (map fst (assignments [] ls)) \<and> set (map fst (assignments [] ls)) \<subseteq> set known_keys"

lemma no_dot_key: "''.'' @ k \<notin> set known_keys"
  by (simp add: known_keys_def)

lemma no_empty_section: "[] \<notin> set known_sections"
  by (simp add: known_sections_def)

lemma scan_line_classified:
  "scan_line s line =
     (let s = s\<lparr>cs_line_number := cs_line_number s + 1\<rparr>
      in case classify_line line of
           Skipped \<Rightarrow> Inr s
         | Header section \<Rightarrow>
            (let s = s\<lparr>cs_section := section\<rparr>
             in if section = [] then
                  Inl (failure Cfg_kSyntax (''empty section at line '' @ string_of_nat (cs_line_number s)))
                else if section \<notin> set known_sections then
                  Inl (failure Cfg_kUnknownKey (''unknown configuration section: '' @ section))
                else if section \<in> set (cs_seen_sections s) then
                  Inl (failure Cfg_kDuplicateKey (''duplicate configuration section: '' @ section))
                else Inr (s\<lparr>cs_seen_sections := section # cs_seen_sections s\<rparr>))
         | Garbage \<Rightarrow> Inl (failure Cfg_kSyntax
             (''expected sectioned key=value at line '' @ string_of_nat (cs_line_number s)))
         | Assignment k v \<Rightarrow>
            (if cs_section s = [] then Inl (failure Cfg_kSyntax
               (''expected sectioned key=value at line '' @ string_of_nat (cs_line_number s)))
             else let key = cs_section s @ ''.'' @ k
              in if key \<notin> set known_keys then
                  Inl (failure Cfg_kUnknownKey (''unknown configuration key: '' @ key))
                else if cs_values s key \<noteq> None then
                  Inl (failure Cfg_kDuplicateKey (''duplicate configuration key: '' @ key))
                else Inr (s\<lparr>cs_values := (cs_values s)(key \<mapsto> v)\<rparr>)))"
  by (simp add: scan_line_def classify_line_def Let_def)

lemma scan_lines_iff:
  assumes "cs_section s = [] \<or> cs_section s \<in> set known_sections"
  shows "(\<exists>s'. scan_lines s lines = Inr s') \<longleftrightarrow>
     (let ls = map classify_line lines; as = assignments (cs_section s) ls
      in Garbage \<notin> set ls \<and> distinct (headers ls) \<and> set (headers ls) \<subseteq> set known_sections
         \<and> set (headers ls) \<inter> set (cs_seen_sections s) = {}
         \<and> distinct (map fst as) \<and> set (map fst as) \<subseteq> set known_keys
         \<and> set (map fst as) \<inter> dom (cs_values s) = {})"
  using assms
proof (induction lines arbitrary: s)
  case Nil
  then show ?case by simp
next
  case (Cons line lines)
  show ?case
  proof (cases "classify_line line")
    case Skipped
    then show ?thesis
      using Cons.IH [of "s\<lparr>cs_line_number := cs_line_number s + 1\<rparr>"] Cons.prems
      by (simp add: scan_line_classified Let_def)
  next
    case (Header h)
    then show ?thesis
      using Cons.IH [of "s\<lparr>cs_line_number := cs_line_number s + 1, cs_section := h,
          cs_seen_sections := h # cs_seen_sections s\<rparr>"] Cons.prems no_empty_section
      by (auto simp: scan_line_classified Let_def)
  next
    case (Assignment k v)
    define key where "key = cs_section s @ ''.'' @ k"
    define s1 where "s1 = s\<lparr>cs_line_number := cs_line_number s + 1, cs_values := (cs_values s)(key \<mapsto> v)\<rparr>"
    have step: "(\<exists>s'. scan_lines s (line # lines) = Inr s') \<longleftrightarrow>
        cs_section s \<noteq> [] \<and> key \<in> set known_keys \<and> key \<notin> dom (cs_values s)
        \<and> (\<exists>s'. scan_lines s1 lines = Inr s')"
      using Assignment by (auto simp: scan_line_classified Let_def key_def s1_def)
    have tail: "cs_section s1 = cs_section s" "cs_seen_sections s1 = cs_seen_sections s"
        "dom (cs_values s1) = insert key (dom (cs_values s))"
      by (simp_all add: s1_def)
    have "key \<in> set known_keys \<longrightarrow> cs_section s \<noteq> []"
      using no_dot_key [of k] by (auto simp: key_def)
    define as where "as = assignments (cs_section s) (map classify_line lines)"
    have as: "assignments (cs_section s) (map classify_line (line # lines)) = (key, v) # as"
      using Assignment by (simp add: as_def key_def)
    have hs: "headers (map classify_line (line # lines)) = headers (map classify_line lines)"
        "Garbage \<in> set (map classify_line (line # lines)) \<longleftrightarrow> Garbage \<in> set (map classify_line lines)"
      using Assignment by simp_all
    have sec: "cs_section s1 = [] \<or> cs_section s1 \<in> set known_sections"
      using Cons.prems tail by simp
    note IH = Cons.IH [OF sec, unfolded tail Let_def, folded as_def]
    have goal: "(cs_section s \<noteq> [] \<and> key \<in> set known_keys \<and> key \<notin> dom (cs_values s)
        \<and> (G \<and> D \<and> set (map fst as) \<subseteq> set known_keys \<and> set (map fst as) \<inter> insert key (dom (cs_values s)) = {}))
      \<longleftrightarrow> (G \<and> (key \<notin> set (map fst as) \<and> D) \<and> insert key (set (map fst as)) \<subseteq> set known_keys
            \<and> insert key (set (map fst as)) \<inter> dom (cs_values s) = {})" for G D
      using \<open>key \<in> set known_keys \<longrightarrow> cs_section s \<noteq> []\<close> by blast
    show ?thesis
      unfolding step Let_def as hs IH
      using goal [of "Garbage \<notin> set (map classify_line lines) \<and> distinct (headers (map classify_line lines))
          \<and> set (headers (map classify_line lines)) \<subseteq> set known_sections
          \<and> set (headers (map classify_line lines)) \<inter> set (cs_seen_sections s) = {}" "distinct (map fst as)"]
      by (simp add: conj_assoc)
  next
    case Garbage
    then show ?thesis by (simp add: scan_line_classified Let_def)
  qed
qed

lemma scan_lines_values:
  "\<lbrakk>scan_lines s lines = Inr s'; cs_section s = [] \<or> cs_section s \<in> set known_sections\<rbrakk> \<Longrightarrow>
     cs_values s' = cs_values s ++ map_of (assignments (cs_section s) (map classify_line lines))"
proof (induction lines arbitrary: s)
  case (Cons line lines)
  show ?case
  proof (cases "classify_line line")
    case (Assignment k v)
    define key where "key = cs_section s @ ''.'' @ k"
    define s1 where "s1 = s\<lparr>cs_line_number := cs_line_number s + 1, cs_values := (cs_values s)(key \<mapsto> v)\<rparr>"
    have tail: "scan_lines s1 lines = Inr s'"
      using Cons.prems Assignment
      by (auto simp: scan_line_classified Let_def key_def s1_def split: if_splits)
    have sec: "cs_section s1 = cs_section s"
      by (simp add: s1_def)
    have "set (map fst (assignments (cs_section s) (map classify_line lines))) \<inter> dom (cs_values s1) = {}"
      using scan_lines_iff [of s1 lines] tail Cons.prems(2) by (simp add: sec Let_def)
    then have "key \<notin> dom (map_of (assignments (cs_section s) (map classify_line lines)))"
      by (auto simp: s1_def dom_map_of_conv_image_fst)
    then show ?thesis
      using Cons.IH [OF tail] Cons.prems(2) Assignment
      by (auto simp: sec s1_def key_def [symmetric] map_add_def fun_eq_iff dom_def
          simp del: append_Cons split: option.splits)
  next
    case (Header h)
    then show ?thesis
      using Cons.IH [of "s\<lparr>cs_line_number := cs_line_number s + 1, cs_section := h,
          cs_seen_sections := h # cs_seen_sections s\<rparr>"] Cons.prems
      by (auto simp: scan_line_classified Let_def split: if_splits)
  next
    case Skipped
    then show ?thesis
      using Cons.IH [of "s\<lparr>cs_line_number := cs_line_number s + 1\<rparr>"] Cons.prems
      by (auto simp: scan_line_classified Let_def)
  next
    case Garbage
    then show ?thesis using Cons.prems by (simp add: scan_line_classified Let_def)
  qed
qed simp

lemma scan_empty_iff:
  "(\<exists>s'. scan_lines emptyScan lines = Inr s') \<longleftrightarrow> well_formed (map classify_line lines)"
  using scan_lines_iff [of emptyScan lines] by (simp add: emptyScan_def well_formed_def Let_def)

lemma scan_empty_values:
  "scan_lines emptyScan lines = Inr s' \<Longrightarrow> cs_values s' = map_of (assignments [] (map classify_line lines))"
  using scan_lines_values [of emptyScan lines s'] by (simp add: emptyScan_def)

lemma cr_ok_failure [simp]: "cr_ok (failure err msg) \<longleftrightarrow> err = Cfg_kNone"
  by (simp add: cr_ok_def failure_def)

text \<open>The validation either fails with a message or returns the configuration it was given.\<close>

definition validation_end :: "runtime_config \<Rightarrow> config_result \<Rightarrow> bool" where
  "validation_end cfg r \<longleftrightarrow> cr_ok r \<longrightarrow> cr_config r = cfg"

lemma validation_end_intros:
  "\<lbrakk>validation_end cfg x; validation_end cfg y\<rbrakk> \<Longrightarrow> validation_end cfg (if b then x else y)"
  "validation_end cfg (failure Cfg_kInvalidValue m)"
  "validation_end cfg \<lparr>cr_error = Cfg_kNone, cr_config = cfg, cr_message = []\<rparr>"
  by (simp_all add: validation_end_def)

lemma validate_ok:
  "cr_ok (validateRuntimeConfig cfg require) \<Longrightarrow> cr_config (validateRuntimeConfig cfg require) = cfg"
proof -
  have "validation_end cfg (validateRuntimeConfig cfg require)"
    unfolding validateRuntimeConfig_def by (intro validation_end_intros)
  then show "cr_ok (validateRuntimeConfig cfg require) \<Longrightarrow> ?thesis"
    by (simp add: validation_end_def)
qed

lemma scan_line_error: "scan_line s line = Inl r \<Longrightarrow> \<not> cr_ok r"
  by (auto simp: scan_line_classified Let_def split: config_line.splits if_splits)

lemma scan_lines_error: "scan_lines s lines = Inl r \<Longrightarrow> \<not> cr_ok r"
  by (induction lines arbitrary: s) (auto dest: scan_line_error split: sum.splits)

lemma load_accepts_iff:
  "cr_ok (loadRuntimeConfig files path require)
     \<and> cr_config (loadRuntimeConfig files path require) = cfg
   \<longleftrightarrow> (\<exists>text. files path = Some (text, True)
      \<and> (let ls = map classify_line (getlines text); as = assignments [] ls
         in Garbage \<notin> set ls \<and> distinct (headers ls) \<and> set (headers ls) \<subseteq> set known_sections
            \<and> distinct (map fst as) \<and> set (map fst as) = set known_keys
            \<and> convertValues (map_of as) = Some cfg \<and> cr_ok (validateRuntimeConfig cfg require)))"
    (is "?L \<longleftrightarrow> ?R")
proof (cases "files path")
  case None
  then show ?thesis by (simp add: loadRuntimeConfig_def)
next
  case (Some content)
  obtain body at_eof where content: "content = (body, at_eof)" by fastforce
  define ls where "ls = map classify_line (getlines body)"
  define as where "as = assignments [] ls"
  have rhs: "?R \<longleftrightarrow> at_eof \<and> Garbage \<notin> set ls \<and> distinct (headers ls) \<and> set (headers ls) \<subseteq> set known_sections
      \<and> distinct (map fst as) \<and> set (map fst as) = set known_keys
      \<and> convertValues (map_of as) = Some cfg \<and> cr_ok (validateRuntimeConfig cfg require)"
    unfolding Some content Let_def by (auto simp only: ls_def as_def option.inject prod.inject)
  show ?thesis
  proof (cases "scan_lines emptyScan (getlines body)")
    case (Inl err)
    then have "\<not> well_formed ls"
      using scan_empty_iff [of "getlines body"] by (auto simp: ls_def)
    moreover have "\<not> cr_ok err"
      by (rule scan_lines_error [OF Inl])
    ultimately show ?thesis
      unfolding rhs using Some content Inl
      by (auto simp: loadRuntimeConfig_def well_formed_def as_def)
  next
    case (Inr s)
    then have wf: "well_formed ls"
      using scan_empty_iff [of "getlines body"] by (auto simp: ls_def)
    have vals: "cs_values s = map_of as"
      using scan_empty_values [OF Inr] by (simp add: as_def ls_def)
    have found: "find (\<lambda>key. cs_values s key = None) known_keys = None \<longleftrightarrow> set known_keys \<subseteq> fst ` set as"
      by (auto simp: find_None_iff vals map_of_eq_None_iff)
    have "?L \<longleftrightarrow> at_eof \<and> set known_keys \<subseteq> fst ` set as \<and> convertValues (map_of as) = Some cfg
        \<and> cr_ok (validateRuntimeConfig cfg require)"
      using Some content Inr found
      by (auto simp: loadRuntimeConfig_def vals validate_ok split: option.splits)
    with wf show ?thesis
      unfolding rhs by (auto simp: well_formed_def as_def)
  qed
qed


section \<open>The example configuration\<close>

text \<open>The file \<open>config/wheeltec_vcu_serial.ini\<close>, line by line.\<close>

definition example_lines :: "string list" where
  "example_lines =
     [''# SPDX-License-Identifier: Apache-2.0'',
      ''# Example only. These values are not a hardware capability or safety approval.'',
      '''',
      ''[serial]'',
      ''# Intentionally empty: a physical device must be selected by the operator.'',
      ''device ='',
      ''reconnect_interval_ms = 1000'',
      '''',
      ''[limits]'',
      ''# Explicit conservative example. The library has no 0.50 m/s built-in ceiling.'',
      ''max_linear_speed_mps = 0.30'',
      ''max_abs_yaw_rate_radps = 1.00'',
      '''',
      ''[watchdog]'',
      ''command_timeout_ms = 250'',
      ''feedback_timeout_ms = 200'',
      ''transmit_period_ms = 20'',
      ''fresh_commands_required = 3'',
      ''write_timeout_ms = 10'',
      ''zero_retry_interval_ms = 20'',
      ''zero_retry_attempts = 3'',
      '''',
      ''[teleop]'',
      ''min_selected_speed_mps = 0.05'',
      ''initial_selected_speed_mps = 0.10'',
      ''max_selected_speed_mps = 0.20'',
      ''speed_step_mps = 0.05'',
      ''curvature_inv_m = 0.75'',
      ''release_timeout_ms = 180'',
      ''command_rate_hz = 20'']"

definition example_file :: string where
  "example_file = concat (map (\<lambda>line. line @ [LF]) example_lines)"

lemma getlines_terminated:
  "list_all (\<lambda>line. LF \<notin> set line) ls \<Longrightarrow> getlines (concat (map (\<lambda>line. line @ [LF]) ls)) = ls"
proof (induction ls)
  case Nil
  then show ?case by (simp add: getlines.simps)
next
  case (Cons l ls)
  have "takeWhile (\<lambda>c. c \<noteq> LF) (l @ LF # r) = l" "dropWhile (\<lambda>c. c \<noteq> LF) (l @ LF # r) = LF # r" for r
    using Cons.prems by (induction l) auto
  with Cons show ?case
    by (subst getlines.simps) simp
qed

lemma example_file_lines: "getlines example_file = example_lines"
  unfolding example_file_def
  by (rule getlines_terminated) (simp add: example_lines_def LF_def)

definition example_classified :: "config_line list" where
  "example_classified =
     [Skipped, Skipped, Skipped, Header ''serial'', Skipped, Assignment ''device'' '''',
      Assignment ''reconnect_interval_ms'' ''1000'', Skipped, Header ''limits'', Skipped,
      Assignment ''max_linear_speed_mps'' ''0.30'', Assignment ''max_abs_yaw_rate_radps'' ''1.00'',
      Skipped, Header ''watchdog'', Assignment ''command_timeout_ms'' ''250'',
      Assignment ''feedback_timeout_ms'' ''200'', Assignment ''transmit_period_ms'' ''20'',
      Assignment ''fresh_commands_required'' ''3'', Assignment ''write_timeout_ms'' ''10'',
      Assignment ''zero_retry_interval_ms'' ''20'', Assignment ''zero_retry_attempts'' ''3'', Skipped,
      Header ''teleop'', Assignment ''min_selected_speed_mps'' ''0.05'',
      Assignment ''initial_selected_speed_mps'' ''0.10'', Assignment ''max_selected_speed_mps'' ''0.20'',
      Assignment ''speed_step_mps'' ''0.05'', Assignment ''curvature_inv_m'' ''0.75'',
      Assignment ''release_timeout_ms'' ''180'', Assignment ''command_rate_hz'' ''20'']"

lemma example_classify: "map classify_line example_lines = example_classified"
  by (simp add: example_lines_def example_classified_def classify_line_def trim_def config_space_def Let_def)

definition example_config :: runtime_config where
  "example_config =
     \<lparr>rc_device_path = [], rc_max_linear_speed_mps = f64_decimal 30 2,
      rc_max_abs_yaw_rate_radps = f64_decimal 100 2, rc_reconnect_interval_ms = 1000,
      rc_command_timeout_ms = 250, rc_feedback_timeout_ms = 200, rc_transmit_period_ms = 20,
      rc_fresh_commands_required = 3, rc_write_timeout_ms = 10, rc_zero_retry_interval_ms = 20,
      rc_zero_retry_attempts = 3, rc_min_selected_speed_mps = f64_decimal 5 2,
      rc_initial_selected_speed_mps = f64_decimal 10 2, rc_max_selected_speed_mps = f64_decimal 20 2,
      rc_speed_step_mps = f64_decimal 5 2, rc_curvature_inv_m = f64_decimal 75 2,
      rc_release_timeout_ms = 180, rc_command_rate_hz = f64_decimal 20 0\<rparr>"

lemmas string_eval = c_str_def NUL_def skip_spaces_def isspace_def take_sign_def take_digits_def
  isdigit_def signed_def decimal_value_def digit_of_def code_of_def take_fraction_def
  take_exponent_def starts_with_word_def to_lower_def

text \<open>A decimal fraction of ordinary size converts to the nearest double without \<open>ERANGE\<close>.\<close>

lemma scaled_round_decimal:
  assumes "(2 ^ 54 - 1) * 10 ^ k \<le> m * 2 ^ 1076" "isfinite (f64_decimal m k)"
  shows "scaled_round False m 10 (- int k) = (f64_decimal m k, False)"
  using assms by (simp add: scaled_round_def Let_def f64_decimal_def)

lemma strtod_fraction:
  assumes "strtod_decimal False t = Some r" "hd t \<in> set ''0123456789''" "t \<noteq> []"
    "\<not> starts_with_word ''0x'' t"
  shows "strtod t = r"
proof -
  have "take_sign (skip_spaces t) = (False, t)"
    using assms(2,3) by (cases t) (auto simp: take_sign_def skip_spaces_def isspace_def)
  moreover have "\<not> starts_with_word ''inf'' t" "\<not> starts_with_word ''infinity'' t" "\<not> starts_with_word ''nan'' t"
    using assms(2,3) by (cases t; auto simp: starts_with_word_def to_lower_def)+
  ultimately show ?thesis
    using assms(1,4) by (simp add: strtod_def)
qed

lemma example_doubles:
  "f64_decimal 30 2 = F_Fin False 5404319552844595 (-54)"
  "f64_decimal 100 2 = F_Fin False 4503599627370496 (-52)"
  "f64_decimal 5 2 = F_Fin False 7205759403792794 (-57)"
  "f64_decimal 10 2 = F_Fin False 7205759403792794 (-56)"
  "f64_decimal 20 2 = F_Fin False 7205759403792794 (-55)"
  "f64_decimal 75 2 = F_Fin False 6755399441055744 (-53)"
  "f64_decimal 20 0 = F_Fin False 5629499534213120 (-48)"
  by (simp_all add: f64_eval)

lemma example_numbers:
  "parseDoubleStrict ''0.30'' = Some (f64_decimal 30 2)"
  "parseDoubleStrict ''1.00'' = Some (f64_decimal 100 2)"
  "parseDoubleStrict ''0.05'' = Some (f64_decimal 5 2)"
  "parseDoubleStrict ''0.10'' = Some (f64_decimal 10 2)"
  "parseDoubleStrict ''0.20'' = Some (f64_decimal 20 2)"
  "parseDoubleStrict ''0.75'' = Some (f64_decimal 75 2)"
  "parseDoubleStrict ''20'' = Some (f64_decimal 20 0)"
proof -
  have d0: "strtod_decimal False ''0.30'' = Some \<lparr>conv_value = f64_decimal 30 2, conv_end = [], conv_erange = False\<rparr>"
    using scaled_round_decimal [of 2 30] by (simp add: strtod_decimal_def string_eval example_doubles)
  have d1: "strtod_decimal False ''1.00'' = Some \<lparr>conv_value = f64_decimal 100 2, conv_end = [], conv_erange = False\<rparr>"
    using scaled_round_decimal [of 2 100] by (simp add: strtod_decimal_def string_eval example_doubles)
  have d2: "strtod_decimal False ''0.05'' = Some \<lparr>conv_value = f64_decimal 5 2, conv_end = [], conv_erange = False\<rparr>"
    using scaled_round_decimal [of 2 5] by (simp add: strtod_decimal_def string_eval example_doubles)
  have d3: "strtod_decimal False ''0.10'' = Some \<lparr>conv_value = f64_decimal 10 2, conv_end = [], conv_erange = False\<rparr>"
    using scaled_round_decimal [of 2 10] by (simp add: strtod_decimal_def string_eval example_doubles)
  have d4: "strtod_decimal False ''0.20'' = Some \<lparr>conv_value = f64_decimal 20 2, conv_end = [], conv_erange = False\<rparr>"
    using scaled_round_decimal [of 2 20] by (simp add: strtod_decimal_def string_eval example_doubles)
  have d5: "strtod_decimal False ''0.75'' = Some \<lparr>conv_value = f64_decimal 75 2, conv_end = [], conv_erange = False\<rparr>"
    using scaled_round_decimal [of 2 75] by (simp add: strtod_decimal_def string_eval example_doubles)
  have d6: "strtod_decimal False ''20'' = Some \<lparr>conv_value = f64_decimal 20 0, conv_end = [], conv_erange = False\<rparr>"
    using scaled_round_decimal [of 0 20] by (simp add: strtod_decimal_def string_eval example_doubles)
  show "parseDoubleStrict ''0.30'' = Some (f64_decimal 30 2)"
    using strtod_fraction [OF d0] by (simp add: parseDoubleStrict_def c_str_def NUL_def starts_with_word_def to_lower_def)
  show "parseDoubleStrict ''1.00'' = Some (f64_decimal 100 2)"
    using strtod_fraction [OF d1] by (simp add: parseDoubleStrict_def c_str_def NUL_def starts_with_word_def to_lower_def)
  show "parseDoubleStrict ''0.05'' = Some (f64_decimal 5 2)"
    using strtod_fraction [OF d2] by (simp add: parseDoubleStrict_def c_str_def NUL_def starts_with_word_def to_lower_def)
  show "parseDoubleStrict ''0.10'' = Some (f64_decimal 10 2)"
    using strtod_fraction [OF d3] by (simp add: parseDoubleStrict_def c_str_def NUL_def starts_with_word_def to_lower_def)
  show "parseDoubleStrict ''0.20'' = Some (f64_decimal 20 2)"
    using strtod_fraction [OF d4] by (simp add: parseDoubleStrict_def c_str_def NUL_def starts_with_word_def to_lower_def)
  show "parseDoubleStrict ''0.75'' = Some (f64_decimal 75 2)"
    using strtod_fraction [OF d5] by (simp add: parseDoubleStrict_def c_str_def NUL_def starts_with_word_def to_lower_def)
  show "parseDoubleStrict ''20'' = Some (f64_decimal 20 0)"
    using strtod_fraction [OF d6] by (simp add: parseDoubleStrict_def c_str_def NUL_def starts_with_word_def to_lower_def)
qed

lemma example_integers:
  "parseInt64Strict ''1000'' = Some 1000" "parseInt64Strict ''250'' = Some 250"
  "parseInt64Strict ''200'' = Some 200" "parseInt64Strict ''20'' = Some 20"
  "parseInt64Strict ''3'' = Some 3" "parseInt64Strict ''10'' = Some 10"
  "parseInt64Strict ''180'' = Some 180"
  by (simp_all add: parseInt64Strict_def strtoll_def string_eval int64_max_def int64_min_def)

lemma example_converts: "convertValues (map_of (assignments [] example_classified)) = Some example_config"
  by (simp add: convertValues_def value_of_def assignUint32_def example_classified_def example_numbers
      example_integers example_config_def)

lemma cr_ok_if: "cr_ok (if b then failure Cfg_kInvalidValue m else y) \<longleftrightarrow> \<not> b \<and> cr_ok y"
  by simp

lemma example_products:
  "f64_mul (f64_decimal 20 2) (f64_decimal 75 2) = F_Fin False 5404319552844596 (- 55)"
  "f64_div (f64_of_int 1000) (f64_decimal 20 0) = F_Fin False 7036874417766400 (- 47)"
  "f64_of_int 6 = F_Fin False 6755399441055744 (- 50)"
  "f64_of_int 250 = F_Fin False 8796093022208000 (- 45)"
  "f64_of_int 1000 = F_Fin False 8796093022208000 (- 43)"
  "f64_decimal 32767 3 = F_Fin False 4611545280939033 (- 47)"
  by (simp_all add: f64_eval)

lemma example_valid: "cr_ok (validateRuntimeConfig example_config False)"
  unfolding validateRuntimeConfig_def cr_ok_if
proof (intro conjI, goal_cases)
  case 10
  then show ?case unfolding example_config_def by (simp add: example_products(1)) (simp add: example_doubles)
next
  case 11
  then show ?case unfolding example_config_def by (simp add: example_products(2)) (simp add: example_products f64_le_def)
qed (simp_all add: example_config_def example_doubles example_products(3-) finitePositive_def f64_le_def
    kMaximumWatchdogMilliseconds_def cr_ok_def)

lemma example_loads:
  assumes "files path = Some (example_file, True)"
  shows "cr_ok (loadRuntimeConfig files path False)
    \<and> cr_config (loadRuntimeConfig files path False) = example_config"
proof -
  have "Garbage \<notin> set example_classified" "distinct (headers example_classified)"
      "set (headers example_classified) \<subseteq> set known_sections"
    by (simp_all add: example_classified_def known_sections_def)
  moreover have "distinct (map fst (assignments [] example_classified))"
    by (simp add: example_classified_def)
  moreover have "set (map fst (assignments [] example_classified)) = set known_keys"
  proof (rule equalityI)
    show "set (map fst (assignments [] example_classified)) \<subseteq> set known_keys"
      by (simp add: example_classified_def known_keys_def)
    show "set known_keys \<subseteq> set (map fst (assignments [] example_classified))"
      by (simp add: example_classified_def known_keys_def)
  qed
  ultimately show ?thesis
    unfolding load_accepts_iff Let_def
    by (intro exI [of _ example_file])
      (simp only: assms example_file_lines example_classify example_converts example_valid simp_thms)
qed

section \<open>What an accepted configuration guarantees\<close>

lemma validated_fields:
  assumes "cr_ok (validateRuntimeConfig cfg require)"
  shows "(require \<longrightarrow> validDevicePath (rc_device_path cfg))
    \<and> (rc_device_path cfg \<noteq> [] \<longrightarrow> validDevicePath (rc_device_path cfg))
    \<and> isfinite (rc_max_linear_speed_mps cfg) \<and> \<not> f64_le (rc_max_linear_speed_mps cfg) f64_zero
    \<and> \<not> f64_le (f64_of_int 6) (rc_max_linear_speed_mps cfg)
    \<and> finitePositive (rc_max_abs_yaw_rate_radps cfg)
    \<and> \<not> f64_less (f64_decimal 32767 3) (rc_max_abs_yaw_rate_radps cfg)
    \<and> 10 \<le> rc_reconnect_interval_ms cfg \<and> rc_reconnect_interval_ms cfg \<le> 60000
    \<and> 0 < rc_command_timeout_ms cfg \<and> rc_command_timeout_ms cfg \<le> 60000
    \<and> 0 < rc_feedback_timeout_ms cfg \<and> rc_feedback_timeout_ms cfg \<le> 60000
    \<and> 0 < rc_write_timeout_ms cfg \<and> rc_write_timeout_ms cfg \<le> rc_transmit_period_ms cfg
    \<and> rc_transmit_period_ms cfg < rc_command_timeout_ms cfg
    \<and> rc_transmit_period_ms cfg < rc_feedback_timeout_ms cfg
    \<and> 0 < rc_zero_retry_interval_ms cfg \<and> rc_zero_retry_interval_ms cfg \<le> 60000
    \<and> 0 < rc_fresh_commands_required cfg \<and> rc_fresh_commands_required cfg \<le> 100
    \<and> 0 < rc_zero_retry_attempts cfg \<and> rc_zero_retry_attempts cfg \<le> 20
    \<and> finitePositive (rc_max_selected_speed_mps cfg)
    \<and> \<not> f64_less (rc_max_linear_speed_mps cfg) (rc_max_selected_speed_mps cfg)
    \<and> 0 < rc_release_timeout_ms cfg \<and> rc_release_timeout_ms cfg \<le> rc_command_timeout_ms cfg"
  using assms unfolding validateRuntimeConfig_def cr_ok_if
  by (simp add: kMaximumWatchdogMilliseconds_def not_le not_less word_gt_0) blast

text \<open>
  C35: A configuration that loads is safe to run with: the configuration the session is given
  passes the session's own validation, so that the session is never created invalid; the speed
  limit is above 0 and below 6 m/s and bounds every speed the operator can select; the write
  timeout, the transmit period and the watchdogs are ordered; every duration is positive and at
  most a minute once converted to nanoseconds; and the device path, where one is required or given,
  is a direct path below \<open>/dev/\<close>.
\<close>

theorem accepted_configuration_is_safe:
  assumes ok: "cr_ok (loadRuntimeConfig files path require)"
    and cfg: "cfg = cr_config (loadRuntimeConfig files path require)"
  shows "safetyConfigIsValid (makeSafetyConfig cfg)
    \<and> 0 < f64_val (rc_max_linear_speed_mps cfg) \<and> f64_val (rc_max_linear_speed_mps cfg) < 6
    \<and> 0 < f64_val (rc_max_selected_speed_mps cfg)
    \<and> f64_val (rc_max_selected_speed_mps cfg) \<le> f64_val (rc_max_linear_speed_mps cfg)
    \<and> 0 < rc_write_timeout_ms cfg \<and> rc_write_timeout_ms cfg \<le> rc_transmit_period_ms cfg
    \<and> rc_transmit_period_ms cfg < min (rc_command_timeout_ms cfg) (rc_feedback_timeout_ms cfg)
    \<and> rc_release_timeout_ms cfg \<le> rc_command_timeout_ms cfg
    \<and> (\<forall>ms \<in> {rc_command_timeout_ms cfg, rc_feedback_timeout_ms cfg, rc_transmit_period_ms cfg,
               rc_write_timeout_ms cfg, rc_zero_retry_interval_ms cfg, rc_reconnect_interval_ms cfg}.
         0 < ms \<and> millisecondsToNanoseconds ms \<le> kMaximumDurationNs)
    \<and> (require \<or> rc_device_path cfg \<noteq> [] \<longrightarrow> validDevicePath (rc_device_path cfg))"
proof -
  have "cr_ok (validateRuntimeConfig cfg require)"
    using load_accepts_iff [of files path require cfg] ok cfg by (auto simp: Let_def)
  note f = validated_fields [OF this]
  have six: "isfinite (f64_of_int 6)" "f64_val (f64_of_int 6) = 6"
    using f64_of_int_exact [of 6] by simp_all
  have lin: "isfinite (rc_max_linear_speed_mps cfg)" "0 < f64_val (rc_max_linear_speed_mps cfg)"
      "f64_val (rc_max_linear_speed_mps cfg) < 6"
    using f f64_le_iff [of "rc_max_linear_speed_mps cfg" f64_zero]
      f64_le_iff [of "f64_of_int 6" "rc_max_linear_speed_mps cfg"] six by auto
  have yaw: "isfinite (rc_max_abs_yaw_rate_radps cfg)" "f64_less f64_zero (rc_max_abs_yaw_rate_radps cfg)"
      "f64_le (rc_max_abs_yaw_rate_radps cfg) (f64_decimal 32767 3)"
    using f example_products(6) by (auto simp: finitePositive_def f64_le_iff f64_less_iff)
  have sel: "0 < f64_val (rc_max_selected_speed_mps cfg)"
      "f64_val (rc_max_selected_speed_mps cfg) \<le> f64_val (rc_max_linear_speed_mps cfg)"
    using f lin(1) by (auto simp: finitePositive_def f64_less_iff)
  have "safetyConfigIsValid (makeSafetyConfig cfg)"
    using f lin yaw
    by (simp add: safetyConfigIsValid_def makeSafetyConfig_def isValidMax_iff
        millisecondsToNanoseconds_def kMaximumDurationNs_def word_gt_0)
  then show ?thesis
    using f lin sel by (auto simp: millisecondsToNanoseconds_def kMaximumDurationNs_def)
qed

theorem accepted_configuration_is_safe_witness:
  "safetyConfigIsValid (makeSafetyConfig example_config)"
proof -
  have load: "cr_ok (loadRuntimeConfig (\<lambda>p. Some (example_file, True)) ''vcu.ini'' False)"
      "example_config = cr_config (loadRuntimeConfig (\<lambda>p. Some (example_file, True)) ''vcu.ini'' False)"
    using example_loads [of "\<lambda>p. Some (example_file, True)" "''vcu.ini''"] by simp_all
  from accepted_configuration_is_safe [OF load] show ?thesis by blast
qed

section \<open>Device paths\<close>

fun join_path :: "string list \<Rightarrow> string" where
  "join_path [] = []"
| "join_path [c] = c"
| "join_path (c # cs) = c @ ''/'' @ join_path cs"

definition plain_component :: "string \<Rightarrow> bool" where
  "plain_component c \<longleftrightarrow> c \<noteq> [] \<and> c \<noteq> ''.'' \<and> c \<noteq> ''..'' \<and> CHR ''/'' \<notin> set c"

lemma split_at_slash:
  "CHR ''/'' \<notin> set c \<Longrightarrow> takeWhile (\<lambda>x. x \<noteq> CHR ''/'') (c @ CHR ''/'' # r) = c"
  "CHR ''/'' \<notin> set c \<Longrightarrow> dropWhile (\<lambda>x. x \<noteq> CHR ''/'') (c @ CHR ''/'' # r) = CHR ''/'' # r"
  "CHR ''/'' \<notin> set c \<Longrightarrow> takeWhile (\<lambda>x. x \<noteq> CHR ''/'') c = c"
  "CHR ''/'' \<notin> set c \<Longrightarrow> dropWhile (\<lambda>x. x \<noteq> CHR ''/'') c = []"
  by (induction c) auto

lemma components_ok_join:
  "\<lbrakk>cs \<noteq> []; list_all plain_component cs\<rbrakk> \<Longrightarrow> path_components_ok (join_path cs)"
proof (induction cs rule: join_path.induct)
  case (2 c)
  then show ?case
    by (subst path_components_ok.simps) (simp add: plain_component_def split_at_slash)
next
  case (3 c d cs)
  then show ?case
    by (subst path_components_ok.simps) (simp add: plain_component_def split_at_slash Let_def)
qed simp

lemma components_ok_split:
  "\<lbrakk>path_components_ok r; r \<noteq> []; last r \<noteq> CHR ''/''\<rbrakk> \<Longrightarrow>
     \<exists>cs. cs \<noteq> [] \<and> list_all plain_component cs \<and> r = join_path cs"
proof (induction r rule: path_components_ok.induct)
  case (1 r)
  define c where "c = takeWhile (\<lambda>x. x \<noteq> CHR ''/'') r"
  define s where "s = dropWhile (\<lambda>x. x \<noteq> CHR ''/'') r"
  have r: "r = c @ s" by (simp add: c_def s_def)
  have slash: "CHR ''/'' \<notin> set c" by (auto simp: c_def dest: set_takeWhileD)
  have c: "plain_component c" and rest: "s \<noteq> [] \<Longrightarrow> path_components_ok (tl s)"
    using 1(2,3) slash by (subst (asm) path_components_ok.simps, auto simp: plain_component_def Let_def c_def s_def split: if_splits)+
  show ?case
  proof (cases "s = []")
    case True
    with c r show ?thesis by (intro exI [of _ "[c]"]) simp
  next
    case False
    then have s: "s = CHR ''/'' # tl s"
      using hd_dropWhile [of "\<lambda>x. x \<noteq> CHR ''/''" r] by (metis (full_types) list.collapse s_def)
    have "tl s \<noteq> []" "last (tl s) \<noteq> CHR ''/''"
      using 1(4) r s by (metis last.simps last_appendR list.distinct(1))+
    moreover have plain: "\<not> (c = [] \<or> c = ''.'' \<or> c = ''..'')"
      using c by (simp add: plain_component_def)
    ultimately obtain cs where "cs \<noteq> []" "list_all plain_component cs" "tl s = join_path cs"
      using 1(1) [OF 1(3) c_def s_def plain False rest [OF False]] by blast
    with c r s show ?thesis
      by (intro exI [of _ "c # cs"]) (cases cs; simp)
  qed
qed

lemma join_path_props:
  "\<lbrakk>cs \<noteq> []; list_all plain_component cs\<rbrakk> \<Longrightarrow> join_path cs \<noteq> [] \<and> last (join_path cs) \<noteq> CHR ''/''"
proof (induction cs rule: join_path.induct)
  case (2 c)
  then show ?case by (auto simp: plain_component_def) (metis last_in_set)
qed auto

text \<open>
  C37: The device path check accepts exactly the direct paths below \<open>/dev/\<close>: those that are
  \<open>/dev/\<close> followed by one or more components joined by slashes, none of them empty, \<open>.\<close> or
  \<open>..\<close>; no accepted path leaves \<open>/dev\<close>, and none ends in a slash.
\<close>

theorem validDevicePath_iff:
  "validDevicePath path \<longleftrightarrow>
     (\<exists>cs. cs \<noteq> [] \<and> list_all plain_component cs \<and> path = ''/dev/'' @ join_path cs)"
proof
  assume v: "validDevicePath path"
  then have len: "drop 5 path \<noteq> []" and pre: "path = ''/dev/'' @ drop 5 path"
    using append_take_drop_id [of 5 path] by (auto simp: validDevicePath_def)
  have "last (drop 5 path) \<noteq> CHR ''/''"
    using v len by (auto simp: validDevicePath_def last_drop)
  with v len components_ok_split [of "drop 5 path"] pre
  show "\<exists>cs. cs \<noteq> [] \<and> list_all plain_component cs \<and> path = ''/dev/'' @ join_path cs"
    by (metis validDevicePath_def)
next
  assume "\<exists>cs. cs \<noteq> [] \<and> list_all plain_component cs \<and> path = ''/dev/'' @ join_path cs"
  then obtain cs where cs: "cs \<noteq> []" "list_all plain_component cs" "path = ''/dev/'' @ join_path cs"
    by blast
  then show "validDevicePath path"
    using components_ok_join [OF cs(1,2)] join_path_props [OF cs(1,2)]
    by (auto simp: validDevicePath_def)
qed

end
