(* ===== verification/Cli_Input.thy ===== *)
theory Cli_Input
  imports Config Posix_Transport Streams
begin

text \<open>
  The input side of the command-line driver, \<open>apps/wheeltec_vcu_cli.cpp\<close>: its
  options, the line protocol of the operator and the splitting of the standard
  input into lines.  What the driver prints is not modelled: no code of it reads
  that back.
\<close>

section \<open>Options\<close>

definition kActuationConfirmation :: string where
  "kActuationConfirmation = ''I_UNDERSTAND_HOST_WRITE_IS_NOT_A_VCU_ACK''"

record options =
  opt_config_path :: string
  opt_validate_only :: bool
  opt_run :: bool
  opt_acknowledge_unverified_protocol :: bool
  opt_enable_actuation :: bool
  opt_operator_confirmation :: string

definition defaultOptions :: options where
  "defaultOptions =
     \<lparr>opt_config_path = [], opt_validate_only = False, opt_run = False,
      opt_acknowledge_unverified_protocol = False, opt_enable_actuation = False,
      opt_operator_confirmation = []\<rparr>"

text \<open>The loop over the arguments after the program name; \<open>Exit\<close> is \<open>std::exit\<close>.\<close>

datatype 'a parsed_options = Exit nat | Rejected | Parsed 'a

fun parse_arguments :: "options \<Rightarrow> string list \<Rightarrow> options parsed_options" where
  "parse_arguments opts [] = Parsed opts"
| "parse_arguments opts (argument # rest) =
     (if argument = ''--help'' \<or> argument = ''-h'' then Exit 0
      else if argument = ''--validate-config'' then
        parse_arguments (opts\<lparr>opt_validate_only := True\<rparr>) rest
      else if argument = ''--run'' then parse_arguments (opts\<lparr>opt_run := True\<rparr>) rest
      else if argument = ''--acknowledge-unverified-protocol'' then
        parse_arguments (opts\<lparr>opt_acknowledge_unverified_protocol := True\<rparr>) rest
      else if argument = ''--enable-actuation'' then
        parse_arguments (opts\<lparr>opt_enable_actuation := True\<rparr>) rest
      else if argument = ''--config'' \<or> argument = ''--operator-confirmation'' then
        (case rest of
           [] \<Rightarrow> Rejected
         | v # rest' \<Rightarrow>
             if argument = ''--config'' then parse_arguments (opts\<lparr>opt_config_path := v\<rparr>) rest'
             else parse_arguments (opts\<lparr>opt_operator_confirmation := v\<rparr>) rest')
      else Rejected)"

definition parseOptions :: "string list \<Rightarrow> options parsed_options" where
  "parseOptions arguments =
     (case parse_arguments defaultOptions arguments of
        Parsed opts \<Rightarrow>
          (if opt_config_path opts = [] \<or> opt_validate_only opts = opt_run opts then Rejected
           else if opt_validate_only opts then
             (if \<not> opt_acknowledge_unverified_protocol opts \<and> \<not> opt_enable_actuation opts
                 \<and> opt_operator_confirmation opts = []
              then Parsed opts else Rejected)
           else if opt_acknowledge_unverified_protocol opts \<and> opt_enable_actuation opts
                   \<and> opt_operator_confirmation opts = kActuationConfirmation
           then Parsed opts else Rejected)
      | r \<Rightarrow> r)"

section \<open>The line protocol\<close>

definition onlyTrailingWhitespace :: "string \<Rightarrow> bool" where
  "onlyTrailingWhitespace stream \<longleftrightarrow> only_spaces stream"

text \<open>The loop over the characters of a token: \<open>None\<close> is the early \<open>return false\<close>.\<close>

fun uint64_digits :: "u64 \<Rightarrow> string \<Rightarrow> u64 option" where
  "uint64_digits v [] = Some v"
| "uint64_digits v (character # rest) =
     (if character < CHR ''0'' \<or> character > CHR ''9'' then None
      else let digit = of_nat (digit_of character)
           in if v > (uint64_max - digit) div 10 then None
              else uint64_digits (v * 10 + digit) rest)"

definition parseUint64Decimal :: "string \<Rightarrow> (u64 \<times> string) option" where
  "parseUint64Decimal stream =
     (case extract_word stream of
        None \<Rightarrow> None
      | Some (token, rest) \<Rightarrow>
          (case uint64_digits 0 token of None \<Rightarrow> None | Some v \<Rightarrow> Some (v, rest)))"

text \<open>The operands of \<open>CMD\<close>; the lateral speed is set to zero.\<close>

definition parse_command :: "string \<Rightarrow> timed_motion_command option" where
  "parse_command stream =
     do {
       (q, stream) \<leftarrow> parseUint64Decimal stream;
       (created, stream) \<leftarrow> extract_int64 stream;
       (deadline, stream) \<leftarrow> extract_int64 stream;
       (linear, stream) \<leftarrow> extract_double stream;
       (yaw, stream) \<leftarrow> extract_double stream;
       if onlyTrailingWhitespace stream
       then Some \<lparr>sequence_id = q, created_monotonic_ns = created, deadline_monotonic_ns = deadline,
                  motion = \<lparr>linear_speed_mps = linear, lateral_speed_mps = f64_zero,
                            yaw_rate_radps = yaw\<rparr>\<rparr>
       else None
     }"

definition parse_token :: "string \<Rightarrow> u64 option" where
  "parse_token stream =
     (case parseUint64Decimal stream of
        None \<Rightarrow> None
      | Some (token, rest) \<Rightarrow> if onlyTrailingWhitespace rest then Some token else None)"

record line_result =
  lr_quit :: bool
  lr_valid :: bool

text \<open>
  \<open>processLine\<close> with the time it reads from the clock as an argument: what it does
  with the session; \<open>None\<close> is an invalid line.
\<close>

definition execute_line ::
    "'t transport_ops \<Rightarrow> 't \<Rightarrow> string \<Rightarrow> int \<Rightarrow> safety_session \<Rightarrow> (bool \<times> safety_session) option" where
  "execute_line ops t line now s =
     (let (operation, input) = (case extract_word line of None \<Rightarrow> ([], []) | Some r \<Rightarrow> r)
      in if operation = [] \<or> now \<le> 0 then None
         else if operation = ''AUTH'' then
           map_option (\<lambda>token. (False, snd (authorize ops t token now s))) (parse_token input)
         else if operation = ''CMD'' then
           map_option (\<lambda>command. (False, snd (submit ops t command now s))) (parse_command input)
         else if operation = ''STOP'' then
           (if \<not> onlyTrailingWhitespace input then None
            else Some (False, snd (requestStop ops t now s)))
         else if operation = ''ESTOP'' then
           (if \<not> onlyTrailingWhitespace input then None
            else Some (False, latchEmergencyStop ops t now s))
         else if operation = ''RESET_ESTOP'' then
           map_option (\<lambda>token. (False, snd (resetEmergencyStop ops t token now s))) (parse_token input)
         else if operation = ''QUIT'' then
           (if \<not> onlyTrailingWhitespace input then None
            else Some (True, snd (requestStop ops t now s)))
         else None)"

definition process_line_at ::
    "'t transport_ops \<Rightarrow> 't \<Rightarrow> string \<Rightarrow> int \<Rightarrow> safety_session \<Rightarrow> line_result \<times> safety_session" where
  "process_line_at ops t line now s =
     (case execute_line ops t line now s of
        Some (q, s) \<Rightarrow> (\<lparr>lr_quit = q, lr_valid = True\<rparr>, s)
      | None \<Rightarrow> (\<lparr>lr_quit = False, lr_valid = False\<rparr>, snd (disarm ops t now s)))"

definition processLine ::
    "'w system_calls \<Rightarrow> 'w posix_transport \<Rightarrow> string \<Rightarrow> safety_session \<Rightarrow> int \<times> 'w
       \<Rightarrow> line_result \<times> safety_session \<times> (int \<times> 'w)" where
  "processLine sys t line s h =
     (let (now, w) = monotonicNowNs sys (snd h);
          (r, s) = process_line_at (posix_ops sys) (t, fst h, w) line now s
      in (r, s, (fst h, w)))"

section \<open>Splitting the input into lines\<close>

function takeCompleteLines :: "string \<Rightarrow> string list \<times> string" where
  "takeCompleteLines pending =
     (if LF \<notin> set pending then ([], pending)
      else let line = takeWhile (\<lambda>c. c \<noteq> LF) pending;
               line = (if line \<noteq> [] \<and> last line = CR then butlast line else line);
               (output, rest) = takeCompleteLines (tl (dropWhile (\<lambda>c. c \<noteq> LF) pending))
           in (line # output, rest))"
  by auto
termination
proof (relation "measure length")
  fix pending line1 line2 :: string
  assume "\<not> LF \<notin> set pending"
  then have "pending \<noteq> []" by auto
  then show "(tl (dropWhile (\<lambda>c. c \<noteq> LF) pending), pending) \<in> measure length"
    by (simp add: tl_dropWhile_shorter del: length_tl)
qed simp

declare takeCompleteLines.simps [simp del]

end
