(* ===== verification/Cli_Run.thy ===== *)
theory Cli_Run
  imports Cli_Input Feedback_Parser
begin

text \<open>
  The run of the command-line driver, \<open>apps/wheeltec_vcu_cli.cpp\<close>: the standard
  input, the final zero, the main loop and \<open>main\<close>.  What the process calls beside
  the serial port is a second parameter, \<open>process_calls\<close>; the flag a signal
  handler sets is a function of the world, since it may change at any moment.
  The state of the host is \<open>errno\<close> and the world.
\<close>

record 'w process_calls =
  pc_stdin_getfl :: "int \<times> 'w \<Rightarrow> int \<times> (int \<times> 'w)"
  pc_stdin_setfl :: "int \<Rightarrow> int \<times> 'w \<Rightarrow> int \<times> (int \<times> 'w)"
  pc_stdin_read :: "nat \<Rightarrow> int \<times> 'w \<Rightarrow> (int \<times> string) \<times> (int \<times> 'w)"
  pc_stdin_poll :: "int \<Rightarrow> int \<times> 'w \<Rightarrow> int \<times> (int \<times> 'w)"
  pc_nanosleep :: "int \<times> int \<Rightarrow> int \<times> 'w \<Rightarrow> (int \<times> (int \<times> int)) \<times> (int \<times> 'w)"
  pc_shutdown_requested :: "'w \<Rightarrow> bool"

section \<open>Standard input\<close>

text \<open>\<open>NonblockingStdin\<close>: the saved flags, when the mode was changed.\<close>

definition enableNonblockingStdin ::
    "'w process_calls \<Rightarrow> int \<times> 'w \<Rightarrow> (int option \<times> (int \<times> 'w)) option" where
  "enableNonblockingStdin pc h =
     do {
       (flags, h) \<leftarrow> retryInterrupted id (pc_stdin_getfl pc) h;
       if flags < 0 then Some (None, h)
       else do {
         (status, h) \<leftarrow> retryInterrupted id (pc_stdin_setfl pc (flags OR O_NONBLOCK)) h;
         Some (if status = 0 then Some flags else None, h)
       }
     }"

definition restoreStdin ::
    "'w process_calls \<Rightarrow> int option \<Rightarrow> int \<times> 'w \<Rightarrow> (int \<times> 'w) option" where
  "restoreStdin pc saved h =
     (case saved of
        None \<Rightarrow> Some h
      | Some flags \<Rightarrow>
          do {
            (status, h) \<leftarrow> retryInterrupted id (pc_stdin_setfl pc flags) h;
            Some h
          })"

text \<open>The loop of \<open>appendStdin\<close>: the result, the text read so far and whether the input ended.\<close>

definition appendStdinBody ::
    "'w process_calls \<Rightarrow> string \<times> (int \<times> 'w)
       \<Rightarrow> (string \<times> (int \<times> 'w), bool \<times> string \<times> bool \<times> (int \<times> 'w)) loop_step" where
  "appendStdinBody pc = (\<lambda>(pending_input, h).
     let ((count, buffer), h) = pc_stdin_read pc 512 h
     in if count > 0 then
          (let pending_input = pending_input @ take (nat count) buffer
           in if length pending_input > 8192 then Return (False, pending_input, False, h)
              else Continue (pending_input, h))
        else if count = 0 then Return (True, pending_input, True, h)
        else if fst h = EINTR then Continue (pending_input, h)
        else if fst h = EAGAIN \<or> fst h = EWOULDBLOCK then Return (True, pending_input, False, h)
        else Return (False, pending_input, False, h))"

definition appendStdin ::
    "'w process_calls \<Rightarrow> string \<Rightarrow> int \<times> 'w \<Rightarrow> (bool \<times> string \<times> bool \<times> (int \<times> 'w)) option" where
  "appendStdin pc pending_input h = run_loop (\<lambda>s. Some (appendStdinBody pc s)) (pending_input, h)"

section \<open>Sleeping and the final zero\<close>

definition sleepBody ::
    "'w process_calls \<Rightarrow> (int \<times> int) \<times> (int \<times> 'w)
       \<Rightarrow> ((int \<times> int) \<times> (int \<times> 'w), int \<times> 'w) loop_step" where
  "sleepBody pc = (\<lambda>(request, h).
     let ((status, remaining), h) = pc_nanosleep pc request h
     in if status \<noteq> 0 \<and> fst h = EINTR \<and> \<not> pc_shutdown_requested pc (snd h)
        then Continue (remaining, h) else Return h)"

definition boundedSleepNanoseconds ::
    "'w process_calls \<Rightarrow> int \<Rightarrow> int \<times> 'w \<Rightarrow> (int \<times> 'w) option" where
  "boundedSleepNanoseconds pc nanoseconds h =
     (if nanoseconds \<le> 0 then Some h
      else run_loop (\<lambda>s. Some (sleepBody pc s))
             ((nanoseconds div 1000000000, nanoseconds mod 1000000000), h))"

text \<open>The \<open>for\<close> loop of \<open>attemptFinalZero\<close>; \<open>left\<close> counts the attempts still allowed.\<close>

fun finalZeroAttempts ::
    "'w system_calls \<Rightarrow> 'w process_calls \<Rightarrow> runtime_config \<Rightarrow> nat \<Rightarrow> 'w posix_transport \<times> (int \<times> 'w)
       \<Rightarrow> (bool \<times> 'w posix_transport \<times> (int \<times> 'w)) option" where
  "finalZeroAttempts sys pc cfg 0 (t, h) = Some (False, t, h)"
| "finalZeroAttempts sys pc cfg (Suc left) (t, h) =
     (let (now, w) = monotonicNowNs sys (snd h); h = (fst h, w)
      in if now \<le> 0 then Some (False, t, h)
         else do {
           (written, t, h) \<leftarrow> writeAll sys (t, h) makeZeroCommandFrame
                                (now + millisecondsToNanoseconds (rc_write_timeout_ms cfg));
           if io_status written = T_kOk \<and> host_write_complete written
              \<and> bytes_transferred written = length makeZeroCommandFrame
           then Some (True, t, h)
           else if \<not> pt_connected t then Some (False, t, h)
           else do {
             h \<leftarrow> boundedSleepNanoseconds pc
                    (millisecondsToNanoseconds (rc_zero_retry_interval_ms cfg)) h;
             finalZeroAttempts sys pc cfg left (t, h)
           }
         })"

definition attemptFinalZero ::
    "'w system_calls \<Rightarrow> 'w process_calls \<Rightarrow> runtime_config \<Rightarrow> 'w posix_transport \<times> (int \<times> 'w)
       \<Rightarrow> (bool \<times> 'w posix_transport \<times> (int \<times> 'w)) option" where
  "attemptFinalZero sys pc cfg = (\<lambda>(t, h).
     if \<not> pt_connected t then Some (False, t, h)
     else finalZeroAttempts sys pc cfg (unat (rc_zero_retry_attempts cfg)) (t, h))"

section \<open>The main loop\<close>

record 'w cli_state =
  cl_transport :: "'w posix_transport"
  cl_session :: safety_session
  cl_parser :: feedback_parser
  cl_pending :: string
  cl_eof :: bool
  cl_quit :: bool
  cl_failed :: bool
  cl_next_reconnect_ns :: int
  cl_host :: "int \<times> 'w"

definition cl_now :: "'w system_calls \<Rightarrow> 'w cli_state \<Rightarrow> int \<times> 'w cli_state" where
  "cl_now sys c =
     (let (now, w) = monotonicNowNs sys (snd (cl_host c))
      in (now, c\<lparr>cl_host := (fst (cl_host c), w)\<rparr>))"

abbreviation cl_link :: "'w cli_state \<Rightarrow> 'w posix_transport \<times> (int \<times> 'w)" where
  "cl_link c \<equiv> (cl_transport c, cl_host c)"

definition cl_disarm :: "'w system_calls \<Rightarrow> int \<Rightarrow> 'w cli_state \<Rightarrow> 'w cli_state" where
  "cl_disarm sys now c =
     c\<lparr>cl_session := snd (disarm (posix_ops sys) (cl_link c) now (cl_session c))\<rparr>"

definition cl_estop :: "'w system_calls \<Rightarrow> int \<Rightarrow> 'w cli_state \<Rightarrow> 'w cli_state" where
  "cl_estop sys now c =
     c\<lparr>cl_session := latchEmergencyStop (posix_ops sys) (cl_link c) now (cl_session c)\<rparr>"

text \<open>Every frame of a read goes to the session with the time the read completed.\<close>

fun observeFrames ::
    "'w system_calls \<Rightarrow> int \<Rightarrow> parsed_feedback_frame list \<Rightarrow> 'w cli_state \<Rightarrow> 'w cli_state" where
  "observeFrames sys receipt_ns [] c = c"
| "observeFrames sys receipt_ns (frame # frames) c =
     observeFrames sys receipt_ns frames
       (c\<lparr>cl_session := snd (observeFeedback (posix_ops sys) (cl_link c) (pf_frame frame) receipt_ns
                               (cl_session c))\<rparr>)"

definition reconnect ::
    "'w system_calls \<Rightarrow> runtime_config \<Rightarrow> int \<Rightarrow> 'w cli_state \<Rightarrow> 'w cli_state option" where
  "reconnect sys cfg now c =
     (if cl_next_reconnect_ns c = 0 \<or> now \<ge> cl_next_reconnect_ns c
      then do {
        (reopened, t, h) \<leftarrow> reopenTransport sys (cl_transport c) (cl_host c);
        let c = c\<lparr>cl_transport := t, cl_host := h,
                  cl_next_reconnect_ns := now + millisecondsToNanoseconds (rc_reconnect_interval_ms cfg)\<rparr>;
        Some (if so_status reopened = T_kOk then c\<lparr>cl_parser := parser_reset (cl_parser c)\<rparr> else c)
      }
      else Some c)"

definition receive :: "'w system_calls \<Rightarrow> int \<Rightarrow> 'w cli_state \<Rightarrow> 'w cli_state option" where
  "receive sys now c =
     do {
       (read_res, buffer, t, h) \<leftarrow> readSome sys (cl_link c) 512 (now + 1000000);
       let c = c\<lparr>cl_transport := t, cl_host := h\<rparr>;
       if io_status read_res = T_kOk
       then (let (parser, frames) = consume (cl_parser c) (Some buffer) (bytes_transferred read_res);
                 c = c\<lparr>cl_parser := parser\<rparr>;
                 (receipt_ns, c) = (if completion_monotonic_ns read_res > 0
                                    then (completion_monotonic_ns read_res, c) else cl_now sys c)
             in Some (observeFrames sys receipt_ns frames c))
       else if io_status read_res \<noteq> T_kDeadlineExceeded \<and> io_status read_res \<noteq> T_kDisconnected
       then Some (cl_estop sys now c)
       else Some c
     }"

text \<open>The lines of one pass; an overlong line ends the loop over them.\<close>

fun processLines ::
    "'w system_calls \<Rightarrow> int \<Rightarrow> string list \<Rightarrow> 'w cli_state \<Rightarrow> 'w cli_state" where
  "processLines sys now [] c = c"
| "processLines sys now (line # lines) c =
     (if length line > 512 then (cl_disarm sys now c)\<lparr>cl_failed := True\<rparr>
      else let (r, s, h) = processLine sys (cl_transport c) line (cl_session c) (cl_host c)
           in processLines sys now lines
                (c\<lparr>cl_session := s, cl_host := h, cl_quit := cl_quit c \<or> lr_quit r,
                   cl_failed := cl_failed c \<or> \<not> lr_valid r\<rparr>))"

text \<open>What is left in the buffer when the input ends is a last line.\<close>

definition finishInput :: "'w system_calls \<Rightarrow> 'w cli_state \<Rightarrow> 'w cli_state" where
  "finishInput sys c =
     (if cl_eof c
      then (let c = (if cl_pending c \<noteq> []
                     then (let (r, s, h) = processLine sys (cl_transport c) (cl_pending c)
                                             (cl_session c) (cl_host c)
                           in c\<lparr>cl_session := s, cl_host := h, cl_quit := cl_quit c \<or> lr_quit r,
                                cl_failed := cl_failed c \<or> \<not> lr_valid r, cl_pending := []\<rparr>)
                     else c)
            in c\<lparr>cl_quit := True\<rparr>)
      else c)"

definition cycle :: "'w system_calls \<Rightarrow> int \<Rightarrow> 'w cli_state \<Rightarrow> 'w cli_state option" where
  "cycle sys now c =
     do {
       (result, s, t, h) \<leftarrow> tick (posix_ops sys) (cl_link c) now (cl_session c);
       Some (c\<lparr>cl_session := s, cl_transport := t, cl_host := h\<rparr>)
     }"

definition pollBody ::
    "'w process_calls \<Rightarrow> int \<times> 'w \<Rightarrow> (int \<times> 'w, int \<times> (int \<times> 'w)) loop_step" where
  "pollBody pc h =
     (let (poll_result, h) = pc_stdin_poll pc 5 h
      in if poll_result < 0 \<and> fst h = EINTR \<and> \<not> pc_shutdown_requested pc (snd h)
         then Continue h else Return (poll_result, h))"

definition waitForInput ::
    "'w system_calls \<Rightarrow> 'w process_calls \<Rightarrow> int \<Rightarrow> 'w cli_state
       \<Rightarrow> ('w cli_state, 'w cli_state) loop_step option" where
  "waitForInput sys pc now c =
     do {
       (poll_result, h) \<leftarrow> run_loop (\<lambda>h. Some (pollBody pc h)) (cl_host c);
       let c = c\<lparr>cl_host := h\<rparr>;
       Some (if poll_result < 0 \<and> fst h \<noteq> EINTR
             then Return ((cl_disarm sys now c)\<lparr>cl_failed := True\<rparr>) else Continue c)
     }"

definition runBody ::
    "'w system_calls \<Rightarrow> 'w process_calls \<Rightarrow> runtime_config \<Rightarrow> 'w cli_state
       \<Rightarrow> ('w cli_state, 'w cli_state) loop_step option" where
  "runBody sys pc cfg c =
     (if cl_quit c \<or> pc_shutdown_requested pc (snd (cl_host c)) then Some (Return c)
      else let (now, c) = cl_now sys c
           in if now \<le> 0 then Some (Return ((cl_estop sys now c)\<lparr>cl_failed := True\<rparr>))
              else do {
                c \<leftarrow> (if \<not> pt_connected (cl_transport c) then reconnect sys cfg now c
                      else receive sys now c);
                (ok, pending_input, ended, h) \<leftarrow> appendStdin pc (cl_pending c) (cl_host c);
                let c = c\<lparr>cl_pending := pending_input, cl_eof := cl_eof c \<or> ended, cl_host := h\<rparr>;
                if \<not> ok then Some (Return ((cl_disarm sys now c)\<lparr>cl_failed := True\<rparr>))
                else do {
                  let (lines, pending_input) = takeCompleteLines (cl_pending c);
                  let c = processLines sys now lines (c\<lparr>cl_pending := pending_input\<rparr>);
                  if cl_failed c then Some (Return c)
                  else do {
                    let c = finishInput sys c;
                    let (now, c) = cl_now sys c;
                    c \<leftarrow> cycle sys now c;
                    waitForInput sys pc now c
                  }
                }
              })"

section \<open>The whole run\<close>

text \<open>After the loop: disarm, a last tick, the final zero, and closing the port.\<close>

definition finishRun ::
    "'w system_calls \<Rightarrow> 'w process_calls \<Rightarrow> runtime_config \<Rightarrow> 'w cli_state
       \<Rightarrow> (int \<times> 'w cli_state) option" where
  "finishRun sys pc cfg c =
     do {
       let (stop_ns, c) = cl_now sys c;
       c \<leftarrow> (if stop_ns > 0 then cycle sys stop_ns (cl_disarm sys stop_ns c) else Some c);
       (complete, t, h) \<leftarrow> attemptFinalZero sys pc cfg (cl_link c);
       (t, h) \<leftarrow> closeTransport sys t h;
       let c = c\<lparr>cl_transport := t, cl_host := h\<rparr>;
       Some (if pc_shutdown_requested pc (snd h) then (if complete then 130 else 131)
             else if cl_failed c then (if complete then 7 else 8)
             else if complete then 0 else 9, c)
     }"

definition startRun ::
    "'w system_calls \<Rightarrow> runtime_config \<Rightarrow> 'w posix_transport \<Rightarrow> int \<times> 'w \<Rightarrow> 'w cli_state" where
  "startRun sys cfg t h =
     \<lparr>cl_transport = t, cl_session = newSafetySession (makeSafetyConfig cfg) True (posix_ops sys) (t, h),
      cl_parser = newFeedbackParser, cl_pending = [], cl_eof = False, cl_quit = False,
      cl_failed = False, cl_next_reconnect_ns = 0, cl_host = h\<rparr>"

text \<open>\<open>run\<close>: the exit code and the transport and the host it leaves behind.\<close>

definition runDriver ::
    "'w system_calls \<Rightarrow> 'w process_calls \<Rightarrow> runtime_config \<Rightarrow> int \<times> 'w
       \<Rightarrow> (int \<times> 'w posix_transport \<times> (int \<times> 'w)) option" where
  "runDriver sys pc cfg h =
     do {
       (opening, t, h) \<leftarrow> openTransport sys
          (newSystemSerialTransport sys (rc_device_path cfg) A_kReadWrite) h;
       if so_status opening \<noteq> T_kOk
       then do {
         (t, h) \<leftarrow> closeTransport sys t h;
         Some (4, t, h)
       }
       else do {
         let c = startRun sys cfg t h;
         if \<not> configuration_valid (cl_session c)
         then do {
           (t, h) \<leftarrow> closeTransport sys t h;
           Some (5, t, h)
         }
         else do {
           (saved, h) \<leftarrow> enableNonblockingStdin pc h;
           if saved = None
           then do {
             (complete, t, h) \<leftarrow> attemptFinalZero sys pc cfg (t, h);
             (t, h) \<leftarrow> closeTransport sys t h;
             Some (6, t, h)
           }
           else do {
             c \<leftarrow> run_loop (runBody sys pc cfg) (c\<lparr>cl_host := h\<rparr>);
             (code, c) \<leftarrow> finishRun sys pc cfg c;
             h \<leftarrow> restoreStdin pc saved (cl_host c);
             Some (code, cl_transport c, h)
           }
         }
       }
     }"

text \<open>\<open>main\<close>: 2 for bad options, 3 for a bad configuration, the run otherwise.\<close>

definition cliMain ::
    "'w system_calls \<Rightarrow> 'w process_calls \<Rightarrow> (string \<Rightarrow> (string \<times> bool) option) \<Rightarrow> string list
       \<Rightarrow> int \<times> 'w \<Rightarrow> (int \<times> (int \<times> 'w)) option" where
  "cliMain sys pc files arguments h =
     (case parseOptions arguments of
        Exit code \<Rightarrow> Some (int code, h)
      | Rejected \<Rightarrow> Some (2, h)
      | Parsed opts \<Rightarrow>
          (let loaded = loadRuntimeConfig files (opt_config_path opts) (opt_run opts)
           in if \<not> cr_ok loaded then Some (3, h)
              else if opt_validate_only opts then Some (0, h)
              else map_option (\<lambda>(code, t, h). (code, h)) (runDriver sys pc (cr_config loaded) h)))"

end
