(* ===== verification/Spec2Isabelle.thy ===== *)
theory Spec2Isabelle
  imports Prelude Float64 Protocol Streams Feedback_Parser Transport_Interface Safety_Session
    Safety_Invariant Safety_Runs Safety_Effects Safety_Samples Safety_Properties Safety_Response
    Session_On_Transport Loops Posix_Io Posix_Transport Posix_Laws Posix_Properties Posix_Session
    C_Strings Config Config_Properties Cli_Input Cli_Run
begin

text \<open>
  Verification of the Wheeltec VCU serial driver.
\<close>

end
